(* ===== verification/Prelude.thy ===== *)
theory Prelude
  imports Main "HOL-Library.Word" "HOL-Library.Sublist" "HOL-Library.Char_ord" "HOL-Library.List_Lexorder"
begin

text \<open>
  What the component theories share: names for the machine integers, the string functions of the
  Rust standard library that the sources call (on ASCII text, one \<^typ>\<open>char\<close> per byte), the
  fallible state-passing style that models \<^verbatim>\<open>Result\<close> and the \<^verbatim>\<open>?\<close> operator, and the
  generic lemmas about them. \<open>str_simps\<close> collects the string facts, \<open>txn_simps\<close> the facts
  that run a sequence of database transactions.
\<close>

named_theorems str_simps
named_theorems txn_simps

section \<open>Machine integers and instants\<close>

type_synonym u8 = "8 word"
type_synonym u16 = "16 word"
type_synonym u32 = "32 word"
type_synonym u64 = "64 word"
type_synonym i32 = "32 word"

text \<open>An instant (\<^verbatim>\<open>DateTime<Utc>\<close>, \<^verbatim>\<open>Instant\<close>) counts nanoseconds.\<close>

type_synonym instant = int

definition seconds :: "int \<Rightarrow> instant" where
  "seconds n = n * 1000000000"

definition saturating_add :: "'a::len word \<Rightarrow> 'a word \<Rightarrow> 'a word" where
  "saturating_add a b = (if unat a + unat b < 2 ^ LENGTH('a) then a + b
                        else of_nat (2 ^ LENGTH('a) - 1))"

lemma unat_saturating_add:
  "unat (saturating_add a (b :: 'a::len word)) = min (unat a + unat b) (2 ^ LENGTH('a) - 1)"
proof (cases "unat a + unat b < 2 ^ LENGTH('a)")
  case True
  then show ?thesis
    by (simp add: saturating_add_def unat_word_ariths)
next
  case False
  moreover have "unat (of_nat (2 ^ LENGTH('a) - 1) :: 'a word) = 2 ^ LENGTH('a) - 1"
    by (simp only: unat_of_nat) simp
  ultimately show ?thesis
    by (simp only: saturating_add_def if_False not_less min_def) auto
qed

lemma saturating_add_code [code]:
  "saturating_add a b = (if a + b < a then - 1 else (a + b :: 'a::len word))"
proof (rule word_unat_eq_iff [THEN iffD2])
  have m: "unat (- 1 :: 'a word) = 2 ^ LENGTH('a) - 1"
    by (simp add: unsigned_minus_1_eq_mask mask_eq_exp_minus_1)
  have b: "unat a < 2 ^ LENGTH('a)" "unat b < 2 ^ LENGTH('a)"
    by (rule unsigned_less)+
  show "unat (saturating_add a b) = unat (if a + b < a then - 1 else a + b)"
  proof (cases "unat a + unat b < 2 ^ LENGTH('a)")
    case True
    then show ?thesis
      by (simp add: unat_saturating_add unat_word_ariths word_less_nat_alt)
  next
    case False
    have "unat a + unat b - 2 ^ LENGTH('a) < 2 ^ LENGTH('a)"
      using b by linarith
    with False have "unat (a + b) = unat a + unat b - 2 ^ LENGTH('a)"
      by (simp add: unat_word_ariths le_mod_geq)
    with False b(2) have "unat (a + b) < unat a"
      by linarith
    then have "a + b < a"
      by (simp add: word_less_nat_alt)
    with False show ?thesis
      by (simp add: unat_saturating_add m)
  qed
qed

lemma in_map_filter [simp]: "y \<in> set (List.map_filter f xs) \<longleftrightarrow> (\<exists>x \<in> set xs. f x = Some y)"
  by (force simp: List.map_filter_def)

lemma option_eqI: "(\<And>x. a = Some x \<longleftrightarrow> b = Some x) \<Longrightarrow> a = b"
  by (cases a; cases b) auto

section \<open>Strings\<close>

definition ascii_lower :: "char \<Rightarrow> char" where
  "ascii_lower c = (if 65 \<le> (of_char c :: nat) \<and> (of_char c :: nat) \<le> 90
                    then char_of (of_char c + 32 :: nat) else c)"

definition to_lowercase :: "string \<Rightarrow> string" where
  "to_lowercase s = map ascii_lower s"

definition ascii_upper :: "char \<Rightarrow> char" where
  "ascii_upper c = (if 97 \<le> (of_char c :: nat) \<and> (of_char c :: nat) \<le> 122
                    then char_of (of_char c - 32 :: nat) else c)"

definition to_uppercase :: "string \<Rightarrow> string" where
  "to_uppercase s = map ascii_upper s"

definition trim_end_matches :: "char \<Rightarrow> string \<Rightarrow> string" where
  "trim_end_matches c s = rev (dropWhile (\<lambda>x. x = c) (rev s))"

definition starts_with :: "string \<Rightarrow> string \<Rightarrow> bool" where
  "starts_with s p = prefix p s"

definition ends_with :: "string \<Rightarrow> string \<Rightarrow> bool" where
  "ends_with s p = suffix p s"

definition strip_suffix :: "string \<Rightarrow> string \<Rightarrow> string option" where
  "strip_suffix s p = (if suffix p s then Some (take (length s - length p) s) else None)"

fun split_char :: "char \<Rightarrow> string \<Rightarrow> string list" where
  "split_char c [] = [[]]"
| "split_char c (x # xs) =
     (if x = c then [] # split_char c xs
      else (case split_char c xs of [] \<Rightarrow> [[x]] | w # ws \<Rightarrow> (x # w) # ws))"

fun join_char :: "char \<Rightarrow> string list \<Rightarrow> string" where
  "join_char c [] = []"
| "join_char c [w] = w"
| "join_char c (w # v # ws) = w @ c # join_char c (v # ws)"

text \<open>
  \<^verbatim>\<open>str::parse\<close> for an unsigned integer below a bound: an optional plus sign, at least one
  decimal digit, no overflow.
\<close>

definition is_digit :: "char \<Rightarrow> bool" where
  "is_digit c \<longleftrightarrow> 48 \<le> (of_char c :: nat) \<and> (of_char c :: nat) \<le> 57"

definition digits_val :: "string \<Rightarrow> nat" where
  "digits_val s = foldl (\<lambda>n c. 10 * n + (of_char c - 48)) 0 s"

definition parse_uint :: "nat \<Rightarrow> string \<Rightarrow> nat option" where
  "parse_uint bound s =
     (let d = (case s of [] \<Rightarrow> [] | c # cs \<Rightarrow> if c = CHR ''+'' then cs else s)
      in if d \<noteq> [] \<and> list_all is_digit d \<and> digits_val d < bound then Some (digits_val d) else None)"

text \<open>\<^verbatim>\<open>Option::or\<close>, \<^verbatim>\<open>slice::get\<close> and \<^verbatim>\<open>Iterator::position\<close>.\<close>

definition or_else :: "'a option \<Rightarrow> 'a option \<Rightarrow> 'a option" where
  "or_else a b = (case a of Some x \<Rightarrow> Some x | None \<Rightarrow> b)"

definition nth_opt :: "'a list \<Rightarrow> nat \<Rightarrow> 'a option" where
  "nth_opt xs i = (if i < length xs then Some (xs ! i) else None)"

fun position :: "('a \<Rightarrow> bool) \<Rightarrow> 'a list \<Rightarrow> nat option" where
  "position P [] = None"
| "position P (x # xs) = (if P x then Some 0 else map_option Suc (position P xs))"

text \<open>\<^verbatim>\<open>remaining.find('.')\<close> splits a string at the first separator.\<close>

fun split_once :: "char \<Rightarrow> string \<Rightarrow> (string \<times> string) option" where
  "split_once c [] = None"
| "split_once c (x # xs) =
     (if x = c then Some ([], xs)
      else (case split_once c xs of None \<Rightarrow> None | Some (a, b) \<Rightarrow> Some (x # a, b)))"

subsection \<open>Facts about strings\<close>

lemma digits_val_snoc: "digits_val (s @ [c]) = 10 * digits_val s + (of_char c - 48)"
  by (simp add: digits_val_def)

lemma of_char_ascii_lower:
  "(of_char (ascii_lower c) :: nat) =
     (if 65 \<le> (of_char c :: nat) \<and> (of_char c :: nat) \<le> 90 then of_char c + 32 else of_char c)"
proof (cases "65 \<le> (of_char c :: nat) \<and> (of_char c :: nat) \<le> 90")
  case True
  then have "(of_char (ascii_lower c) :: nat) = (of_char c + 32) mod 256"
    by (simp only: ascii_lower_def of_char_of simp_thms if_True)
  also have "\<dots> = of_char c + 32"
    using True by (intro mod_less) linarith
  finally show ?thesis
    using True by simp
next
  case False
  then show ?thesis
    by (simp only: ascii_lower_def if_False)
qed

lemma ascii_lower_idem [simp]: "ascii_lower (ascii_lower c) = ascii_lower c"
proof -
  have "\<not> (65 \<le> (of_char (ascii_lower c) :: nat) \<and> (of_char (ascii_lower c) :: nat) \<le> 90)"
    by (auto simp: of_char_ascii_lower)
  then show ?thesis
    by (subst ascii_lower_def) (simp only: if_False)
qed

lemma to_lowercase_idem [simp, str_simps]: "to_lowercase (to_lowercase s) = to_lowercase s"
  by (simp add: to_lowercase_def)

lemma to_lowercase_append [simp, str_simps]:
  "to_lowercase (s @ t) = to_lowercase s @ to_lowercase t"
  by (simp add: to_lowercase_def)

lemma length_to_lowercase [simp, str_simps]: "length (to_lowercase s) = length s"
  by (simp add: to_lowercase_def)

lemma ends_with_iff [str_simps]: "ends_with s p \<longleftrightarrow> (\<exists>q. s = q @ p)"
  by (auto simp: ends_with_def suffix_def)

lemma starts_with_iff [str_simps]: "starts_with s p \<longleftrightarrow> (\<exists>q. s = p @ q)"
  by (auto simp: starts_with_def prefix_def)

lemma strip_suffix_Some [str_simps]: "strip_suffix s p = Some q \<longleftrightarrow> s = q @ p"
  by (auto simp: strip_suffix_def suffix_def)

lemma strip_suffix_None [str_simps]: "strip_suffix s p = None \<longleftrightarrow> (\<forall>q. s \<noteq> q @ p)"
  by (auto simp: strip_suffix_def suffix_def)

lemma trim_end_matches_last:
  "trim_end_matches c s = [] \<or> last (trim_end_matches c s) \<noteq> c"
proof (cases "dropWhile (\<lambda>x. x = c) (rev s)")
  case (Cons a list)
  then have "\<not> a = c"
    using hd_dropWhile [of "\<lambda>x. x = c" "rev s"] by simp
  with Cons show ?thesis
    by (simp add: trim_end_matches_def)
qed (simp add: trim_end_matches_def)

lemma trim_end_matches_idle:
  "s = [] \<or> last s \<noteq> c \<Longrightarrow> trim_end_matches c s = s"
  by (cases s rule: rev_cases) (auto simp: trim_end_matches_def)

lemma trim_end_matches_idem [simp, str_simps]:
  "trim_end_matches c (trim_end_matches c s) = trim_end_matches c s"
  by (rule trim_end_matches_idle) (rule trim_end_matches_last)

lemma split_char_nonempty [simp]: "split_char c s \<noteq> []"
  by (induction s) (auto split: list.splits)

lemma split_char_plain [simp, str_simps]: "c \<notin> set s \<Longrightarrow> split_char c s = [s]"
  by (induction s) auto

lemma split_char_sep [str_simps]:
  "c \<notin> set w \<Longrightarrow> split_char c (w @ c # s) = w # split_char c s"
  by (induction w) auto

lemma split_char_append:
  "split_char c (s @ c # t) = split_char c s @ split_char c t"
  by (induction s) (auto split: list.splits)

lemma split_join [str_simps]:
  "ws \<noteq> [] \<Longrightarrow> (\<forall>w \<in> set ws. c \<notin> set w) \<Longrightarrow> split_char c (join_char c ws) = ws"
  by (induction c ws rule: join_char.induct) (auto simp: split_char_sep)

lemma join_split [simp, str_simps]: "join_char c (split_char c s) = s"
proof (induction s)
  case (Cons x xs)
  obtain w ws where w: "split_char c xs = w # ws"
    by (cases "split_char c xs") auto
  with Cons.IH show ?case
    by (cases ws) auto
qed simp

lemma split_char_no_sep: "w \<in> set (split_char c s) \<Longrightarrow> c \<notin> set w"
proof (induction s arbitrary: w)
  case (Cons x xs)
  obtain v vs where v: "split_char c xs = v # vs"
    by (cases "split_char c xs") auto
  then have "\<forall>u \<in> set (v # vs). c \<notin> set u"
    using Cons.IH by metis
  with v Cons.prems show ?case
    by (auto split: if_splits)
qed simp

lemma split_once_hit [str_simps]: "c \<notin> set a \<Longrightarrow> split_once c (a @ c # b) = Some (a, b)"
  by (induction a) auto

lemma split_once_SomeD: "split_once c s = Some (a, b) \<Longrightarrow> s = a @ c # b \<and> c \<notin> set a"
  by (induction s arbitrary: a) (auto split: if_splits option.splits)

lemma split_once_None: "split_once c s = None \<longleftrightarrow> c \<notin> set s"
  by (induction s) (auto split: option.splits)

section \<open>Fallible state passing\<close>

text \<open>
  A function that works on the database and returns a \<^verbatim>\<open>Result\<close> is a function from the state to
  the result and the state it leaves behind; \<open>bindE\<close> is the \<^verbatim>\<open>?\<close> operator: the first
  error ends the function, and what was committed before it stays.
\<close>

type_synonym ('s, 'e, 'a) txn = "'s \<Rightarrow> ('e + 'a) \<times> 's"

definition returnE :: "'a \<Rightarrow> ('s, 'e, 'a) txn" where
  "returnE x = (\<lambda>s. (Inr x, s))"

definition throwE :: "'e \<Rightarrow> ('s, 'e, 'a) txn" where
  "throwE e = (\<lambda>s. (Inl e, s))"

definition bindE :: "('s, 'e, 'a) txn \<Rightarrow> ('a \<Rightarrow> ('s, 'e, 'b) txn) \<Rightarrow> ('s, 'e, 'b) txn" where
  "bindE m f = (\<lambda>s. case m s of (Inl e, s') \<Rightarrow> (Inl e, s') | (Inr x, s') \<Rightarrow> f x s')"

definition thenE :: "('s, 'e, unit) txn \<Rightarrow> ('s, 'e, 'b) txn \<Rightarrow> ('s, 'e, 'b) txn" where
  "thenE m n = bindE m (\<lambda>_. n)"

definition getE :: "('s \<Rightarrow> 'a) \<Rightarrow> ('s, 'e, 'a) txn" where
  "getE f = (\<lambda>s. (Inr (f s), s))"

text \<open>\<^verbatim>\<open>if let Err(e) = ...\<close> with a log line: the error is dropped.\<close>

definition ignoreE :: "('s, 'e, 'a) txn \<Rightarrow> ('s, 'e, unit) txn" where
  "ignoreE m = (\<lambda>s. (Inr (), snd (m s)))"

fun forE :: "'a list \<Rightarrow> ('a \<Rightarrow> ('s, 'e, unit) txn) \<Rightarrow> ('s, 'e, unit) txn" where
  "forE [] f = returnE ()"
| "forE (x # xs) f = thenE (f x) (forE xs f)"

lemma bindE_apply [txn_simps]:
  "bindE m f s = (case m s of (Inl e, s') \<Rightarrow> (Inl e, s') | (Inr x, s') \<Rightarrow> f x s')"
  by (simp add: bindE_def)

lemma thenE_apply [txn_simps]:
  "thenE m n s = (case m s of (Inl e, s') \<Rightarrow> (Inl e, s') | (Inr x, s') \<Rightarrow> n s')"
  by (simp add: thenE_def bindE_def)

lemma returnE_apply [txn_simps, simp]: "returnE x s = (Inr x, s)"
  by (simp add: returnE_def)

lemma throwE_apply [txn_simps, simp]: "throwE e s = (Inl e, s)"
  by (simp add: throwE_def)

lemma getE_apply [txn_simps, simp]: "getE f s = (Inr (f s), s)"
  by (simp add: getE_def)

text \<open>An assertion about every state a sequence of transactions may leave, error or not.\<close>

definition keeps :: "('s \<Rightarrow> bool) \<Rightarrow> ('s, 'e, 'a) txn \<Rightarrow> bool" where
  "keeps P m \<longleftrightarrow> (\<forall>s. P s \<longrightarrow> P (snd (m s)))"

lemma keepsI: "(\<And>s. P s \<Longrightarrow> P (snd (m s))) \<Longrightarrow> keeps P m"
  by (simp add: keeps_def)

lemma keepsD: "keeps P m \<Longrightarrow> P s \<Longrightarrow> P (snd (m s))"
  by (simp add: keeps_def)

lemma keeps_returnE [intro]: "keeps P (returnE x)"
  by (simp add: keeps_def)

lemma keeps_getE [intro]: "keeps P (getE f)"
  by (simp add: keeps_def)

lemma keeps_bindE [intro]:
  assumes "keeps P m" and "\<And>x. keeps P (f x)"
  shows "keeps P (bindE m f)"
proof (rule keepsI)
  fix s assume "P s"
  with assms(1) have "P (snd (m s))"
    by (rule keepsD)
  then show "P (snd (bindE m f s))"
    by (cases "m s"; cases "fst (m s)")
       (auto simp: bindE_apply intro: keepsD [OF assms(2)])
qed

lemma keeps_ignoreE [intro]: "keeps P m \<Longrightarrow> keeps P (ignoreE m)"
  by (simp add: keeps_def ignoreE_def)

lemma keeps_thenE [intro]: "keeps P m \<Longrightarrow> keeps P n \<Longrightarrow> keeps P (thenE m n)"
  unfolding thenE_def by (rule keeps_bindE)

lemma keeps_forE [intro]: "(\<And>x. x \<in> set xs \<Longrightarrow> keeps P (f x)) \<Longrightarrow> keeps P (forE xs f)"
  by (induction xs) auto

text \<open>
  Total correctness of a sequence of transactions: from a state that satisfies the precondition it
  returns a value, without error, and the result and the final state satisfy the postcondition.
\<close>

definition okE :: "('s \<Rightarrow> bool) \<Rightarrow> ('s, 'e, 'a) txn \<Rightarrow> ('a \<Rightarrow> 's \<Rightarrow> bool) \<Rightarrow> bool" where
  "okE P m Q \<longleftrightarrow> (\<forall>s. P s \<longrightarrow> (\<exists>x s'. m s = (Inr x, s') \<and> Q x s'))"

lemma okEI: "(\<And>s. P s \<Longrightarrow> \<exists>x s'. m s = (Inr x, s') \<and> Q x s') \<Longrightarrow> okE P m Q"
  by (simp add: okE_def)

lemma okED: "okE P m Q \<Longrightarrow> P s \<Longrightarrow> \<exists>x s'. m s = (Inr x, s') \<and> Q x s'"
  by (simp add: okE_def)

lemma okE_returnE: "(\<And>s. P s \<Longrightarrow> Q x s) \<Longrightarrow> okE P (returnE x) Q"
  by (simp add: okE_def)

lemma okE_getE: "okE P (getE f) (\<lambda>x s. P s \<and> x = f s)"
  by (simp add: okE_def)

lemma okE_bindE: "okE P m R \<Longrightarrow> (\<And>x. okE (R x) (f x) Q) \<Longrightarrow> okE P (bindE m f) Q"
  unfolding okE_def bindE_apply by fastforce

lemma okE_ignoreE: "okE P m (\<lambda>_. Q) \<Longrightarrow> okE P (ignoreE m) (\<lambda>_. Q)"
  unfolding okE_def ignoreE_def by fastforce

lemma okE_thenE: "okE P m (\<lambda>_. R) \<Longrightarrow> okE R n Q \<Longrightarrow> okE P (thenE m n) Q"
  unfolding thenE_def by (rule okE_bindE)

lemma okE_weaken:
  "okE P m Q \<Longrightarrow> (\<And>s. P' s \<Longrightarrow> P s) \<Longrightarrow> (\<And>x s. Q x s \<Longrightarrow> Q' x s) \<Longrightarrow> okE P' m Q'"
  unfolding okE_def by blast

lemma okE_forE:
  assumes "\<And>ys x zs. xs = ys @ x # zs \<Longrightarrow> okE (I ys) (f x) (\<lambda>_. I (ys @ [x]))"
  shows "okE (I []) (forE xs f) (\<lambda>_. I xs)"
proof -
  have "okE (I ys) (forE zs f) (\<lambda>_. I xs)" if "xs = ys @ zs" for ys zs
    using that
  proof (induction zs arbitrary: ys)
    case Nil
    then show ?case
      unfolding forE.simps by (intro okE_returnE) simp
  next
    case (Cons z zs)
    show ?case
      unfolding forE.simps
      by (rule okE_thenE [OF assms Cons.IH]) (use Cons.prems in simp_all)
  qed
  from this [of "[]" xs] show ?thesis
    by simp
qed

end
