(* ===== verification/Tables.thy ===== *)
theory Tables
  imports Prelude
begin

text \<open>
  The embedded key-value store. A redb table with \<^verbatim>\<open>&str\<close> keys is an ordered map: at most one
  value per key, iterated in the byte order of its keys. The value column holds the row itself,
  not its JSON text. \<open>ordered_table\<close> is the contract the database layer relies on, with the
  facts its clients use proved once; \<open>redb\<close> is its interpretation on the table functions below.
\<close>

section \<open>Tables\<close>

type_synonym 'v table = "(string \<times> 'v) list"

definition tbl_empty :: "'v table" where
  "tbl_empty = []"

definition tbl_get :: "'v table \<Rightarrow> string \<Rightarrow> 'v option" where
  "tbl_get t k = map_of t k"

fun tbl_insert :: "string \<Rightarrow> 'v \<Rightarrow> 'v table \<Rightarrow> 'v table" where
  "tbl_insert k v [] = [(k, v)]"
| "tbl_insert k v (e # t) =
     (if fst e = k then (k, v) # t
      else if k < fst e then (k, v) # e # t
      else e # tbl_insert k v t)"

definition tbl_remove :: "string \<Rightarrow> 'v table \<Rightarrow> 'v table" where
  "tbl_remove k t = filter (\<lambda>e. fst e \<noteq> k) t"

definition tbl_iter :: "'v table \<Rightarrow> (string \<times> 'v) list" where
  "tbl_iter t = t"

definition tbl_ok :: "'v table \<Rightarrow> bool" where
  "tbl_ok t \<longleftrightarrow> sorted_wrt (<) (map fst t)"

text \<open>\<^verbatim>\<open>table.range(from..)\<close>: the entries whose key is not below the bound, in key order.\<close>

definition tbl_range :: "string \<Rightarrow> 'v table \<Rightarrow> (string \<times> 'v) list" where
  "tbl_range lo t = filter (\<lambda>e. lo \<le> fst e) (tbl_iter t)"

definition tbl_values :: "'v table \<Rightarrow> 'v list" where
  "tbl_values t = map snd (tbl_iter t)"

section \<open>The order of keys and prefixes\<close>

lemma prefix_imp_le: "prefix p k \<Longrightarrow> p \<le> (k :: string)"
proof (induction p arbitrary: k)
  case (Cons x p)
  then show ?case
    by (cases k) auto
qed simp

lemma prefix_convex:
  "p \<le> k \<Longrightarrow> k \<le> k' \<Longrightarrow> prefix p k' \<Longrightarrow> prefix p (k :: string)"
proof (induction p arbitrary: k k')
  case (Cons x p)
  then obtain k2' where k': "k' = x # k2'" and pre: "prefix p k2'"
    by (cases k') auto
  from Cons.prems(1) obtain y k2 where k: "k = y # k2"
    by (cases k) auto
  from Cons.prems(1,2) have "x \<le> y" "y \<le> x"
    by (auto simp: k k' Cons_le_Cons)
  then have "y = x"
    by simp
  with Cons.prems(1,2) k k' have "p \<le> k2" "k2 \<le> k2'"
    by (auto simp: Cons_le_Cons)
  with Cons.IH pre \<open>y = x\<close> k show ?case
    by simp
qed simp

section \<open>The contract of a table\<close>

locale ordered_table =
  fixes get :: "'t \<Rightarrow> string \<Rightarrow> 'v option"
    and ins :: "string \<Rightarrow> 'v \<Rightarrow> 't \<Rightarrow> 't"
    and rem :: "string \<Rightarrow> 't \<Rightarrow> 't"
    and iter :: "'t \<Rightarrow> (string \<times> 'v) list"
    and ok :: "'t \<Rightarrow> bool"
  assumes get_ins: "get (ins k v t) k' = (if k' = k then Some v else get t k')"
    and get_rem: "get (rem k t) k' = (if k' = k then None else get t k')"
    and ok_ins: "ok t \<Longrightarrow> ok (ins k v t)"
    and ok_rem: "ok t \<Longrightarrow> ok (rem k t)"
    and iter_get: "ok t \<Longrightarrow> (k, v) \<in> set (iter t) \<longleftrightarrow> get t k = Some v"
    and iter_sorted: "ok t \<Longrightarrow> sorted_wrt (<) (map fst (iter t))"
begin

lemma get_fold_rem: "get (fold rem ks t) k = (if k \<in> set ks then None else get t k)"
  by (induction ks arbitrary: t) (auto simp: get_rem)

lemma ok_fold_rem: "ok t \<Longrightarrow> ok (fold rem ks t)"
  by (induction ks arbitrary: t) (auto simp: ok_rem)

lemma iter_distinct: "ok t \<Longrightarrow> distinct (map fst (iter t))"
  using iter_sorted [of t] by (simp add: strict_sorted_iff)

text \<open>
  The first key at or above a prefix decides whether any key has that prefix: the keys with the
  prefix are contiguous.
\<close>

lemma range_prefix_hit:
  assumes "ok t"
  shows "(case filter (\<lambda>e. p \<le> fst e) (iter t) of [] \<Rightarrow> False | e # es \<Rightarrow> prefix p (fst e))
         \<longleftrightarrow> (\<exists>k v. get t k = Some v \<and> prefix p k)"
proof (cases "filter (\<lambda>e. p \<le> fst e) (iter t)")
  case Nil
  have "\<not> prefix p k" if "get t k = Some v" for k v
  proof
    assume "prefix p k"
    then have "p \<le> k"
      by (rule prefix_imp_le)
    moreover from that assms have "(k, v) \<in> set (iter t)"
      by (simp add: iter_get)
    ultimately show False
      using Nil by (fastforce simp: filter_empty_conv)
  qed
  with Nil show ?thesis
    by auto
next
  case (Cons e es)
  then have e: "e \<in> set (iter t)" "p \<le> fst e"
    using Cons_eq_filterD [OF Cons [symmetric]] by auto
  have srt: "sorted_wrt (<) (map fst (e # es))"
  proof -
    have "sorted_wrt (\<lambda>x y. fst x < fst y) (filter (\<lambda>e. p \<le> fst e) (iter t))"
      using iter_sorted [OF assms] by (intro sorted_wrt_filter) (simp add: sorted_wrt_map)
    with Cons show ?thesis
      by (simp add: sorted_wrt_map)
  qed
  have "prefix p (fst e)" if k: "get t k = Some v" "prefix p k" for k v
  proof -
    from k assms have "(k, v) \<in> set (filter (\<lambda>e. p \<le> fst e) (iter t))"
      by (simp add: iter_get prefix_imp_le)
    with Cons srt have "fst e \<le> k"
      by (auto simp: less_imp_le)
    with e k show ?thesis
      by (blast intro: prefix_convex)
  qed
  moreover from e assms have "get t (fst e) = Some (snd e)"
    by (metis iter_get prod.collapse)
  ultimately show ?thesis
    using Cons by auto
qed

end

section \<open>The store's tables fulfil the contract\<close>

lemma tbl_get_insert [simp]: "tbl_get (tbl_insert k v t) k' = (if k' = k then Some v else tbl_get t k')"
  by (induction t) (auto simp: tbl_get_def)

lemma tbl_get_remove [simp]: "tbl_get (tbl_remove k t) k' = (if k' = k then None else tbl_get t k')"
  by (induction t) (auto simp: tbl_get_def tbl_remove_def)

lemma tbl_get_empty [simp]: "tbl_get tbl_empty k = None"
  by (simp add: tbl_get_def tbl_empty_def)

lemma set_tbl_insert: "fst ` set (tbl_insert k v t) = insert k (fst ` set t)"
  by (induction t) auto

lemma tbl_ok_empty [simp]: "tbl_ok tbl_empty"
  by (simp add: tbl_ok_def tbl_empty_def)

lemma tbl_ok_insert [simp]: "tbl_ok t \<Longrightarrow> tbl_ok (tbl_insert k v t)"
proof (induction t)
  case (Cons e t)
  have "\<forall>x \<in> set (tbl_insert k v t). fst e < fst x" if "\<not> k < fst e" "fst e \<noteq> k"
  proof -
    have "fst x \<in> insert k (fst ` set t)" if "x \<in> set (tbl_insert k v t)" for x
      using that set_tbl_insert [of k v t] by (metis imageI)
    with Cons.prems that show ?thesis
      by (fastforce simp: tbl_ok_def)
  qed
  with Cons show ?case
    by (auto simp: tbl_ok_def)
qed (simp add: tbl_ok_def)

lemma tbl_ok_remove [simp]: "tbl_ok t \<Longrightarrow> tbl_ok (tbl_remove k t)"
  by (simp add: tbl_ok_def tbl_remove_def sorted_wrt_map sorted_wrt_filter)

lemma tbl_iter_get: "tbl_ok t \<Longrightarrow> (k, v) \<in> set (tbl_iter t) \<longleftrightarrow> tbl_get t k = Some v"
proof -
  assume "tbl_ok t"
  then have "distinct (map fst t)"
    by (simp add: tbl_ok_def strict_sorted_iff)
  then show ?thesis
    by (auto simp: tbl_get_def tbl_iter_def)
qed

interpretation redb: ordered_table tbl_get tbl_insert tbl_remove tbl_iter tbl_ok
  by unfold_locales (simp_all add: tbl_iter_get, simp add: tbl_ok_def tbl_iter_def)

lemma tbl_values_iff: "tbl_ok t \<Longrightarrow> v \<in> set (tbl_values t) \<longleftrightarrow> (\<exists>k. tbl_get t k = Some v)"
  using tbl_iter_get [of t] by (force simp: tbl_values_def)

lemma tbl_range_hit:
  "tbl_ok t \<Longrightarrow>
   (case tbl_range p t of [] \<Rightarrow> False | e # es \<Rightarrow> prefix p (fst e))
     \<longleftrightarrow> (\<exists>k v. tbl_get t k = Some v \<and> prefix p k)"
  unfolding tbl_range_def by (rule redb.range_prefix_hit)

end
