(* ===== verification/Types.thy ===== *)
theory Types
  imports Tables
begin

text \<open>
  The data model of \<^verbatim>\<open>crates/microdns-core/src/types.rs\<close> and \<^verbatim>\<open>error.rs\<close>: every struct is a
  record, every enum a datatype, with the source's fields and variants. A UUID is represented by
  its hyphenated text, the only form in which the database uses it; an IPv4 address is its 32-bit
  number and an IPv6 address its 128-bit number.
\<close>

section \<open>Identifiers and addresses\<close>

type_synonym uuid = string
type_synonym ipv4 = u32
type_synonym ipv6 = "128 word"

definition uuid_chars :: "char set" where
  "uuid_chars = set ''0123456789abcdef-''"

definition is_uuid :: "uuid \<Rightarrow> bool" where
  "is_uuid s \<longleftrightarrow> length s = 36 \<and> list_all (\<lambda>c. c \<in> uuid_chars) s"

lemma is_uuid_chars:
  assumes "is_uuid s"
  shows "CHR '':'' \<notin> set s" and "CHR '','' \<notin> set s" and "s \<noteq> []"
proof -
  have "CHR '':'' \<notin> uuid_chars" "CHR '','' \<notin> uuid_chars"
    by (simp_all add: uuid_chars_def)
  with assms show "CHR '':'' \<notin> set s" "CHR '','' \<notin> set s" "s \<noteq> []"
    by (auto simp: is_uuid_def list_all_iff)
qed

section \<open>Errors\<close>

datatype error =
    Database string
  | Config string
  | ZoneNotFound string
  | RecordNotFound string
  | DuplicateZone string
  | DuplicateRecord string
  | InvalidRecord string
  | Serialization string
  | Io string
  | PoolNotFound string
  | ReservationNotFound string
  | ForwarderNotFound string
  | DuplicateReservation string
  | Other string

section \<open>Record types and record data\<close>

datatype record_type =
  RT_A | RT_AAAA | RT_CNAME | RT_MX | RT_NS | RT_PTR | RT_SOA | RT_SRV | RT_TXT | RT_CAA

fun record_type_str :: "record_type \<Rightarrow> string" where
  "record_type_str RT_A = ''A''"
| "record_type_str RT_AAAA = ''AAAA''"
| "record_type_str RT_CNAME = ''CNAME''"
| "record_type_str RT_MX = ''MX''"
| "record_type_str RT_NS = ''NS''"
| "record_type_str RT_PTR = ''PTR''"
| "record_type_str RT_SOA = ''SOA''"
| "record_type_str RT_SRV = ''SRV''"
| "record_type_str RT_TXT = ''TXT''"
| "record_type_str RT_CAA = ''CAA''"

definition record_type_from_str :: "string \<Rightarrow> error + record_type" where
  "record_type_from_str s =
     (let u = to_uppercase s in
      if u = ''A'' then Inr RT_A
      else if u = ''AAAA'' then Inr RT_AAAA
      else if u = ''CNAME'' then Inr RT_CNAME
      else if u = ''MX'' then Inr RT_MX
      else if u = ''NS'' then Inr RT_NS
      else if u = ''PTR'' then Inr RT_PTR
      else if u = ''SOA'' then Inr RT_SOA
      else if u = ''SRV'' then Inr RT_SRV
      else if u = ''TXT'' then Inr RT_TXT
      else if u = ''CAA'' then Inr RT_CAA
      else Inl (InvalidRecord (''unknown record type: '' @ s)))"

record soa_data =
  mname :: string
  rname :: string
  serial :: u32
  refresh :: u32
  retry :: u32
  expire :: u32
  minimum :: u32

record srv_data =
  srv_priority :: u16
  srv_weight :: u16
  srv_port :: u16
  srv_target :: string

record caa_data =
  caa_flags :: u8
  caa_tag :: string
  caa_value :: string

datatype record_data =
    RD_A ipv4
  | RD_AAAA ipv6
  | RD_CNAME string
  | RD_MX u16 string
  | RD_NS string
  | RD_PTR string
  | RD_SOA soa_data
  | RD_SRV srv_data
  | RD_TXT string
  | RD_CAA caa_data

fun rd_type :: "record_data \<Rightarrow> record_type" where
  "rd_type (RD_A _) = RT_A"
| "rd_type (RD_AAAA _) = RT_AAAA"
| "rd_type (RD_CNAME _) = RT_CNAME"
| "rd_type (RD_MX _ _) = RT_MX"
| "rd_type (RD_NS _) = RT_NS"
| "rd_type (RD_PTR _) = RT_PTR"
| "rd_type (RD_SOA _) = RT_SOA"
| "rd_type (RD_SRV _) = RT_SRV"
| "rd_type (RD_TXT _) = RT_TXT"
| "rd_type (RD_CAA _) = RT_CAA"

section \<open>Zones and records\<close>

record zone =
  z_id :: uuid
  z_name :: string
  z_soa :: soa_data
  z_default_ttl :: u32
  z_created_at :: instant
  z_updated_at :: instant

datatype record_source = Manual | Dhcp | Mdns | K8s

fun record_source_str :: "record_source \<Rightarrow> string" where
  "record_source_str Manual = ''manual''"
| "record_source_str Dhcp = ''dhcp''"
| "record_source_str Mdns = ''mdns''"
| "record_source_str K8s = ''k8s''"

fun is_automatic :: "record_source \<Rightarrow> bool" where
  "is_automatic Manual = False"
| "is_automatic _ = True"

datatype probe_type = Ping | Http | Https | Tcp | TcpHalfOpen

fun probe_type_str :: "probe_type \<Rightarrow> string" where
  "probe_type_str Ping = ''ping''"
| "probe_type_str Http = ''http''"
| "probe_type_str Https = ''https''"
| "probe_type_str Tcp = ''tcp''"
| "probe_type_str TcpHalfOpen = ''tcp_half_open''"

record health_check =
  hc_probe_type :: probe_type
  hc_interval_secs :: u32
  hc_timeout_secs :: u32
  hc_unhealthy_threshold :: u32
  hc_healthy_threshold :: u32
  hc_endpoint :: "string option"

record dns_record =
  r_id :: uuid
  r_zone_id :: uuid
  r_name :: string
  r_ttl :: u32
  r_data :: record_data
  r_enabled :: bool
  r_health_check :: "health_check option"
  r_source :: record_source
  r_origin :: "string option"
  r_created_at :: instant
  r_updated_at :: instant

section \<open>Health, query statistics, leases\<close>

datatype health_status = Unknown | Healthy | Unhealthy

fun health_status_str :: "health_status \<Rightarrow> string" where
  "health_status_str Unknown = ''unknown''"
| "health_status_str Healthy = ''healthy''"
| "health_status_str Unhealthy = ''unhealthy''"

record query_stat =
  qs_fqdn :: string
  qs_record_type :: record_type
  qs_last_queried_at :: instant
  qs_total_count :: u64

record persisted_health =
  ph_record_id :: uuid
  ph_status :: health_status
  ph_last_checked_at :: instant
  ph_last_state_change_at :: instant
  ph_last_healthy_at :: "instant option"
  ph_last_probe_detail :: string
  ph_last_probe_type :: probe_type
  ph_consecutive_successes :: u32
  ph_consecutive_failures :: u32

datatype lease_state = Active | Expired | Released

record lease =
  l_id :: uuid
  l_ip_addr :: string
  l_mac_addr :: string
  l_hostname :: "string option"
  l_lease_start :: instant
  l_lease_end :: instant
  l_pool_id :: string
  l_state :: lease_state

section \<open>Address management, replication and DHCP configuration\<close>

record ipam_allocation =
  ia_id :: uuid
  ia_pool :: string
  ia_ip_addr :: string
  ia_container :: string
  ia_gateway :: string
  ia_bridge :: string
  ia_subnet :: string
  ia_created_at :: instant

record replication_meta =
  rm_zone_id :: uuid
  rm_zone_name :: string
  rm_source_peer_id :: string
  rm_last_synced :: instant
  rm_source_serial :: u32

record static_route =
  sr_id :: uuid
  sr_destination :: string
  sr_gateway :: string
  sr_managed_by :: "string option"

record dhcp_pool =
  dp_id :: uuid
  dp_name :: string
  dp_range_start :: string
  dp_range_end :: string
  dp_subnet :: string
  dp_gateway :: string
  dp_dns_servers :: "string list"
  dp_domain :: string
  dp_lease_time_secs :: u64
  dp_next_server :: "string option"
  dp_boot_file :: "string option"
  dp_boot_file_efi :: "string option"
  dp_ipxe_boot_url :: "string option"
  dp_root_path :: "string option"
  dp_ntp_servers :: "string list option"
  dp_domain_search :: "string list option"
  dp_mtu :: "u16 option"
  dp_static_routes :: "static_route list option"
  dp_log_server :: "string option"
  dp_time_offset :: "i32 option"
  dp_wpad_url :: "string option"
  dp_created_at :: instant
  dp_updated_at :: instant

definition default_lease_time :: u64 where
  "default_lease_time = 3600"

record dhcp_reservation =
  dr_mac :: string
  dr_ip :: string
  dr_hostname :: "string option"
  dr_gateway :: "string option"
  dr_dns_servers :: "string list option"
  dr_domain :: "string option"
  dr_ntp_servers :: "string list option"
  dr_domain_search :: "string list option"
  dr_mtu :: "u16 option"
  dr_next_server :: "string option"
  dr_boot_file :: "string option"
  dr_boot_file_efi :: "string option"
  dr_ipxe_boot_url :: "string option"
  dr_root_path :: "string option"
  dr_static_routes :: "static_route list option"
  dr_log_server :: "string option"
  dr_time_offset :: "i32 option"
  dr_wpad_url :: "string option"
  dr_lease_time_secs :: "u64 option"
  dr_created_at :: instant
  dr_updated_at :: instant

record dns_forwarder =
  fw_zone :: string
  fw_servers :: "string list"
  fw_created_at :: instant
  fw_updated_at :: instant

record db_instance_config =
  ic_listen_dns :: "string option"
  ic_listen_api :: "string option"
  ic_dhcp_interface :: "string option"
  ic_dhcp_mode :: "string option"
  ic_server_ip :: "string option"
  ic_updated_at :: instant

datatype instance_mode = Standalone | Gateway | Leaf | Coordinator

section \<open>Facts\<close>

lemma record_type_str_plain [simp]:
  "CHR '':'' \<notin> set (record_type_str t)" "record_type_str t \<noteq> []"
  by (cases t; simp)+

lemma record_type_str_inject [simp]: "record_type_str t = record_type_str u \<longleftrightarrow> t = u"
  by (cases t; cases u; simp)

lemma to_uppercase_record_type_str [simp]: "to_uppercase (record_type_str t) = record_type_str t"
  by (cases t) (simp_all add: to_uppercase_def ascii_upper_def)

lemma record_type_from_str_iff:
  "record_type_from_str s = Inr t \<longleftrightarrow> to_uppercase s = record_type_str t"
  by (cases t; simp add: record_type_from_str_def Let_def)

end
