(* ===== verification/Db.thy ===== *)
theory Db
  imports Types
begin

text \<open>
  The database layer, \<^verbatim>\<open>crates/microdns-core/src/db.rs\<close>: its tables as one record, and the zone
  and record operations. A write is one transaction: it either returns an error and leaves the
  tables as they were, or commits all its changes. Time stamps, the text of today's date and fresh
  UUIDs come from outside and are arguments. A redb or JSON failure (\<^verbatim>\<open>Error::Database\<close>,
  \<^verbatim>\<open>Error::Serialization\<close>) aborts a transaction like any other error and is not modelled.
\<close>

section \<open>State\<close>

record db =
  zones :: "zone table"
  zone_name_index :: "string table"
  records :: "dns_record table"
  records_by_zone :: "string table"
  leases :: "lease table"
  ipam_allocations :: "ipam_allocation table"
  replication_metas :: "replication_meta table"
  dhcp_pools :: "dhcp_pool table"
  dhcp_reservations :: "dhcp_reservation table"
  dns_forwarders :: "dns_forwarder table"
  instance_config :: "db_instance_config table"
  lb_record_health :: "persisted_health table"
  query_stats :: "query_stat table"
  runtime_config :: "string table"
  mac_lease_index :: "string table"
  ip_lease_index :: "string table"
  zone_change_hook :: bool
  announced :: "string list"

type_synonym 'a db_txn = "(db, error, 'a) txn"

text \<open>
  \<^verbatim>\<open>Db::open\<close> on a path with no database: every table exists and is empty, no hook. The calls
  an installed hook receives are recorded in \<open>announced\<close>, latest last. The two lease indexes are
  created by the DHCP crate.
\<close>

definition db_open :: db where
  "db_open = \<lparr> zones = tbl_empty, zone_name_index = tbl_empty, records = tbl_empty,
     records_by_zone = tbl_empty, leases = tbl_empty, ipam_allocations = tbl_empty,
     replication_metas = tbl_empty, dhcp_pools = tbl_empty, dhcp_reservations = tbl_empty,
     dns_forwarders = tbl_empty, instance_config = tbl_empty, lb_record_health = tbl_empty,
     query_stats = tbl_empty, runtime_config = tbl_empty, mac_lease_index = tbl_empty,
     ip_lease_index = tbl_empty, zone_change_hook = False, announced = [] \<rparr>"

definition with_zone_change_hook :: "db \<Rightarrow> db" where
  "with_zone_change_hook d = d\<lparr>zone_change_hook := True\<rparr>"

section \<open>Zone operations\<close>

definition create_zone :: "string \<Rightarrow> zone \<Rightarrow> unit db_txn" where
  "create_zone name z d =
     (if tbl_get (zone_name_index d) name \<noteq> None then (Inl (DuplicateZone name), d)
      else (Inr (), d\<lparr>zones := tbl_insert (z_id z) z (zones d),
                      zone_name_index := tbl_insert name (z_id z) (zone_name_index d)\<rparr>))"

definition get_zone_by_name :: "db \<Rightarrow> string \<Rightarrow> zone option" where
  "get_zone_by_name d name =
     (case tbl_get (zone_name_index d) name of
        None \<Rightarrow> None
      | Some zid \<Rightarrow> tbl_get (zones d) zid)"

definition get_zone :: "db \<Rightarrow> uuid \<Rightarrow> zone option" where
  "get_zone d zid = tbl_get (zones d) zid"

definition zone_count :: "db \<Rightarrow> nat" where
  "zone_count d = length (tbl_iter (zones d))"

definition list_zones :: "db \<Rightarrow> zone list" where
  "list_zones d = tbl_values (zones d)"

text \<open>
  The index entries of a zone, as collected before a bulk deletion: their keys with the record
  ids each lists. The keys and the rows are then removed.
\<close>

definition zone_prefix :: "uuid \<Rightarrow> string" where
  "zone_prefix zid = zid @ '':''"

definition zone_index_entries :: "db \<Rightarrow> uuid \<Rightarrow> (string \<times> string list) list" where
  "zone_index_entries d zid =
     map (\<lambda>(k, v). (k, split_char CHR '','' v))
       (filter (\<lambda>(k, v). starts_with k (zone_prefix zid)) (tbl_iter (records_by_zone d)))"

definition remove_entries :: "(string \<times> string list) list \<Rightarrow> db \<Rightarrow> db" where
  "remove_entries es d =
     fold (\<lambda>e d. d\<lparr>records_by_zone := tbl_remove (fst e) (records_by_zone d),
                   records := fold tbl_remove (snd e) (records d)\<rparr>) es d"

definition delete_zone :: "uuid \<Rightarrow> unit db_txn" where
  "delete_zone zid d =
     (case tbl_get (zones d) zid of
        None \<Rightarrow> (Inl (ZoneNotFound zid), d)
      | Some z \<Rightarrow>
          (let d1 = d\<lparr>zones := tbl_remove zid (zones d),
                      zone_name_index := tbl_remove (z_name z) (zone_name_index d)\<rparr>
           in (Inr (), remove_entries (zone_index_entries d1 zid) d1)))"

definition delete_zone_records :: "uuid \<Rightarrow> nat db_txn" where
  "delete_zone_records zid d =
     (let es = zone_index_entries d zid
      in (Inr (sum_list (map (length \<circ> snd) es)), remove_entries es d))"

section \<open>Record operations\<close>

definition index_key :: "uuid \<Rightarrow> string \<Rightarrow> record_type \<Rightarrow> string" where
  "index_key zid name rt = zid @ '':'' @ name @ '':'' @ record_type_str rt"

abbreviation key_of :: "dns_record \<Rightarrow> string" where
  "key_of r \<equiv> index_key (r_zone_id r) (r_name r) (rd_type (r_data r))"

text \<open>Storing a row and appending its id to the entry of its zone, name and type.\<close>

definition insert_indexed :: "dns_record \<Rightarrow> db \<Rightarrow> db" where
  "insert_indexed r d =
     (let k = key_of r;
          v = (case tbl_get (records_by_zone d) k of
                 Some old \<Rightarrow> old @ '','' @ r_id r
               | None \<Rightarrow> r_id r)
      in d\<lparr>records := tbl_insert (r_id r) r (records d),
           records_by_zone := tbl_insert k v (records_by_zone d)\<rparr>)"

definition create_record :: "dns_record \<Rightarrow> unit db_txn" where
  "create_record r d = (Inr (), insert_indexed r d)"

definition get_record :: "db \<Rightarrow> uuid \<Rightarrow> dns_record option" where
  "get_record d rid = tbl_get (records d) rid"

definition rows_of :: "db \<Rightarrow> string list \<Rightarrow> dns_record list" where
  "rows_of d rids = List.map_filter (\<lambda>rid. tbl_get (records d) rid) rids"

definition query_records :: "db \<Rightarrow> uuid \<Rightarrow> string \<Rightarrow> record_type \<Rightarrow> dns_record list" where
  "query_records d zid name rt =
     (case tbl_get (records_by_zone d) (index_key zid name rt) of
        None \<Rightarrow> []
      | Some v \<Rightarrow> filter r_enabled (rows_of d (split_char CHR '','' v)))"

definition name_exists_in_zone :: "db \<Rightarrow> uuid \<Rightarrow> string \<Rightarrow> bool" where
  "name_exists_in_zone d zid name =
     (let p = zid @ '':'' @ name @ '':''
      in case tbl_range p (records_by_zone d) of
           [] \<Rightarrow> False
         | e # _ \<Rightarrow> starts_with (fst e) p)"

definition list_records :: "db \<Rightarrow> uuid \<Rightarrow> dns_record list" where
  "list_records d zid =
     concat (map (\<lambda>e. rows_of d (snd e)) (zone_index_entries d zid))"

definition update_record :: "dns_record \<Rightarrow> unit db_txn" where
  "update_record r d =
     (if tbl_get (records d) (r_id r) = None then (Inl (RecordNotFound (r_id r)), d)
      else (Inr (), d\<lparr>records := tbl_insert (r_id r) r (records d)\<rparr>))"

text \<open>Taking an id out of an index entry; an entry that becomes empty is removed.\<close>

definition unindex :: "string \<Rightarrow> uuid \<Rightarrow> string table \<Rightarrow> string table" where
  "unindex k rid t =
     (case tbl_get t k of
        None \<Rightarrow> t
      | Some v \<Rightarrow>
          (let ids = filter (\<lambda>s. s \<noteq> rid) (split_char CHR '','' v)
           in if ids = [] then tbl_remove k t else tbl_insert k (join_char CHR '','' ids) t))"

definition delete_record :: "uuid \<Rightarrow> unit db_txn" where
  "delete_record rid d =
     (case tbl_get (records d) rid of
        None \<Rightarrow> (Inl (RecordNotFound rid), d)
      | Some r \<Rightarrow>
          (Inr (), d\<lparr>records := tbl_remove rid (records d),
                     records_by_zone := unindex (key_of r) rid (records_by_zone d),
                     lb_record_health := tbl_remove rid (lb_record_health d)\<rparr>))"

definition get_zone_record_counts :: "db \<Rightarrow> (zone \<times> nat) list" where
  "get_zone_record_counts d = map (\<lambda>z. (z, length (list_records d (z_id z)))) (list_zones d)"

section \<open>Serial numbers\<close>

text \<open>\<open>today\<close> is \<^verbatim>\<open>Utc::now().format("%Y%m%d")\<close>; the sums wrap as in a release build.\<close>

definition bump_serial :: "string \<Rightarrow> u32 \<Rightarrow> u32" where
  "bump_serial today s =
     (let base = (case parse_uint (2 ^ 32) (today @ ''00'') of Some n \<Rightarrow> of_nat n | None \<Rightarrow> s + 1)
      in if s \<ge> base then s + 1 else base)"

definition increment_soa_serial :: "string \<Rightarrow> instant \<Rightarrow> uuid \<Rightarrow> unit db_txn" where
  "increment_soa_serial today now zid d =
     (case tbl_get (zones d) zid of
        None \<Rightarrow> (Inl (ZoneNotFound zid), d)
      | Some z \<Rightarrow>
          (let z' = z\<lparr>z_soa := (z_soa z)\<lparr>serial := bump_serial today (serial (z_soa z))\<rparr>,
                      z_updated_at := now\<rparr>;
               d1 = d\<lparr>zones := tbl_insert zid z' (zones d)\<rparr>
           in (Inr (), if zone_change_hook d then d1\<lparr>announced := announced d @ [z_name z]\<rparr> else d1)))"

section \<open>Replication of whole zones\<close>

definition upsert_zone :: "zone \<Rightarrow> unit db_txn" where
  "upsert_zone z d =
     (let idx = (case tbl_get (zones d) (z_id z) of
                   Some old \<Rightarrow> if z_name old \<noteq> z_name z
                               then tbl_remove (z_name old) (zone_name_index d)
                               else zone_name_index d
                 | None \<Rightarrow> zone_name_index d)
      in (Inr (), d\<lparr>zones := tbl_insert (z_id z) z (zones d),
                    zone_name_index := tbl_insert (z_name z) (z_id z) idx\<rparr>))"

definition replace_zone_records :: "uuid \<Rightarrow> dns_record list \<Rightarrow> unit db_txn" where
  "replace_zone_records zid rs d =
     (Inr (), fold insert_indexed rs (remove_entries (zone_index_entries d zid) d))"

section \<open>Names\<close>

text \<open>The zone that owns a name: the longest zone name that is a suffix of it at a label boundary.\<close>

definition zone_matches :: "string \<Rightarrow> zone \<Rightarrow> bool" where
  "zone_matches fqdn z =
     (let zn = to_lowercase (trim_end_matches CHR ''.'' (z_name z))
      in fqdn = zn \<or> ends_with fqdn (''.'' @ zn))"

fun most_specific_loop :: "string \<Rightarrow> zone option \<Rightarrow> zone list \<Rightarrow> zone option" where
  "most_specific_loop fqdn best [] = best"
| "most_specific_loop fqdn best (z # zs) =
     (if \<not> zone_matches fqdn z then most_specific_loop fqdn best zs
      else if (case best of
                 None \<Rightarrow> True
               | Some cur \<Rightarrow> length (to_lowercase (trim_end_matches CHR ''.'' (z_name z)))
                             > length (trim_end_matches CHR ''.'' (z_name cur)))
           then most_specific_loop fqdn (Some z) zs
           else most_specific_loop fqdn best zs)"

definition most_specific_zone :: "zone list \<Rightarrow> string \<Rightarrow> zone option" where
  "most_specific_zone zs fqdn =
     most_specific_loop (to_lowercase (trim_end_matches CHR ''.'' fqdn)) None zs"

definition find_zone_for_fqdn :: "db \<Rightarrow> string \<Rightarrow> zone option" where
  "find_zone_for_fqdn d fqdn = most_specific_zone (list_zones d) fqdn"

definition fqdn_exists :: "db \<Rightarrow> string \<Rightarrow> bool" where
  "fqdn_exists d name =
     (let fqdn = trim_end_matches CHR ''.'' name
      in case most_specific_zone (list_zones d) fqdn of
           None \<Rightarrow> False
         | Some z \<Rightarrow>
             (let zn = trim_end_matches CHR ''.'' (z_name z)
              in if fqdn = zn then name_exists_in_zone d (z_id z) ''@''
                 else case strip_suffix fqdn (''.'' @ zn) of
                        Some p \<Rightarrow> name_exists_in_zone d (z_id z) p
                      | None \<Rightarrow> False))"

text \<open>The wildcard fallback: the leading label of what remains is replaced by a star.\<close>

function wildcard_loop :: "db \<Rightarrow> uuid \<Rightarrow> record_type \<Rightarrow> string \<Rightarrow> dns_record list" where
  "wildcard_loop d zid rt remaining =
     (let wildcard = (case split_once CHR ''.'' remaining of
                        Some (_, rest) \<Rightarrow> ''*.'' @ rest
                      | None \<Rightarrow> ''*'');
          found = query_records d zid wildcard rt
      in if found \<noteq> [] then found
         else case split_once CHR ''.'' remaining of
                Some (_, rest) \<Rightarrow> wildcard_loop d zid rt rest
              | None \<Rightarrow> [])"
  by pat_completeness auto
termination
  by (relation "measure (\<lambda>(d, zid, rt, r). length r)") (auto dest!: split_once_SomeD)

declare wildcard_loop.simps [simp del]

definition query_fqdn :: "db \<Rightarrow> string \<Rightarrow> record_type \<Rightarrow> dns_record list" where
  "query_fqdn d name rt =
     (let fqdn = trim_end_matches CHR ''.'' name
      in case most_specific_zone (list_zones d) fqdn of
           None \<Rightarrow> []
         | Some z \<Rightarrow>
             (let zn = trim_end_matches CHR ''.'' (z_name z)
              in if fqdn = zn then query_records d (z_id z) ''@'' rt
                 else case strip_suffix fqdn (''.'' @ zn) of
                        None \<Rightarrow> []
                      | Some p \<Rightarrow>
                          (let exact = query_records d (z_id z) p rt
                           in if exact \<noteq> [] then exact else wildcard_loop d (z_id z) rt p)))"

end
