(* ===== verification/Db_Inv.thy ===== *)
theory Db_Inv
  imports Db
begin

text \<open>
  The invariants of the zone and record tables and the behaviour of the operations under them.
  \<open>zone_inv\<close>: zones are stored under their own id and the name index is exactly the inverse of
  the zones' names. \<open>rec_inv\<close>: records are stored under their own id and the index lists, for
  each zone, name and type, exactly the ids of the records with that key, each once. Every
  operation of \<^verbatim>\<open>Db\<close> keeps them under what its callers guarantee.
\<close>

named_theorems frame_simps

section \<open>Keys\<close>

lemma sep_inject:
  "c \<notin> set a \<Longrightarrow> c \<notin> set b \<Longrightarrow> a @ c # x = b @ c # y \<longleftrightarrow> a = b \<and> x = y"
proof (induction a arbitrary: b)
  case Nil
  then show ?case
    by (cases b) auto
next
  case (Cons u a)
  then show ?case
    by (cases b) auto
qed

lemma sep_inject_last:
  assumes "c \<notin> set x" "c \<notin> set y"
  shows "a @ c # x = b @ c # y \<longleftrightarrow> a = b \<and> x = y"
proof -
  have "a @ c # x = b @ c # y \<longleftrightarrow> rev x @ c # rev a = rev y @ c # rev b"
    by (metis append.assoc append_Cons append_Nil rev.simps(2) rev_append rev_rev_ident)
  also have "\<dots> \<longleftrightarrow> a = b \<and> x = y"
    using assms by (auto simp: sep_inject)
  finally show ?thesis .
qed

lemma index_key_inject:
  "is_uuid z \<Longrightarrow> is_uuid z' \<Longrightarrow> index_key z n t = index_key z' n' t' \<longleftrightarrow> z = z' \<and> n = n' \<and> t = t'"
  by (auto simp: index_key_def sep_inject is_uuid_chars sep_inject_last)

lemma index_key_zone:
  "is_uuid z \<Longrightarrow> is_uuid z' \<Longrightarrow> starts_with (index_key z' n t) (zone_prefix z) \<longleftrightarrow> z' = z"
  by (auto simp: index_key_def zone_prefix_def starts_with_iff sep_inject is_uuid_chars)

section \<open>Invariants\<close>

definition idx_ids :: "db \<Rightarrow> string \<Rightarrow> string list" where
  "idx_ids d k = (case tbl_get (records_by_zone d) k of None \<Rightarrow> [] | Some v \<Rightarrow> split_char CHR '','' v)"

definition zone_inv :: "db \<Rightarrow> bool" where
  "zone_inv d \<longleftrightarrow>
     tbl_ok (zones d) \<and> tbl_ok (zone_name_index d) \<and>
     (\<forall>zid z. tbl_get (zones d) zid = Some z \<longrightarrow>
        z_id z = zid \<and> is_uuid zid \<and> tbl_get (zone_name_index d) (z_name z) = Some zid) \<and>
     (\<forall>n zid. tbl_get (zone_name_index d) n = Some zid \<longrightarrow>
        (\<exists>z. tbl_get (zones d) zid = Some z \<and> z_name z = n))"

definition rec_inv :: "db \<Rightarrow> bool" where
  "rec_inv d \<longleftrightarrow>
     tbl_ok (records d) \<and> tbl_ok (records_by_zone d) \<and>
     (\<forall>rid r. tbl_get (records d) rid = Some r \<longrightarrow>
        r_id r = rid \<and> is_uuid rid \<and> is_uuid (r_zone_id r) \<and> rid \<in> set (idx_ids d (key_of r))) \<and>
     (\<forall>k rid. rid \<in> set (idx_ids d k) \<longrightarrow> (\<exists>r. tbl_get (records d) rid = Some r \<and> key_of r = k)) \<and>
     (\<forall>k. distinct (idx_ids d k))"

definition db_inv :: "db \<Rightarrow> bool" where
  "db_inv d \<longleftrightarrow> zone_inv d \<and> rec_inv d"

lemma zone_invD:
  assumes "zone_inv d"
  shows "tbl_ok (zones d)" and "tbl_ok (zone_name_index d)"
    and "tbl_get (zones d) zid = Some z \<Longrightarrow> z_id z = zid"
    and "tbl_get (zones d) zid = Some z \<Longrightarrow> is_uuid zid"
    and "tbl_get (zones d) zid = Some z \<Longrightarrow> tbl_get (zone_name_index d) (z_name z) = Some zid"
    and "tbl_get (zone_name_index d) n = Some zid \<Longrightarrow>
           \<exists>z. tbl_get (zones d) zid = Some z \<and> z_name z = n"
  using assms unfolding zone_inv_def by blast+

lemma rec_invD:
  assumes "rec_inv d"
  shows "tbl_ok (records d)" and "tbl_ok (records_by_zone d)"
    and "tbl_get (records d) rid = Some r \<Longrightarrow> r_id r = rid"
    and "tbl_get (records d) rid = Some r \<Longrightarrow> is_uuid rid"
    and "tbl_get (records d) rid = Some r \<Longrightarrow> is_uuid (r_zone_id r)"
    and "tbl_get (records d) rid = Some r \<Longrightarrow> rid \<in> set (idx_ids d (key_of r))"
    and "rid \<in> set (idx_ids d k) \<Longrightarrow> \<exists>r. tbl_get (records d) rid = Some r \<and> key_of r = k"
    and "distinct (idx_ids d k)"
  using assms unfolding rec_inv_def by blast+

lemma idx_ids_entry:
  "rid \<in> set (idx_ids d k) \<longleftrightarrow>
     (\<exists>v. tbl_get (records_by_zone d) k = Some v \<and> rid \<in> set (split_char CHR '','' v))"
  by (cases "tbl_get (records_by_zone d) k") (auto simp: idx_ids_def)

text \<open>The records of the database, as a set.\<close>

definition rows :: "db \<Rightarrow> dns_record set" where
  "rows d = {r. \<exists>rid. tbl_get (records d) rid = Some r}"

lemma rows_iff: "rec_inv d \<Longrightarrow> r \<in> rows d \<longleftrightarrow> tbl_get (records d) (r_id r) = Some r"
  by (auto simp: rows_def dest: rec_invD(3))

section \<open>The index after each change\<close>

lemma insert_indexed_frame [frame_simps]:
  "zones (insert_indexed r d) = zones d"
  "zone_name_index (insert_indexed r d) = zone_name_index d"
  "records (insert_indexed r d) = tbl_insert (r_id r) r (records d)"
  by (simp_all add: insert_indexed_def Let_def)

lemma insert_indexed_ids:
  assumes "is_uuid (r_id r)"
  shows "idx_ids (insert_indexed r d) k =
         (if k = key_of r then idx_ids d k @ [r_id r] else idx_ids d k)"
  using is_uuid_chars [OF assms]
  by (auto simp: insert_indexed_def idx_ids_def Let_def split_char_append split: option.splits)

lemma unindex_ids:
  "(case tbl_get (unindex k rid t) k' of None \<Rightarrow> [] | Some v \<Rightarrow> split_char CHR '','' v) =
   (let old = (case tbl_get t k' of None \<Rightarrow> [] | Some v \<Rightarrow> split_char CHR '','' v)
    in if k' = k then filter (\<lambda>s. s \<noteq> rid) old else old)"
proof -
  have "split_char CHR '','' (join_char CHR '','' (filter (\<lambda>s. s \<noteq> rid) (split_char CHR '','' v)))
        = filter (\<lambda>s. s \<noteq> rid) (split_char CHR '','' v)"
    if "filter (\<lambda>s. s \<noteq> rid) (split_char CHR '','' v) \<noteq> []" for v
    using that by (intro split_join) (auto dest: split_char_no_sep)
  then show ?thesis
    by (auto simp: unindex_def Let_def split: option.splits)
qed

lemma unindex_ok [simp]: "tbl_ok t \<Longrightarrow> tbl_ok (unindex k rid t)"
  by (auto simp: unindex_def Let_def split: option.splits)

lemma remove_entries_frame [frame_simps]:
  "zones (remove_entries es d) = zones d"
  "zone_name_index (remove_entries es d) = zone_name_index d"
  by (induction es arbitrary: d) (simp_all add: remove_entries_def)

lemma remove_entries_index:
  "tbl_get (records_by_zone (remove_entries es d)) k =
     (if k \<in> fst ` set es then None else tbl_get (records_by_zone d) k)"
  by (induction es arbitrary: d) (auto simp: remove_entries_def)

lemma remove_entries_records:
  "tbl_get (records (remove_entries es d)) rid =
     (if \<exists>e \<in> set es. rid \<in> set (snd e) then None else tbl_get (records d) rid)"
  by (induction es arbitrary: d) (auto simp: remove_entries_def redb.get_fold_rem)

lemma remove_entries_ok:
  "tbl_ok (records d) \<Longrightarrow> tbl_ok (records (remove_entries es d))"
  "tbl_ok (records_by_zone d) \<Longrightarrow> tbl_ok (records_by_zone (remove_entries es d))"
  by (induction es arbitrary: d) (simp_all add: remove_entries_def redb.ok_fold_rem)

lemma zone_index_entries_iff:
  assumes "tbl_ok (records_by_zone d)"
  shows "(k, ids) \<in> set (zone_index_entries d zid) \<longleftrightarrow>
         starts_with k (zone_prefix zid) \<and>
         (\<exists>v. tbl_get (records_by_zone d) k = Some v \<and> ids = split_char CHR '','' v)"
proof -
  have "(k, ids) \<in> set (zone_index_entries d zid) \<longleftrightarrow>
        (\<exists>v. (k, v) \<in> set (tbl_iter (records_by_zone d)) \<and> starts_with k (zone_prefix zid)
             \<and> ids = split_char CHR '','' v)"
    by (auto simp: zone_index_entries_def simp del: split_paired_Ex)
  then show ?thesis
    unfolding tbl_iter_get [OF assms] by blast
qed

lemma zone_entry_ids:
  assumes "rec_inv d" "is_uuid zid"
  shows "(\<exists>e \<in> set (zone_index_entries d zid). rid \<in> set (snd e)) \<longleftrightarrow>
         (\<exists>r. tbl_get (records d) rid = Some r \<and> r_zone_id r = zid)" (is "?L \<longleftrightarrow> ?R")
proof
  assume ?L
  then obtain k v where k: "starts_with k (zone_prefix zid)" "tbl_get (records_by_zone d) k = Some v"
    and rid: "rid \<in> set (split_char CHR '','' v)"
    using zone_index_entries_iff [OF rec_invD(2) [OF assms(1)]] by force
  then have "rid \<in> set (idx_ids d k)"
    by (simp add: idx_ids_def)
  from rec_invD(7) [OF assms(1) this] obtain r
    where r: "tbl_get (records d) rid = Some r" "key_of r = k"
    by blast
  from index_key_zone [OF assms(2) rec_invD(5) [OF assms(1) r(1)]] k(1) r(2)
  have "r_zone_id r = zid"
    by metis
  with r show ?R
    by blast
next
  assume ?R
  then obtain r where r: "tbl_get (records d) rid = Some r" "r_zone_id r = zid"
    by blast
  from rec_invD(6) [OF assms(1) r(1)] obtain v
    where v: "tbl_get (records_by_zone d) (key_of r) = Some v" "rid \<in> set (split_char CHR '','' v)"
    unfolding idx_ids_entry by blast
  moreover have "starts_with (key_of r) (zone_prefix zid)"
    using index_key_zone [OF assms(2) rec_invD(5) [OF assms(1) r(1)]] r(2) by simp
  ultimately have "(key_of r, split_char CHR '','' v) \<in> set (zone_index_entries d zid)"
    using zone_index_entries_iff [OF rec_invD(2) [OF assms(1)]] by blast
  with v(2) show ?L
    by force
qed

lemma zone_entry_keys:
  assumes "rec_inv d" "is_uuid zid" "tbl_get (records d) rid = Some r"
  shows "key_of r \<in> fst ` set (zone_index_entries d zid) \<longleftrightarrow> r_zone_id r = zid"
proof -
  obtain v where "tbl_get (records_by_zone d) (key_of r) = Some v"
    using rec_invD(6) [OF assms(1,3)] unfolding idx_ids_entry by blast
  moreover have "key_of r \<in> fst ` set (zone_index_entries d zid) \<longleftrightarrow>
                 (\<exists>ids. (key_of r, ids) \<in> set (zone_index_entries d zid))"
    by force
  ultimately show ?thesis
    unfolding zone_index_entries_iff [OF rec_invD(2) [OF assms(1)]]
      index_key_zone [OF assms(2) rec_invD(5) [OF assms(1,3)]]
    by blast
qed

section \<open>Preservation\<close>

lemma zone_inv_cong:
  "zones d' = zones d \<Longrightarrow> zone_name_index d' = zone_name_index d \<Longrightarrow> zone_inv d' \<longleftrightarrow> zone_inv d"
  by (simp add: zone_inv_def)

lemma rec_inv_cong:
  "records d' = records d \<Longrightarrow> records_by_zone d' = records_by_zone d \<Longrightarrow> rec_inv d' \<longleftrightarrow> rec_inv d"
  by (simp add: rec_inv_def idx_ids_def)

lemma db_inv_open: "db_inv db_open"
  by (simp add: db_inv_def zone_inv_def rec_inv_def idx_ids_def db_open_def)

lemma rec_inv_insert_indexed:
  assumes inv: "rec_inv d" and new: "is_uuid (r_id r)" "is_uuid (r_zone_id r)"
    and fresh: "tbl_get (records d) (r_id r) = None"
  shows "rec_inv (insert_indexed r d)"
proof -
  have unlisted: "r_id r \<notin> set (idx_ids d k)" for k
    using rec_invD(7) [OF inv] fresh by fastforce
  have "tbl_ok (records_by_zone (insert_indexed r d))"
    using rec_invD(2) [OF inv] by (simp add: insert_indexed_def Let_def)
  moreover have "rid \<in> set (idx_ids (insert_indexed r d) (key_of s))"
    if "tbl_get (records (insert_indexed r d)) rid = Some s" for rid s
    using that rec_invD(6) [OF inv, of rid s]
    by (auto simp: frame_simps insert_indexed_ids [OF new(1)] split: if_splits)
  moreover have "\<exists>s. tbl_get (records (insert_indexed r d)) rid = Some s \<and> key_of s = k"
    if "rid \<in> set (idx_ids (insert_indexed r d) k)" for rid k
    using that rec_invD(7) [OF inv] unlisted
    by (fastforce simp: frame_simps insert_indexed_ids [OF new(1)] split: if_splits)
  moreover have "distinct (idx_ids (insert_indexed r d) k)" for k
    using rec_invD(8) [OF inv] unlisted by (simp add: insert_indexed_ids [OF new(1)])
  ultimately show ?thesis
    using rec_invD(1,3,4,5) [OF inv] new
    unfolding rec_inv_def by (auto simp: frame_simps split: if_splits)
qed

lemma rec_inv_remove_zone:
  assumes inv: "rec_inv d" and zid: "is_uuid zid"
  shows "rec_inv (remove_entries (zone_index_entries d zid) d)" (is "rec_inv ?d'")
proof -
  have get: "tbl_get (records ?d') rid = Some r \<longleftrightarrow> tbl_get (records d) rid = Some r \<and> r_zone_id r \<noteq> zid"
    for rid r
    using zone_entry_ids [OF inv zid, of rid] by (auto simp: remove_entries_records)
  have ids: "idx_ids ?d' k = (if k \<in> fst ` set (zone_index_entries d zid) then [] else idx_ids d k)" for k
    by (simp add: idx_ids_def remove_entries_index)
  have "rid \<in> set (idx_ids ?d' (key_of r))" if "tbl_get (records ?d') rid = Some r" for rid r
  proof -
    from that have r: "tbl_get (records d) rid = Some r" "r_zone_id r \<noteq> zid"
      by (simp_all add: get)
    with zone_entry_keys [OF inv zid r(1)] rec_invD(6) [OF inv r(1)] show ?thesis
      by (simp add: ids)
  qed
  moreover have "\<exists>r. tbl_get (records ?d') rid = Some r \<and> key_of r = k"
    if "rid \<in> set (idx_ids ?d' k)" for rid k
  proof -
    from that have k: "k \<notin> fst ` set (zone_index_entries d zid)" "rid \<in> set (idx_ids d k)"
      by (auto simp: ids split: if_splits)
    from rec_invD(7) [OF inv k(2)] obtain r where r: "tbl_get (records d) rid = Some r" "key_of r = k"
      by blast
    with zone_entry_keys [OF inv zid r(1)] k(1) show ?thesis
      by (auto simp: get)
  qed
  moreover have "distinct (idx_ids ?d' k)" for k
    using rec_invD(8) [OF inv] by (simp add: ids)
  ultimately show ?thesis
    using rec_invD(1-5) [OF inv] remove_entries_ok
    unfolding rec_inv_def by (auto simp: get)
qed

lemma rec_inv_insert_all:
  assumes "rec_inv d" and "distinct (map r_id rs)"
    and "\<forall>r \<in> set rs. is_uuid (r_id r) \<and> is_uuid (r_zone_id r) \<and> tbl_get (records d) (r_id r) = None"
  shows "rec_inv (fold insert_indexed rs d)"
  using assms
proof (induction rs arbitrary: d)
  case (Cons r rs)
  then have "rec_inv (insert_indexed r d)"
    by (intro rec_inv_insert_indexed) auto
  moreover have "\<forall>s \<in> set rs. tbl_get (records (insert_indexed r d)) (r_id s) = None"
    using Cons.prems(2,3) by (auto simp: frame_simps image_iff)
  ultimately show ?case
    using Cons.IH Cons.prems by simp
qed simp

lemma zone_invI:
  assumes "tbl_ok (zones d)" "tbl_ok (zone_name_index d)"
    and "\<And>zid z. tbl_get (zones d) zid = Some z \<Longrightarrow>
           z_id z = zid \<and> is_uuid zid \<and> tbl_get (zone_name_index d) (z_name z) = Some zid"
    and "\<And>n zid. tbl_get (zone_name_index d) n = Some zid \<Longrightarrow>
           \<exists>z. tbl_get (zones d) zid = Some z \<and> z_name z = n"
  shows "zone_inv d"
  using assms unfolding zone_inv_def by blast

text \<open>
  Storing a zone under an index that maps its name to it, and no other name, keeps the invariant
  when no other zone has the name.
\<close>

lemma zone_inv_store:
  assumes inv: "zone_inv d" and z: "is_uuid (z_id z)"
    and idx: "tbl_ok idx"
      "\<And>n. tbl_get idx n = (case tbl_get (zones d) (z_id z) of
              Some old \<Rightarrow> if n = z_name old \<and> n \<noteq> z_name z then None else tbl_get (zone_name_index d) n
            | None \<Rightarrow> tbl_get (zone_name_index d) n)"
    and other: "\<And>zid z'. tbl_get (zones d) zid = Some z' \<Longrightarrow> z_name z' = z_name z \<Longrightarrow> zid = z_id z"
  shows "zone_inv (d\<lparr>zones := tbl_insert (z_id z) z (zones d),
                     zone_name_index := tbl_insert (z_name z) (z_id z) idx\<rparr>)"
proof (rule zone_invI)
  let ?d = "d\<lparr>zones := tbl_insert (z_id z) z (zones d),
              zone_name_index := tbl_insert (z_name z) (z_id z) idx\<rparr>"
  show "tbl_ok (zones ?d)" "tbl_ok (zone_name_index ?d)"
    using zone_invD(1,2) [OF inv] idx(1) by simp_all
  show "z_id z' = zid \<and> is_uuid zid \<and> tbl_get (zone_name_index ?d) (z_name z') = Some zid"
    if "tbl_get (zones ?d) zid = Some z'" for zid z'
  proof (cases "zid = z_id z")
    case True
    with that z show ?thesis by simp
  next
    case False
    with that have z': "tbl_get (zones d) zid = Some z'"
      by simp
    with other False have "z_name z' \<noteq> z_name z"
      by blast
    moreover have "z_name z' \<noteq> z_name old" if "tbl_get (zones d) (z_id z) = Some old" for old
      using zone_invD(5) [OF inv that] zone_invD(5) [OF inv z'] False by auto
    ultimately show ?thesis
      using zone_invD(3,4,5) [OF inv z'] by (auto simp: idx(2) split: option.splits)
  qed
  show "\<exists>z'. tbl_get (zones ?d) zid = Some z' \<and> z_name z' = n"
    if "tbl_get (zone_name_index ?d) n = Some zid" for n zid
  proof (cases "n = z_name z")
    case True
    with that show ?thesis by simp
  next
    case False
    with that have n: "tbl_get (zone_name_index d) n = Some zid"
      and old: "\<And>old. tbl_get (zones d) (z_id z) = Some old \<Longrightarrow> n \<noteq> z_name old"
      by (auto simp: idx(2) split: option.splits if_splits)
    from zone_invD(6) [OF inv n] obtain z' where z': "tbl_get (zones d) zid = Some z'" "z_name z' = n"
      by blast
    with old have "zid \<noteq> z_id z"
      by blast
    with z' show ?thesis by simp
  qed
qed

lemma create_zone_inv:
  assumes "zone_inv d" and "is_uuid (z_id z)" and "tbl_get (zones d) (z_id z) = None"
  shows "zone_inv (snd (create_zone (z_name z) z d))"
proof (cases "tbl_get (zone_name_index d) (z_name z)")
  case None
  have "zid = z_id z" if "tbl_get (zones d) zid = Some z'" "z_name z' = z_name z" for zid z'
    using zone_invD(5) [OF assms(1) that(1)] None that(2) by simp
  with assms None zone_invD(2) [OF assms(1)] show ?thesis
    by (auto simp: create_zone_def intro!: zone_inv_store)
qed (use assms in \<open>simp add: create_zone_def\<close>)

lemma upsert_zone_inv:
  assumes inv: "zone_inv d" and "is_uuid (z_id z)"
    and "\<And>zid z'. tbl_get (zones d) zid = Some z' \<Longrightarrow> z_name z' = z_name z \<Longrightarrow> zid = z_id z"
  shows "zone_inv (snd (upsert_zone z d))"
  unfolding upsert_zone_def Let_def snd_conv
proof (rule zone_inv_store [OF inv assms(2)])
  show "tbl_ok (case tbl_get (zones d) (z_id z) of None \<Rightarrow> zone_name_index d
          | Some old \<Rightarrow> if z_name old \<noteq> z_name z then tbl_remove (z_name old) (zone_name_index d)
                       else zone_name_index d)"
    using zone_invD(2) [OF inv] by (simp split: option.splits)
qed (use assms(3) in \<open>auto split: option.splits\<close>)

lemma delete_zone_zone_inv:
  assumes inv: "zone_inv d"
  shows "zone_inv (snd (delete_zone zid d))"
proof (cases "tbl_get (zones d) zid")
  case None
  with inv show ?thesis by (simp add: delete_zone_def)
next
  case (Some z)
  let ?d = "d\<lparr>zones := tbl_remove zid (zones d),
              zone_name_index := tbl_remove (z_name z) (zone_name_index d)\<rparr>"
  have "zone_inv ?d"
  proof (rule zone_invI)
    show "tbl_ok (zones ?d)" "tbl_ok (zone_name_index ?d)"
      using zone_invD(1,2) [OF inv] by simp_all
    show "z_id z' = zid' \<and> is_uuid zid' \<and> tbl_get (zone_name_index ?d) (z_name z') = Some zid'"
      if "tbl_get (zones ?d) zid' = Some z'" for zid' z'
    proof -
      from that have z': "tbl_get (zones d) zid' = Some z'" "zid' \<noteq> zid"
        by (auto split: if_splits)
      with zone_invD(5) [OF inv z'(1)] zone_invD(5) [OF inv Some] have "z_name z' \<noteq> z_name z"
        by auto
      with zone_invD(3,4,5) [OF inv z'(1)] show ?thesis
        by simp
    qed
    show "\<exists>z'. tbl_get (zones ?d) zid' = Some z' \<and> z_name z' = n"
      if "tbl_get (zone_name_index ?d) n = Some zid'" for n zid'
    proof -
      from that have n: "tbl_get (zone_name_index d) n = Some zid'" "n \<noteq> z_name z"
        by (auto split: if_splits)
      from zone_invD(6) [OF inv n(1)] Some n(2) show ?thesis
        by auto
    qed
  qed
  then have "zone_inv (remove_entries es ?d)" for es
    using zone_inv_cong [of "remove_entries es ?d" ?d] by (simp add: frame_simps)
  with Some show ?thesis
    by (simp add: delete_zone_def Let_def)
qed

lemma increment_soa_serial_zone_inv:
  assumes inv: "zone_inv d"
  shows "zone_inv (snd (increment_soa_serial today now zid d))"
proof (cases "tbl_get (zones d) zid")
  case (Some z)
  let ?z = "z\<lparr>z_soa := (z_soa z)\<lparr>serial := bump_serial today (serial (z_soa z))\<rparr>, z_updated_at := now\<rparr>"
  let ?d = "d\<lparr>zones := tbl_insert zid ?z (zones d)\<rparr>"
  have "zone_inv ?d"
    using zone_invD [OF inv] Some by (intro zone_invI) (auto split: if_splits, fastforce+)
  then have "zone_inv (?d\<lparr>announced := ns\<rparr>)" for ns
    using zone_inv_cong [of "?d\<lparr>announced := ns\<rparr>" ?d] by simp
  with Some \<open>zone_inv ?d\<close> show ?thesis
    by (simp add: increment_soa_serial_def Let_def)
qed (use inv in \<open>simp add: increment_soa_serial_def\<close>)

end
