(* ===== verification/Db_Names.thy ===== *)
theory Db_Names
  imports Db_Spec
begin

text \<open>
  Which zone owns a name and which records answer for it: \<open>most_specific_zone\<close> is the longest
  matching suffix, and the string-scanning wildcard loop of \<open>query_fqdn\<close> is the search through
  the label suffixes of the queried name.
\<close>

section \<open>The owning zone\<close>

abbreviation zone_len :: "zone \<Rightarrow> nat" where
  "zone_len z \<equiv> length (trim_end_matches CHR ''.'' (z_name z))"

lemma most_specific_loop_Some:
  assumes "most_specific_loop f best zs = Some z"
  shows "(z \<in> set zs \<and> zone_matches f z \<or> best = Some z)
       \<and> (\<forall>z' \<in> set zs. zone_matches f z' \<longrightarrow> zone_len z' \<le> zone_len z)
       \<and> (\<forall>b. best = Some b \<longrightarrow> zone_len b \<le> zone_len z)"
  using assms
proof (induction zs arbitrary: best)
  case (Cons y zs)
  show ?case
  proof (cases "zone_matches f y \<and> (case best of None \<Rightarrow> True | Some cur \<Rightarrow> zone_len cur < zone_len y)")
    case True
    with Cons.prems have "most_specific_loop f (Some y) zs = Some z"
      by (auto split: option.splits)
    from Cons.IH [OF this] True show ?thesis
      by (auto split: option.splits)
  next
    case False
    with Cons.prems have "most_specific_loop f best zs = Some z"
      by (auto split: option.splits if_splits)
    from Cons.IH [OF this] False show ?thesis
      by (auto split: option.splits)
  qed
qed simp

lemma most_specific_loop_None:
  "most_specific_loop f best zs = None \<longleftrightarrow> best = None \<and> (\<forall>z \<in> set zs. \<not> zone_matches f z)"
  by (induction zs arbitrary: best) (auto split: option.splits)

section \<open>The wildcard search by labels\<close>

fun wildcard_owners :: "string list \<Rightarrow> string list" where
  "wildcard_owners [] = []"
| "wildcard_owners (l # ls) = join_char CHR ''.'' (''*'' # ls) # wildcard_owners ls"

fun first_hit :: "('a \<Rightarrow> 'b list) \<Rightarrow> 'a list \<Rightarrow> 'b list" where
  "first_hit f [] = []"
| "first_hit f (n # ns) = (if f n \<noteq> [] then f n else first_hit f ns)"

lemma split_char_once:
  "split_char c s = (case split_once c s of None \<Rightarrow> [s] | Some (a, b) \<Rightarrow> a # split_char c b)"
proof (cases "split_once c s")
  case None
  moreover from this have "c \<notin> set s"
    by (simp add: split_once_None)
  ultimately show ?thesis
    by simp
next
  case (Some ab)
  obtain a b where "ab = (a, b)"
    by (cases ab)
  with Some show ?thesis
    by (auto dest: split_once_SomeD simp: split_char_sep)
qed

lemma wildcard_loop_labels:
  "wildcard_loop d zid rt p =
     first_hit (\<lambda>n. query_records d zid n rt) (wildcard_owners (split_char CHR ''.'' p))"
proof (induction d zid rt p rule: wildcard_loop.induct)
  case (1 d zid rt p)
  show ?case
  proof (cases "split_once CHR ''.'' p")
    case None
    then show ?thesis
      by (subst wildcard_loop.simps) (simp add: split_char_once [of _ p] Let_def)
  next
    case (Some ab)
    obtain a b where ab: "ab = (a, b)"
      by (cases ab)
    obtain w ws where w: "split_char CHR ''.'' b = w # ws"
      by (cases "split_char CHR ''.'' b") auto
    have "join_char CHR ''.'' (''*'' # split_char CHR ''.'' b) = ''*.'' @ b"
      using join_split [of "CHR ''.''" b] by (simp add: w)
    with Some ab "1.IH" [OF refl refl _ Some ab [symmetric]] show ?thesis
      by (subst wildcard_loop.simps) (simp add: split_char_once [of _ p] Let_def)
  qed
qed

lemma first_hit_mem:
  "r \<in> set (first_hit f ns) \<longleftrightarrow>
     (\<exists>as n bs. ns = as @ n # bs \<and> r \<in> set (f n) \<and> (\<forall>m \<in> set as. f m = []))"
  (is "_ \<longleftrightarrow> ?R ns")
proof (induction ns)
  case (Cons n ns)
  have "?R (n # ns) \<longleftrightarrow> r \<in> set (f n) \<or> f n = [] \<and> ?R ns"
  proof
    assume "?R (n # ns)"
    then obtain as m bs where "n # ns = as @ m # bs" "r \<in> set (f m)" "\<forall>m \<in> set as. f m = []"
      by blast
    then show "r \<in> set (f n) \<or> f n = [] \<and> ?R ns"
      by (cases as) auto
  next
    assume "r \<in> set (f n) \<or> f n = [] \<and> ?R ns"
    then show "?R (n # ns)"
    proof
      assume "r \<in> set (f n)"
      then show ?thesis
        by (intro exI [of _ "[]"]) auto
    next
      assume "f n = [] \<and> ?R ns"
      then obtain as m bs where "f n = []" "ns = as @ m # bs" "r \<in> set (f m)" "\<forall>m \<in> set as. f m = []"
        by blast
      then show ?thesis
        by (intro exI [of _ "n # as"]) auto
    qed
  qed
  with Cons show ?case
    by auto
qed simp

lemma query_fqdn_owner:
  assumes "find_zone_for_fqdn d (trim_end_matches CHR ''.'' name) = Some z"
    and "trim_end_matches CHR ''.'' name = p @ ''.'' @ trim_end_matches CHR ''.'' (z_name z)"
  shows "query_fqdn d name rt =
         first_hit (\<lambda>n. query_records d (z_id z) n rt) (p # wildcard_owners (split_char CHR ''.'' p))"
proof -
  have "strip_suffix (trim_end_matches CHR ''.'' name) (''.'' @ trim_end_matches CHR ''.'' (z_name z)) = Some p"
    using assms(2) by (simp add: strip_suffix_Some)
  moreover have "trim_end_matches CHR ''.'' name \<noteq> trim_end_matches CHR ''.'' (z_name z)"
    using assms(2) by simp
  ultimately show ?thesis
    using assms(1) by (simp add: query_fqdn_def find_zone_for_fqdn_def Let_def wildcard_loop_labels)
qed

end
