(* ===== verification/Db_Run.thy ===== *)
theory Db_Run
  imports Db_Names
begin

text \<open>
  The database as a transition system over its writing operations, with the facts about whole
  runs that the properties of the zone and record layer rest on.
\<close>

section \<open>Runs of the database\<close>

text \<open>
  One rule per writing operation, with what its callers provide: zones and records arrive with
  fresh UUIDs, a zone is stored under its own name, an update keeps the zone, name and type of the
  record, an upserted zone does not take the name of another one. Operations on the other tables
  leave these four as they are.
\<close>

inductive db_step :: "db \<Rightarrow> db \<Rightarrow> bool" where
  zone_created: "is_uuid (z_id z) \<Longrightarrow> get_zone d (z_id z) = None \<Longrightarrow>
    db_step d (snd (create_zone (z_name z) z d))"
| zone_upserted: "is_uuid (z_id z) \<Longrightarrow>
    (\<And>z'. get_zone_by_name d (z_name z) = Some z' \<Longrightarrow> z_id z' = z_id z) \<Longrightarrow>
    db_step d (snd (upsert_zone z d))"
| zone_deleted: "db_step d (snd (delete_zone zid d))"
| zone_emptied: "is_uuid zid \<Longrightarrow> db_step d (snd (delete_zone_records zid d))"
| zone_replaced: "is_uuid zid \<Longrightarrow> distinct (map r_id rs) \<Longrightarrow>
    (\<And>r. r \<in> set rs \<Longrightarrow> is_uuid (r_id r) \<and> r_zone_id r = zid) \<Longrightarrow>
    (\<And>r old. r \<in> set rs \<Longrightarrow> get_record d (r_id r) = Some old \<Longrightarrow> r_zone_id old = zid) \<Longrightarrow>
    db_step d (snd (replace_zone_records zid rs d))"
| serial_bumped: "db_step d (snd (increment_soa_serial today now zid d))"
| record_created: "is_uuid (r_id r) \<Longrightarrow> is_uuid (r_zone_id r) \<Longrightarrow> get_record d (r_id r) = None \<Longrightarrow>
    db_step d (snd (create_record r d))"
| record_updated: "(\<And>old. get_record d (r_id r) = Some old \<Longrightarrow>
      r_zone_id r = r_zone_id old \<and> r_name r = r_name old \<and> rd_type (r_data r) = rd_type (r_data old)) \<Longrightarrow>
    db_step d (snd (update_record r d))"
| record_deleted: "db_step d (snd (delete_record rid d))"
| other_table: "zones d' = zones d \<Longrightarrow> zone_name_index d' = zone_name_index d \<Longrightarrow>
    records d' = records d \<Longrightarrow> records_by_zone d' = records_by_zone d \<Longrightarrow> db_step d d'"

inductive db_reachable :: "db \<Rightarrow> bool" where
  fresh: "db_reachable db_open"
| next_step: "db_reachable d \<Longrightarrow> db_step d d' \<Longrightarrow> db_reachable d'"

section \<open>Supporting facts\<close>

lemma zone_ops_rec_frame [frame_simps]:
  "records (snd (create_zone n z d)) = records d"
  "records_by_zone (snd (create_zone n z d)) = records_by_zone d"
  "records (snd (upsert_zone z d)) = records d"
  "records_by_zone (snd (upsert_zone z d)) = records_by_zone d"
  "records (snd (increment_soa_serial today now zid d)) = records d"
  "records_by_zone (snd (increment_soa_serial today now zid d)) = records_by_zone d"
  by (simp_all add: create_zone_def upsert_zone_def increment_soa_serial_def Let_def split: option.splits)

lemma fold_insert_indexed_frame [frame_simps]:
  "zones (fold insert_indexed rs d) = zones d"
  "zone_name_index (fold insert_indexed rs d) = zone_name_index d"
  by (induction rs arbitrary: d) (simp_all add: frame_simps)

lemma record_ops_zone_frame [frame_simps]:
  "zones (snd (create_record r d)) = zones d"
  "zone_name_index (snd (create_record r d)) = zone_name_index d"
  "zones (snd (update_record r d)) = zones d"
  "zone_name_index (snd (update_record r d)) = zone_name_index d"
  "zones (snd (delete_record rid d)) = zones d"
  "zone_name_index (snd (delete_record rid d)) = zone_name_index d"
  "zones (snd (delete_zone_records zid d)) = zones d"
  "zone_name_index (snd (delete_zone_records zid d)) = zone_name_index d"
  "zones (snd (replace_zone_records zid rs d)) = zones d"
  "zone_name_index (snd (replace_zone_records zid rs d)) = zone_name_index d"
  by (simp_all add: create_record_def update_record_def delete_record_def delete_zone_records_def
      replace_zone_records_def frame_simps Let_def split: option.splits)

lemma rec_op_inv:
  "zone_inv d \<Longrightarrow> rec_inv d' \<Longrightarrow> zones d' = zones d \<Longrightarrow> zone_name_index d' = zone_name_index d \<Longrightarrow> db_inv d'"
  using zone_inv_cong [of d' d] by (simp add: db_inv_def)

lemma zone_op_inv:
  "rec_inv d \<Longrightarrow> zone_inv d' \<Longrightarrow> records d' = records d \<Longrightarrow> records_by_zone d' = records_by_zone d \<Longrightarrow> db_inv d'"
  using rec_inv_cong [of d' d] by (simp add: db_inv_def)

lemma upsert_name_unique:
  assumes "zone_inv d" "\<And>z'. get_zone_by_name d n = Some z' \<Longrightarrow> z_id z' = i"
    and "tbl_get (zones d) zid = Some z'" "z_name z' = n"
  shows "zid = i"
  using assms zone_invD(3,5) [OF assms(1,3)] by (auto simp: get_zone_by_name_def)

lemma db_step_inv: "db_step d d' \<Longrightarrow> db_inv d \<Longrightarrow> db_inv d'"
proof (induction rule: db_step.induct)
  case (zone_created z d)
  then show ?case
    by (intro zone_op_inv [of d] create_zone_inv) (auto simp: db_inv_def get_zone_def frame_simps)
next
  case (zone_upserted z d)
  then show ?case
    by (intro zone_op_inv [of d] upsert_zone_inv)
       (auto simp: db_inv_def frame_simps intro: upsert_name_unique)
next
  case (zone_deleted d zid)
  then show ?case
    using delete_zone_rec_inv delete_zone_zone_inv by (simp add: db_inv_def)
next
  case (zone_emptied zid d)
  then show ?case
    by (intro rec_op_inv [of d] delete_zone_records_inv) (auto simp: db_inv_def frame_simps)
next
  case (zone_replaced zid rs d)
  then show ?case
    by (intro rec_op_inv [of d] replace_zone_records_inv)
       (auto simp: db_inv_def frame_simps get_record_def)
next
  case (serial_bumped d today now zid)
  then show ?case
    by (intro zone_op_inv [of d] increment_soa_serial_zone_inv) (auto simp: db_inv_def frame_simps)
next
  case (record_created r d)
  then show ?case
    by (intro rec_op_inv [of d] create_record_inv) (auto simp: db_inv_def frame_simps get_record_def)
next
  case (record_updated d r)
  then show ?case
    by (intro rec_op_inv [of d] update_record_inv)
       (auto simp: db_inv_def frame_simps get_record_def dest: rec_invD(5))
next
  case (record_deleted d rid)
  then show ?case
    by (intro rec_op_inv [of d] delete_record_inv) (auto simp: db_inv_def frame_simps)
next
  case (other_table d' d)
  then show ?case
    using zone_inv_cong [of d' d] rec_inv_cong [of d' d] by (simp add: db_inv_def)
qed

lemma rows_of_Cons:
  "rows_of d (i # ids) = (case tbl_get (records d) i of None \<Rightarrow> rows_of d ids | Some r \<Rightarrow> r # rows_of d ids)"
  by (simp add: rows_of_def List.map_filter_def split: option.splits)

lemma rows_of_distinct:
  assumes "rec_inv d" "distinct ids"
  shows "distinct (rows_of d ids)"
proof -
  have "distinct (map r_id (rows_of d ids)) \<and> r_id ` set (rows_of d ids) \<subseteq> set ids"
    using assms(2)
  proof (induction ids)
    case (Cons i ids)
    then show ?case
      using rec_invD(3) [OF assms(1), of i]
      by (cases "tbl_get (records d) i") (auto simp: rows_of_Cons)
  qed (simp add: rows_of_def List.map_filter_def)
  then show ?thesis
    by (simp add: distinct_map)
qed

lemma rows_remove_zone:
  assumes "rec_inv d" "is_uuid zid"
  shows "rows (remove_entries (zone_index_entries d zid) d) = {r \<in> rows d. r_zone_id r \<noteq> zid}"
proof -
  have "tbl_get (records (remove_entries (zone_index_entries d zid) d)) rid = Some r \<longleftrightarrow>
      tbl_get (records d) rid = Some r \<and> r_zone_id r \<noteq> zid" for rid r
    using zone_entry_ids [OF assms, of rid] by (auto simp: remove_entries_records)
  then show ?thesis
    by (auto simp: rows_def)
qed

lemma rows_insert_all:
  assumes "rec_inv d" "distinct (map r_id rs)" "\<forall>r \<in> set rs. tbl_get (records d) (r_id r) = None"
  shows "rows (fold insert_indexed rs d) = rows d \<union> set rs"
  using assms(2,3)
proof (induction rs rule: rev_induct)
  case (snoc r rs)
  have "tbl_get (records (fold insert_indexed rs d)) k = None"
    if "tbl_get (records d) k = None" "k \<notin> r_id ` set rs" for k
    using that by (induction rs rule: rev_induct) (auto simp: frame_simps)
  with snoc.prems have "tbl_get (records (fold insert_indexed rs d)) (r_id r) = None"
    by simp
  then have "rows (insert_indexed r (fold insert_indexed rs d)) = insert r (rows (fold insert_indexed rs d))"
    by (auto simp: rows_def frame_simps) (metis option.distinct(1))
  with snoc show ?case
    by simp
qed simp

lemma reachable_db_inv: "db_reachable d \<Longrightarrow> db_inv d"
  by (induction rule: db_reachable.induct) (auto intro: db_inv_open db_step_inv)

lemmas reachable_rec_inv = reachable_db_inv [unfolded db_inv_def, THEN conjunct2]
lemmas reachable_zone_inv = reachable_db_inv [unfolded db_inv_def, THEN conjunct1]

section \<open>A small database\<close>

text \<open>
  One zone with a host and a wildcard below a label, built by the operations themselves; the
  instances of the properties below are taken at it.
\<close>

definition ex_zid :: uuid where "ex_zid = ''11111111-1111-1111-1111-111111111111''"
definition ex_rid1 :: uuid where "ex_rid1 = ''aaaaaaaa-aaaa-aaaa-aaaa-aaaaaaaaaaaa''"
definition ex_rid2 :: uuid where "ex_rid2 = ''bbbbbbbb-bbbb-bbbb-bbbb-bbbbbbbbbbbb''"

definition ex_zone :: zone where
  "ex_zone = \<lparr>z_id = ex_zid, z_name = ''g10.lo'',
     z_soa = \<lparr>mname = ''ns1.g10.lo'', rname = ''admin.g10.lo'', serial = 2024010105, refresh = 3600,
               retry = 900, expire = 604800, minimum = 300\<rparr>,
     z_default_ttl = 300, z_created_at = 0, z_updated_at = 0\<rparr>"

definition ex_www :: dns_record where
  "ex_www = \<lparr>r_id = ex_rid1, r_zone_id = ex_zid, r_name = ''www'', r_ttl = 300,
     r_data = RD_A 0x0A000001, r_enabled = True, r_health_check = None, r_source = Manual,
     r_origin = None, r_created_at = 0, r_updated_at = 0\<rparr>"

definition ex_star :: dns_record where
  "ex_star = ex_www\<lparr>r_id := ex_rid2, r_name := ''*.apps'', r_data := RD_A 0x0A000002\<rparr>"

definition ex_db1 :: db where "ex_db1 = snd (create_zone (z_name ex_zone) ex_zone db_open)"
definition ex_db2 :: db where "ex_db2 = snd (create_record ex_www ex_db1)"
definition ex_db :: db where "ex_db = snd (create_record ex_star ex_db2)"

lemmas ex_defs = ex_zid_def ex_rid1_def ex_rid2_def ex_zone_def ex_www_def ex_star_def
  ex_db1_def ex_db2_def ex_db_def

lemma ex_uuids: "is_uuid ex_zid" "is_uuid ex_rid1" "is_uuid ex_rid2"
  by code_simp+

lemma ex_db_gets:
  "get_zone db_open ex_zid = None" "get_record ex_db1 ex_rid1 = None"
  "get_record ex_db2 ex_rid2 = None" "get_zone ex_db ex_zid = Some ex_zone"
  "get_record ex_db ex_rid1 = Some ex_www" "get_record ex_db ex_rid2 = Some ex_star"
  by code_simp+

lemma ex_db_reachable: "db_reachable ex_db"
proof -
  have "db_reachable ex_db1"
    unfolding ex_db1_def
    by (rule next_step [OF fresh zone_created]) (simp_all add: ex_zone_def ex_uuids ex_db_gets)
  then have "db_reachable ex_db2"
    unfolding ex_db2_def
    by (rule next_step [OF _ record_created]) (simp_all add: ex_www_def ex_uuids ex_db_gets)
  then show ?thesis
    unfolding ex_db_def
    by (rule next_step [OF _ record_created]) (simp_all add: ex_star_def ex_www_def ex_uuids ex_db_gets)
qed

lemma ex_rows: "rows ex_db = {ex_www, ex_star}"
proof -
  have "records ex_db = [(ex_rid1, ex_www), (ex_rid2, ex_star)]"
    by code_simp
  moreover have "ex_rid1 \<noteq> ex_rid2"
    by code_simp
  ultimately show ?thesis
    by (auto simp: rows_def tbl_get_def)
qed

lemma ex_names: "r_name ex_www = ''www''" "r_name ex_star = ''*.apps''"
  by (simp_all add: ex_www_def ex_star_def)

end
