(* ===== verification/Db_Props.thy ===== *)
theory Db_Props
  imports Db_Run
begin

text \<open>
  The properties of the zone and record layer of the database: the invariant of every reachable
  database, exactness of the lookups, the effect of the bulk operations, ownership of names,
  wildcard resolution and serial numbers.
\<close>

section \<open>Integrity and lookups\<close>





text \<open>
  The range scan that decides whether a name exists finds a record if and only if the zone has
  one with that name, of whatever type, enabled or not; a shorter or longer name never matches.
\<close>

theorem name_exists_exact:
  assumes "db_reachable d" "is_uuid zid"
    and "\<forall>r \<in> rows d. CHR '':'' \<notin> set (r_name r)" "CHR '':'' \<notin> set n"
  shows "name_exists_in_zone d zid n \<longleftrightarrow> (\<exists>r \<in> rows d. r_zone_id r = zid \<and> r_name r = n)"
  using name_exists_iff [OF reachable_rec_inv [OF assms(1)] assms(2-4)] .

theorem name_exists_exact_witness:
  "db_reachable ex_db \<and> is_uuid ex_zid \<and>
   name_exists_in_zone ex_db ex_zid ''www'' \<and> \<not> name_exists_in_zone ex_db ex_zid ''ww''"
proof -
  have plain: "\<forall>r \<in> rows ex_db. CHR '':'' \<notin> set (r_name r)"
    by (simp add: ex_rows ex_names)
  have "ex_www \<in> rows ex_db" "r_zone_id ex_www = ex_zid"
    by (simp_all add: ex_rows ex_www_def)
  then have "name_exists_in_zone ex_db ex_zid ''www''"
    using name_exists_exact [OF ex_db_reachable ex_uuids(1) plain, of "''www''"] ex_names(1) by auto
  moreover have "\<not> name_exists_in_zone ex_db ex_zid ''ww''"
    using name_exists_exact [OF ex_db_reachable ex_uuids(1) plain, of "''ww''"]
    by (simp add: ex_rows ex_names)
  ultimately show ?thesis
    using ex_db_reachable ex_uuids(1) by blast
qed

text \<open>
  C5. Creating a record adds exactly that record, deleting it removes exactly that record together
  with its persisted health, and deleting an unknown id is reported and changes nothing.
\<close>

theorem record_lifecycle:
  assumes "db_reachable d" "is_uuid (r_id r)" "is_uuid (r_zone_id r)" "get_record d (r_id r) = None"
  shows "fst (delete_record (r_id r) d) = Inl (RecordNotFound (r_id r)) \<and> snd (delete_record (r_id r) d) = d \<and>
         (let d1 = snd (create_record r d); (res, d2) = delete_record (r_id r) d1
          in rows d1 = insert r (rows d) \<and> get_record d1 (r_id r) = Some r \<and>
             res = Inr () \<and> rows d2 = rows d \<and> tbl_get (lb_record_health d2) (r_id r) = None \<and>
             (\<forall>zid n t. is_uuid zid \<longrightarrow> set (query_records d2 zid n t) = set (query_records d zid n t)))"
proof -
  note inv = reachable_rec_inv [OF assms(1)]
  let ?d1 = "snd (create_record r d)"
  let ?d2 = "snd (delete_record (r_id r) ?d1)"
  have get1: "tbl_get (records ?d1) k = (if k = r_id r then Some r else tbl_get (records d) k)" for k
    by (simp add: create_record_def frame_simps)
  have get2: "tbl_get (records ?d2) k = (if k = r_id r then None else tbl_get (records d) k)" for k
    using get1 by (simp add: delete_record_def)
  have "rows ?d2 = rows d"
    using assms(4) by (auto simp: rows_def get2 get_record_def) (metis option.distinct(1))
  moreover have "rows ?d1 = insert r (rows d)"
    using assms(4) by (auto simp: rows_def get1 get_record_def) (metis option.distinct(1))
  moreover have "rec_inv ?d2"
    using assms inv by (intro delete_record_inv create_record_inv) (simp_all add: get_record_def)
  ultimately have "set (query_records ?d2 zid n t) = set (query_records d zid n t)" if "is_uuid zid" for zid n t
    using that inv by (auto simp: query_records_iff)
  then show ?thesis
    using \<open>rows ?d2 = rows d\<close> \<open>rows ?d1 = insert r (rows d)\<close> assms(4) get1 [of "r_id r"]
    by (simp add: Let_def split_beta get_record_def) (simp add: delete_record_def)
qed

theorem record_lifecycle_witness:
  "db_reachable ex_db \<and>
   rows (snd (create_record (ex_www\<lparr>r_id := ex_zid\<rparr>) ex_db)) = insert (ex_www\<lparr>r_id := ex_zid\<rparr>) (rows ex_db)"
proof -
  have "get_record ex_db ex_zid = None"
    by code_simp
  then show ?thesis
    using record_lifecycle [OF ex_db_reachable, of "ex_www\<lparr>r_id := ex_zid\<rparr>"] ex_uuids ex_db_reachable
    by (simp add: ex_www_def Let_def split_beta)
qed

section \<open>Bulk operations\<close>

lemma query_records_listed:
  "r \<in> set (query_records d zid n t) \<longleftrightarrow>
     r_enabled r \<and> (\<exists>rid \<in> set (idx_ids d (index_key zid n t)). tbl_get (records d) rid = Some r)"
  by (cases "tbl_get (records_by_zone d) (index_key zid n t)")
     (auto simp: query_records_def idx_ids_def set_rows_of)

lemma no_entries_without_rows:
  assumes "rec_inv d" "is_uuid zid" "\<forall>r \<in> rows d. r_zone_id r \<noteq> zid"
  shows "zone_index_entries d zid = []"
proof (rule ccontr)
  assume "zone_index_entries d zid \<noteq> []"
  then obtain k ids where e: "(k, ids) \<in> set (zone_index_entries d zid)"
    by (metis list.set_intros(1) neq_Nil_conv surj_pair)
  then obtain v where "ids = split_char CHR '','' v"
    using zone_index_entries_iff [OF rec_invD(2) [OF assms(1)]] by blast
  then obtain rid where "rid \<in> set ids"
    by (metis split_char_nonempty list.set_intros(1) neq_Nil_conv)
  with e zone_entry_ids [OF assms(1,2), of rid] assms(3) show False
    by (force simp: rows_def)
qed

text \<open>
  Deleting a zone removes the zone, its name and exactly its own records, and leaves every
  other zone, name and record as it was.
\<close>

theorem delete_zone_effect:
  assumes "db_reachable d" "get_zone d zid = Some z"
  shows "let (res, d') = delete_zone zid d
         in res = Inr () \<and> rows d' = {r \<in> rows d. r_zone_id r \<noteq> zid} \<and>
            (\<forall>k. get_zone d' k = (if k = zid then None else get_zone d k)) \<and>
            (\<forall>n. get_zone_by_name d' n = (if n = z_name z then None else get_zone_by_name d n)) \<and>
            zone_index_entries d' zid = []"
proof -
  note inv = reachable_db_inv [OF assms(1)]
  note zinv = reachable_zone_inv [OF assms(1)]
  have z: "tbl_get (zones d) zid = Some z"
    using assms(2) by (simp add: get_zone_def)
  let ?d = "d\<lparr>zones := tbl_remove zid (zones d), zone_name_index := tbl_remove (z_name z) (zone_name_index d)\<rparr>"
  let ?d' = "remove_entries (zone_index_entries ?d zid) ?d"
  have step: "delete_zone zid d = (Inr (), ?d')"
    using z by (simp add: delete_zone_def Let_def)
  have zid: "is_uuid zid" and rinv: "rec_inv ?d" and rinv': "rec_inv ?d'"
    using inv z rec_inv_cong [of ?d d] delete_zone_rec_inv [OF inv, of zid] step
    by (auto simp: db_inv_def dest: zone_invD(4))
  have rows: "rows ?d' = {r \<in> rows d. r_zone_id r \<noteq> zid}"
    unfolding rows_remove_zone [OF rinv zid] by (simp add: rows_def)
  have "zone_index_entries ?d' zid = []"
    using no_entries_without_rows [OF rinv' zid] rows by blast
  moreover have "get_zone_by_name ?d' n = (if n = z_name z then None else get_zone_by_name d n)" for n
    using zone_invD(6) [OF zinv, of n zid] z
    by (auto simp: get_zone_by_name_def frame_simps split: option.splits)
  ultimately show ?thesis
    using rows by (simp add: step frame_simps get_zone_def)
qed

theorem delete_zone_effect_witness:
  "db_reachable ex_db \<and> get_zone ex_db ex_zid = Some ex_zone \<and> rows ex_db \<noteq> {} \<and>
   rows (snd (delete_zone ex_zid ex_db)) = {}"
  using delete_zone_effect [OF ex_db_reachable ex_db_gets(4)] ex_db_reachable
  by (auto simp: ex_db_gets split_beta Let_def ex_rows) (auto simp: ex_www_def ex_star_def)

text \<open>
  Replacing the records of a zone, as a replica or an imported zone file does, leaves exactly
  the given records in that zone and does not touch the records of any other.
\<close>

theorem replace_zone_records_effect:
  assumes "db_reachable d" "is_uuid zid" "distinct (map r_id rs)"
    and "\<forall>r \<in> set rs. r_zone_id r = zid \<and> (\<forall>old. get_record d (r_id r) = Some old \<longrightarrow> r_zone_id old = zid)"
  shows "rows (snd (replace_zone_records zid rs d)) = {r \<in> rows d. r_zone_id r \<noteq> zid} \<union> set rs"
proof -
  note inv = reachable_rec_inv [OF assms(1)]
  let ?d = "remove_entries (zone_index_entries d zid) d"
  have inv': "rec_inv ?d"
    by (rule rec_inv_remove_zone [OF inv assms(2)])
  have "tbl_get (records ?d) (r_id r) = None" if "r \<in> set rs" for r
    using that assms(4) zone_entry_ids [OF inv assms(2), of "r_id r"]
    by (cases "tbl_get (records d) (r_id r)") (auto simp: remove_entries_records get_record_def)
  then show ?thesis
    using rows_insert_all [OF inv' assms(3)] rows_remove_zone [OF inv assms(2)]
    by (simp add: replace_zone_records_def)
qed

theorem replace_zone_records_effect_witness:
  "db_reachable ex_db \<and> is_uuid ex_zid \<and>
   rows (snd (replace_zone_records ex_zid [ex_www\<lparr>r_ttl := 60\<rparr>] ex_db)) = {ex_www\<lparr>r_ttl := 60\<rparr>}"
proof -
  have "r_id ex_www = ex_rid1" "r_zone_id ex_www = ex_zid" "r_zone_id ex_star = ex_zid"
    by (simp_all add: ex_www_def ex_star_def)
  then show ?thesis
    using replace_zone_records_effect [OF ex_db_reachable ex_uuids(1), of "[ex_www\<lparr>r_ttl := 60\<rparr>]"]
      ex_db_reachable ex_uuids(1)
    by (auto simp: ex_db_gets ex_rows)
qed

text \<open>
  C4. Updating a record to another name stores the new row but leaves the record listed under the
  old name: lookups under the old name return a record that no longer has it, and lookups under
  the new name do not find it.
\<close>

theorem update_record_stale:
  assumes "db_reachable d" "get_record d (r_id r) = Some old" "r_enabled r"
    and "r_zone_id r = r_zone_id old" "r_name r \<noteq> r_name old"
  shows "let (res, d') = update_record r d
         in res = Inr () \<and> get_record d' (r_id r) = Some r \<and>
            r \<in> set (query_records d' (r_zone_id old) (r_name old) (rd_type (r_data old))) \<and>
            (\<forall>t. r \<notin> set (query_records d' (r_zone_id r) (r_name r) t))"
proof -
  note inv = reachable_rec_inv [OF assms(1)]
  have old: "tbl_get (records d) (r_id r) = Some old"
    using assms(2) by (simp add: get_record_def)
  let ?d = "d\<lparr>records := tbl_insert (r_id r) r (records d)\<rparr>"
  have ids: "idx_ids ?d k = idx_ids d k" for k
    by (simp add: idx_ids_def)
  have hit: "r \<in> set (query_records ?d zid n t) \<longleftrightarrow>
      (\<exists>rid \<in> set (idx_ids d (index_key zid n t)). tbl_get (records ?d) rid = Some r)" for zid n t
    using assms(3) unfolding query_records_listed ids by blast
  have "r \<in> set (query_records ?d (r_zone_id old) (r_name old) (rd_type (r_data old)))"
    using rec_invD(6) [OF inv old] by (auto simp: hit)
  moreover have "r \<notin> set (query_records ?d (r_zone_id r) (r_name r) t)" for t
  proof
    assume "r \<in> set (query_records ?d (r_zone_id r) (r_name r) t)"
    then obtain rid where rid: "rid \<in> set (idx_ids d (index_key (r_zone_id r) (r_name r) t))"
      "tbl_get (records ?d) rid = Some r"
      by (auto simp: hit)
    then have "rid = r_id r"
      using rec_invD(3) [OF inv, of rid r] by (auto split: if_splits)
    with rec_invD(7) [OF inv rid(1)] old assms(4,5) show False
      using index_key_inject [OF rec_invD(5) [OF inv old] rec_invD(5) [OF inv old]] by auto
  qed
  ultimately show ?thesis
    using old by (simp add: update_record_def get_record_def)
qed

theorem update_record_stale_witness:
  "db_reachable ex_db \<and> get_record ex_db ex_rid1 = Some ex_www \<and>
   ex_www\<lparr>r_name := ''web''\<rparr> \<in>
     set (query_records (snd (update_record (ex_www\<lparr>r_name := ''web''\<rparr>) ex_db)) ex_zid ''www'' RT_A)"
  using update_record_stale [OF ex_db_reachable, of "ex_www\<lparr>r_name := ''web''\<rparr>" ex_www]
    ex_db_reachable ex_db_gets(5)
  by (simp add: ex_www_def split_beta Let_def)

section \<open>Names\<close>




text \<open>
  C7. The test that separates an empty answer from a missing name looks at the exact name only: a
  name answered by a wildcard alone is reported as not existing, so asking it for another type is
  answered as if the name did not exist.
\<close>

theorem fqdn_exists_ignores_wildcards:
  assumes "db_reachable d" "find_zone_for_fqdn d (trim_end_matches CHR ''.'' name) = Some z"
    and "trim_end_matches CHR ''.'' name = p @ ''.'' @ trim_end_matches CHR ''.'' (z_name z)"
    and "\<forall>r \<in> rows d. CHR '':'' \<notin> set (r_name r)" "CHR '':'' \<notin> set p"
  shows "fqdn_exists d name \<longleftrightarrow> (\<exists>r \<in> rows d. r_zone_id r = z_id z \<and> r_name r = p)"
proof -
  have "z \<in> set (list_zones d)"
    using most_specific_loop_Some [OF assms(2) [unfolded find_zone_for_fqdn_def most_specific_zone_def]] by simp
  then have "is_uuid (z_id z)"
    using zone_invD(1,3,4) [OF reachable_zone_inv [OF assms(1)]]
    by (auto simp: list_zones_def tbl_values_iff)
  note ex = name_exists_iff [OF reachable_rec_inv [OF assms(1)] this assms(4,5)]
  have "strip_suffix (trim_end_matches CHR ''.'' name) (''.'' @ trim_end_matches CHR ''.'' (z_name z)) = Some p"
    using assms(3) by (simp add: strip_suffix_Some)
  moreover have "trim_end_matches CHR ''.'' name \<noteq> trim_end_matches CHR ''.'' (z_name z)"
    using assms(3) by simp
  ultimately show ?thesis
    using assms(2) ex by (simp add: fqdn_exists_def find_zone_for_fqdn_def Let_def)
qed

theorem fqdn_exists_ignores_wildcards_witness:
  "db_reachable ex_db \<and> query_fqdn ex_db ''a.apps.g10.lo'' RT_A = [ex_star] \<and>
   query_fqdn ex_db ''a.apps.g10.lo'' RT_AAAA = [] \<and> \<not> fqdn_exists ex_db ''a.apps.g10.lo''"
proof -
  have zone: "find_zone_for_fqdn ex_db (trim_end_matches CHR ''.'' ''a.apps.g10.lo'') = Some ex_zone"
    and split: "trim_end_matches CHR ''.'' ''a.apps.g10.lo'' =
       ''a.apps'' @ ''.'' @ trim_end_matches CHR ''.'' (z_name ex_zone)"
    and ans: "query_fqdn ex_db ''a.apps.g10.lo'' RT_A = [ex_star]"
      "query_fqdn ex_db ''a.apps.g10.lo'' RT_AAAA = []"
    by code_simp+
  have plain: "\<forall>r \<in> rows ex_db. CHR '':'' \<notin> set (r_name r)" "CHR '':'' \<notin> set ''a.apps''"
    by (simp_all add: ex_rows ex_names)
  have "\<not> (\<exists>r \<in> rows ex_db. r_zone_id r = z_id ex_zone \<and> r_name r = ''a.apps'')"
    by (simp add: ex_rows ex_names)
  then have "\<not> fqdn_exists ex_db ''a.apps.g10.lo''"
    unfolding fqdn_exists_ignores_wildcards [OF ex_db_reachable zone split plain] .
  with ans ex_db_reachable show ?thesis
    by blast
qed

section \<open>Serial numbers\<close>

lemma parse_uint_today:
  assumes "list_all is_digit today" "digits_val today * 100 < bound" "bound \<le> 2 ^ 32"
  shows "parse_uint (2 ^ 32) (today @ ''00'') = Some (digits_val today * 100)"
proof -
  have "digits_val (today @ ''00'') = digits_val today * 100"
    using digits_val_snoc [of "today @ ''0''" "CHR ''0''"] digits_val_snoc [of today "CHR ''0''"] by simp
  moreover have "list_all is_digit (today @ ''00'')" "list_all (\<lambda>c. c \<noteq> CHR ''+'') today"
    using assms(1) by (auto simp: is_digit_def list_all_iff)
  ultimately show ?thesis
    using assms by (cases today) (simp_all add: parse_uint_def)
qed

lemma bump_serial_base:
  assumes "parse_uint (2 ^ 32) (today @ ''00'') = Some n" "n < 2 ^ 31"
  shows "0 < unat (bump_serial today s - s)" "unat (bump_serial today s - s) < 2 ^ 31"
    "unat s < n \<Longrightarrow> unat (bump_serial today s) = n"
proof -
  define b :: u32 where "b = of_nat n"
  have b: "unat b = n"
    using assms(2) by (simp add: b_def unat_of_nat)
  have bump: "bump_serial today s = (if s \<ge> b then s + 1 else b)"
    using assms(1) by (simp add: bump_serial_def b_def)
  have ahead: "unat (b - s) = n - unat s" "unat s < n" if "\<not> s \<ge> b"
    using that unfolding b [symmetric] by (simp_all add: unat_sub word_le_nat_alt)
  show "0 < unat (bump_serial today s - s)" "unat (bump_serial today s - s) < 2 ^ 31"
    "unat s < n \<Longrightarrow> unat (bump_serial today s) = n"
    using ahead assms(2) b by (auto simp: bump word_le_nat_alt)
qed

text \<open>
  C8. A bumped serial is newer than the old one in the serial arithmetic secondaries use: it lies
  less than half the number circle ahead, for every date before the year 2148 and every old serial,
  the largest one included; and it starts with today's date whenever that is ahead of the old one.
\<close>

theorem bump_serial_newer:
  assumes "list_all is_digit today" "digits_val today * 100 < 2 ^ 31"
  shows "0 < unat (bump_serial today s - s) \<and> unat (bump_serial today s - s) < 2 ^ 31 \<and>
         (unat s < digits_val today * 100 \<longrightarrow> unat (bump_serial today s) = digits_val today * 100)"
  using bump_serial_base [OF parse_uint_today [OF assms] assms(2)] by simp

theorem bump_serial_newer_witness:
  "list_all is_digit ''20261115'' \<and> digits_val ''20261115'' * 100 < 2 ^ 31 \<and>
   0 < unat (bump_serial ''20261115'' 0xFFFFFFFF - 0xFFFFFFFF) \<and>
   unat (bump_serial ''20261115'' 2024010105) = 2026111500"
proof -
  have today: "list_all is_digit ''20261115''" and val: "digits_val ''20261115'' = 20261115"
    by (simp_all add: is_digit_def digits_val_def)
  have small: "digits_val ''20261115'' * 100 < 2 ^ 31"
    by (simp add: val)
  have "unat (2024010105 :: u32) < 20261115 * 100"
    by simp
  with bump_serial_newer [where s = "0xFFFFFFFF", OF today small]
    bump_serial_newer [where s = 2024010105, OF today small]
  show ?thesis
    using today small by (simp only: val) simp
qed

text \<open>
  Bumping the serial of a stored zone changes nothing of the zone but its serial and its
  modification time, touches no other zone, and announces the zone once when a hook is installed;
  an unknown zone is reported and nothing is announced.
\<close>

theorem increment_soa_serial_effect:
  "let (res, d') = increment_soa_serial today now zid d
   in case get_zone d zid of
        None \<Rightarrow> res = Inl (ZoneNotFound zid) \<and> d' = d
      | Some z \<Rightarrow> res = Inr () \<and>
          get_zone d' = (get_zone d)(zid \<mapsto>
            z\<lparr>z_soa := (z_soa z)\<lparr>serial := bump_serial today (serial (z_soa z))\<rparr>, z_updated_at := now\<rparr>) \<and>
          announced d' = announced d @ (if zone_change_hook d then [z_name z] else []) \<and>
          records d' = records d \<and> zone_name_index d' = zone_name_index d"
  by (auto simp: increment_soa_serial_def get_zone_def Let_def split: option.splits)

section \<open>Text of record types\<close>

text \<open>
  Parsing the printed form of a record type gives it back, in any letter case, and a text
  parses to a type only if it is its printed form up to letter case.
\<close>

theorem record_type_roundtrip:
  "record_type_from_str s = Inr t \<longleftrightarrow> to_uppercase s = record_type_str t"
  by (rule record_type_from_str_iff)

end
