(* ===== verification/Db_Config.thy ===== *)
theory Db_Config
  imports Db
begin

text \<open>
  The configuration tables of the database: replication metadata, IPAM allocations, DHCP pools and
  reservations, DNS forwarders, runtime sections, the instance configuration, persisted probe
  health and query statistics, \<^verbatim>\<open>crates/microdns-core/src/db.rs\<close> from
  \<^verbatim>\<open>set_replication_meta\<close> on. \<open>keyed_store\<close> is the contract their clients rely on.
\<close>

section \<open>Replication metadata\<close>

definition set_replication_meta :: "replication_meta \<Rightarrow> unit db_txn" where
  "set_replication_meta m d =
     (Inr (), d\<lparr>replication_metas := tbl_insert (rm_zone_id m) m (replication_metas d)\<rparr>)"

definition get_replication_meta :: "db \<Rightarrow> uuid \<Rightarrow> replication_meta option" where
  "get_replication_meta d zid = tbl_get (replication_metas d) zid"

definition list_replication_meta :: "db \<Rightarrow> replication_meta list" where
  "list_replication_meta d = tbl_values (replication_metas d)"

definition delete_replication_meta :: "uuid \<Rightarrow> unit db_txn" where
  "delete_replication_meta zid d =
     (Inr (), d\<lparr>replication_metas := tbl_remove zid (replication_metas d)\<rparr>)"

definition get_zones_for_peer :: "db \<Rightarrow> string \<Rightarrow> replication_meta list" where
  "get_zones_for_peer d peer = filter (\<lambda>m. rm_source_peer_id m = peer) (list_replication_meta d)"

definition delete_replicated_zone :: "uuid \<Rightarrow> unit db_txn" where
  "delete_replicated_zone zid = thenE (delete_zone zid) (delete_replication_meta zid)"

section \<open>IPAM allocations\<close>

definition create_ipam_allocation :: "ipam_allocation \<Rightarrow> unit db_txn" where
  "create_ipam_allocation a d = (Inr (), d\<lparr>ipam_allocations := tbl_insert (ia_id a) a (ipam_allocations d)\<rparr>)"

definition list_ipam_allocations :: "db \<Rightarrow> ipam_allocation list" where
  "list_ipam_allocations d = tbl_values (ipam_allocations d)"

definition delete_ipam_allocation :: "uuid \<Rightarrow> unit db_txn" where
  "delete_ipam_allocation i d = (Inr (), d\<lparr>ipam_allocations := tbl_remove i (ipam_allocations d)\<rparr>)"

definition find_ipam_by_container :: "db \<Rightarrow> string \<Rightarrow> ipam_allocation option" where
  "find_ipam_by_container d c = List.find (\<lambda>a. ia_container a = c) (tbl_values (ipam_allocations d))"

section \<open>DHCP pools\<close>

definition create_dhcp_pool :: "dhcp_pool \<Rightarrow> unit db_txn" where
  "create_dhcp_pool p d = (Inr (), d\<lparr>dhcp_pools := tbl_insert (dp_id p) p (dhcp_pools d)\<rparr>)"

definition get_dhcp_pool :: "db \<Rightarrow> uuid \<Rightarrow> dhcp_pool option" where
  "get_dhcp_pool d i = tbl_get (dhcp_pools d) i"

definition list_dhcp_pools :: "db \<Rightarrow> dhcp_pool list" where
  "list_dhcp_pools d = tbl_values (dhcp_pools d)"

definition update_dhcp_pool :: "dhcp_pool \<Rightarrow> unit db_txn" where
  "update_dhcp_pool p d =
     (if tbl_get (dhcp_pools d) (dp_id p) = None then (Inl (PoolNotFound (dp_id p)), d)
      else (Inr (), d\<lparr>dhcp_pools := tbl_insert (dp_id p) p (dhcp_pools d)\<rparr>))"

definition delete_dhcp_pool :: "uuid \<Rightarrow> unit db_txn" where
  "delete_dhcp_pool i d =
     (if tbl_get (dhcp_pools d) i = None then (Inl (PoolNotFound i), d)
      else (Inr (), d\<lparr>dhcp_pools := tbl_remove i (dhcp_pools d)\<rparr>))"

section \<open>DHCP reservations\<close>

definition normalize_mac :: "string \<Rightarrow> string" where
  "normalize_mac mac = map (\<lambda>c. if c = CHR ''-'' then CHR '':'' else c) (to_lowercase mac)"

definition create_dhcp_reservation :: "dhcp_reservation \<Rightarrow> unit db_txn" where
  "create_dhcp_reservation r d =
     (let mac = normalize_mac (dr_mac r)
      in if tbl_get (dhcp_reservations d) mac \<noteq> None then (Inl (DuplicateReservation mac), d)
         else (Inr (), d\<lparr>dhcp_reservations := tbl_insert mac r (dhcp_reservations d)\<rparr>))"

definition get_dhcp_reservation :: "db \<Rightarrow> string \<Rightarrow> dhcp_reservation option" where
  "get_dhcp_reservation d mac = tbl_get (dhcp_reservations d) (normalize_mac mac)"

definition list_dhcp_reservations :: "db \<Rightarrow> dhcp_reservation list" where
  "list_dhcp_reservations d = tbl_values (dhcp_reservations d)"

definition update_dhcp_reservation :: "dhcp_reservation \<Rightarrow> unit db_txn" where
  "update_dhcp_reservation r d =
     (let mac = normalize_mac (dr_mac r)
      in if tbl_get (dhcp_reservations d) mac = None then (Inl (ReservationNotFound mac), d)
         else (Inr (), d\<lparr>dhcp_reservations := tbl_insert mac r (dhcp_reservations d)\<rparr>))"

definition upsert_dhcp_reservation :: "dhcp_reservation \<Rightarrow> unit db_txn" where
  "upsert_dhcp_reservation r d =
     (Inr (), d\<lparr>dhcp_reservations := tbl_insert (normalize_mac (dr_mac r)) r (dhcp_reservations d)\<rparr>)"

definition delete_dhcp_reservation :: "string \<Rightarrow> unit db_txn" where
  "delete_dhcp_reservation m d =
     (let mac = normalize_mac m
      in if tbl_get (dhcp_reservations d) mac = None then (Inl (ReservationNotFound mac), d)
         else (Inr (), d\<lparr>dhcp_reservations := tbl_remove mac (dhcp_reservations d)\<rparr>))"

section \<open>DNS forwarders\<close>

abbreviation forward_key :: "string \<Rightarrow> string" where
  "forward_key z \<equiv> to_lowercase (trim_end_matches CHR ''.'' z)"

definition create_dns_forwarder :: "dns_forwarder \<Rightarrow> unit db_txn" where
  "create_dns_forwarder f d =
     (Inr (), d\<lparr>dns_forwarders := tbl_insert (forward_key (fw_zone f)) f (dns_forwarders d)\<rparr>)"

definition get_dns_forwarder :: "db \<Rightarrow> string \<Rightarrow> dns_forwarder option" where
  "get_dns_forwarder d z = tbl_get (dns_forwarders d) (forward_key z)"

definition list_dns_forwarders :: "db \<Rightarrow> dns_forwarder list" where
  "list_dns_forwarders d = tbl_values (dns_forwarders d)"

fun forward_loop :: "string \<Rightarrow> (string list \<times> nat) option \<Rightarrow> dns_forwarder list \<Rightarrow> (string list \<times> nat) option" where
  "forward_loop q best [] = best"
| "forward_loop q best (f # fs) =
     (let zone = forward_key (fw_zone f)
      in if (q = zone \<or> ends_with q (''.'' @ zone)) \<and>
            (case best of None \<Rightarrow> True | Some (_, s) \<Rightarrow> length zone > s)
         then forward_loop q (Some (fw_servers f, length zone)) fs
         else forward_loop q best fs)"

definition find_forward_servers :: "db \<Rightarrow> string \<Rightarrow> string list option" where
  "find_forward_servers d qname =
     map_option fst (forward_loop (forward_key qname) None (list_dns_forwarders d))"

definition delete_dns_forwarder :: "string \<Rightarrow> unit db_txn" where
  "delete_dns_forwarder z d =
     (let zone = forward_key z
      in if tbl_get (dns_forwarders d) zone = None then (Inl (ForwarderNotFound zone), d)
         else (Inr (), d\<lparr>dns_forwarders := tbl_remove zone (dns_forwarders d)\<rparr>))"

section \<open>Runtime sections and the instance configuration\<close>

text \<open>A section holds the JSON text of its value; the serialiser is the caller's.\<close>

definition get_runtime_section :: "db \<Rightarrow> string \<Rightarrow> string option" where
  "get_runtime_section d s = tbl_get (runtime_config d) s"

definition set_runtime_section :: "string \<Rightarrow> string \<Rightarrow> unit db_txn" where
  "set_runtime_section s json d = (Inr (), d\<lparr>runtime_config := tbl_insert s json (runtime_config d)\<rparr>)"

definition delete_runtime_section :: "string \<Rightarrow> unit db_txn" where
  "delete_runtime_section s d = (Inr (), d\<lparr>runtime_config := tbl_remove s (runtime_config d)\<rparr>)"

definition get_instance_config :: "db \<Rightarrow> db_instance_config option" where
  "get_instance_config d = tbl_get (instance_config d) ''config''"

definition set_instance_config :: "db_instance_config \<Rightarrow> unit db_txn" where
  "set_instance_config c d = (Inr (), d\<lparr>instance_config := tbl_insert ''config'' c (instance_config d)\<rparr>)"

definition dhcp_tables_empty :: "db \<Rightarrow> bool" where
  "dhcp_tables_empty d \<longleftrightarrow> list_dhcp_pools d = [] \<and> list_dhcp_reservations d = []"

section \<open>Persisted health and query statistics\<close>

definition list_lb_health :: "db \<Rightarrow> persisted_health list" where
  "list_lb_health d = tbl_values (lb_record_health d)"

definition get_lb_health :: "db \<Rightarrow> uuid \<Rightarrow> persisted_health option" where
  "get_lb_health d rid = tbl_get (lb_record_health d) rid"

definition upsert_lb_health_batch :: "persisted_health list \<Rightarrow> unit db_txn" where
  "upsert_lb_health_batch rows d =
     (if rows = [] then (Inr (), d)
      else (Inr (), d\<lparr>lb_record_health := fold (\<lambda>r. tbl_insert (ph_record_id r) r) rows (lb_record_health d)\<rparr>))"

definition delete_lb_health :: "uuid \<Rightarrow> unit db_txn" where
  "delete_lb_health rid d = (Inr (), d\<lparr>lb_record_health := tbl_remove rid (lb_record_health d)\<rparr>)"

definition query_stat_key :: "string \<Rightarrow> record_type \<Rightarrow> string" where
  "query_stat_key fqdn rt = fqdn @ '':'' @ record_type_str rt"

definition list_query_stats :: "db \<Rightarrow> query_stat list" where
  "list_query_stats d = tbl_values (query_stats d)"

definition get_query_stat :: "db \<Rightarrow> string \<Rightarrow> record_type \<Rightarrow> query_stat option" where
  "get_query_stat d fqdn rt = tbl_get (query_stats d) (query_stat_key fqdn rt)"

definition upsert_query_stats_batch :: "query_stat list \<Rightarrow> unit db_txn" where
  "upsert_query_stats_batch rows d =
     (if rows = [] then (Inr (), d)
      else (Inr (), d\<lparr>query_stats :=
              fold (\<lambda>r. tbl_insert (query_stat_key (qs_fqdn r) (qs_record_type r)) r) rows (query_stats d)\<rparr>))"

section \<open>The contract of a keyed table\<close>

text \<open>
  What every one of these tables promises, with keys compared after normalisation: a stored row is
  found under its key, an error changes nothing, and other keys are not affected. \<open>store\<close> covers
  creation and update, which may be refused.
\<close>

locale keyed_store =
  fixes norm :: "'k \<Rightarrow> 'n"
    and key :: "'v \<Rightarrow> 'k"
    and get :: "db \<Rightarrow> 'k \<Rightarrow> 'v option"
    and store :: "'v \<Rightarrow> unit db_txn"
    and del :: "'k \<Rightarrow> unit db_txn"
  assumes get_norm: "norm k = norm k' \<Longrightarrow> get d k = get d k'"
    and store_ok: "store v d = (Inr (), d') \<Longrightarrow> get d' k = (if norm k = norm (key v) then Some v else get d k)"
    and store_err: "store v d = (Inl e, d') \<Longrightarrow> d' = d"
    and del_ok: "del k0 d = (Inr (), d') \<Longrightarrow> get d' k = (if norm k = norm k0 then None else get d k)"
    and del_err: "del k0 d = (Inl e, d') \<Longrightarrow> d' = d \<and> get d k0 = None"
begin

lemma get_store: "fst (store v d) = Inr () \<Longrightarrow> get (snd (store v d)) (key v) = Some v"
  using store_ok [of v d "snd (store v d)" "key v"] by (cases "store v d") simp

lemma del_gone: "get (snd (del k d)) k = None"
proof (cases "del k d")
  case (Pair r d')
  show ?thesis
  proof (cases r)
    case (Inl e)
    with Pair del_err [of k d e d'] show ?thesis by simp
  next
    case (Inr u)
    with Pair del_ok [of k d d' k] show ?thesis by simp
  qed
qed

lemma store_other:
  assumes "norm k \<noteq> norm (key v)"
  shows "get (snd (store v d)) k = get d k"
proof (cases "store v d")
  case (Pair r d')
  with assms store_ok [of v d d' k] store_err [of v d _ d'] show ?thesis
    by (cases r) auto
qed

end

lemma tbl_get_fold_insert:
  "tbl_get (fold (\<lambda>r. tbl_insert (f r) r) rs t) k =
     (case List.find (\<lambda>r. f r = k) (rev rs) of Some r \<Rightarrow> Some r | None \<Rightarrow> tbl_get t k)"
proof (induction rs rule: rev_induct)
  case (snoc r rs)
  then show ?case
    by (cases "List.find (\<lambda>r. f r = k) (rev rs)") auto
qed simp

lemmas config_defs = create_dhcp_pool_def update_dhcp_pool_def delete_dhcp_pool_def get_dhcp_pool_def
  create_dhcp_reservation_def update_dhcp_reservation_def upsert_dhcp_reservation_def
  delete_dhcp_reservation_def get_dhcp_reservation_def create_dns_forwarder_def
  delete_dns_forwarder_def get_dns_forwarder_def set_replication_meta_def
  delete_replication_meta_def get_replication_meta_def Let_def

interpretation pool_create: keyed_store id dp_id get_dhcp_pool create_dhcp_pool delete_dhcp_pool
  by unfold_locales (auto simp: config_defs split: if_splits)

interpretation pool_update: keyed_store id dp_id get_dhcp_pool update_dhcp_pool delete_dhcp_pool
  by unfold_locales (auto simp: config_defs split: if_splits)

interpretation res_create: keyed_store normalize_mac dr_mac get_dhcp_reservation
    create_dhcp_reservation delete_dhcp_reservation
  by unfold_locales (auto simp: config_defs split: if_splits)

interpretation res_update: keyed_store normalize_mac dr_mac get_dhcp_reservation
    update_dhcp_reservation delete_dhcp_reservation
  by unfold_locales (auto simp: config_defs split: if_splits)

interpretation res_upsert: keyed_store normalize_mac dr_mac get_dhcp_reservation
    upsert_dhcp_reservation delete_dhcp_reservation
  by unfold_locales (auto simp: config_defs split: if_splits)

interpretation fwd: keyed_store "\<lambda>z. forward_key z" fw_zone get_dns_forwarder
    create_dns_forwarder delete_dns_forwarder
  by unfold_locales (auto simp: config_defs split: if_splits)

interpretation repl: keyed_store id rm_zone_id get_replication_meta
    set_replication_meta delete_replication_meta
  by unfold_locales (auto simp: config_defs)

section \<open>Forwarding by the longest suffix\<close>

definition forwards :: "string \<Rightarrow> dns_forwarder \<Rightarrow> bool" where
  "forwards q f \<longleftrightarrow> q = forward_key (fw_zone f) \<or> ends_with q (''.'' @ forward_key (fw_zone f))"

definition fwd_inv :: "db \<Rightarrow> bool" where
  "fwd_inv d \<longleftrightarrow> tbl_ok (dns_forwarders d) \<and>
     (\<forall>k f. tbl_get (dns_forwarders d) k = Some f \<longrightarrow> forward_key (fw_zone f) = k)"

lemma fwd_inv_ops:
  "fwd_inv db_open"
  "fwd_inv d \<Longrightarrow> fwd_inv (snd (create_dns_forwarder f d))"
  "fwd_inv d \<Longrightarrow> fwd_inv (snd (delete_dns_forwarder z d))"
  by (auto simp: fwd_inv_def config_defs db_open_def)

lemma forward_loop_Some:
  assumes "forward_loop q best fs = Some (s, n)"
  shows "(best = Some (s, n) \<or> (\<exists>f \<in> set fs. forwards q f \<and> s = fw_servers f \<and> n = length (forward_key (fw_zone f))))
       \<and> (\<forall>f \<in> set fs. forwards q f \<longrightarrow> length (forward_key (fw_zone f)) \<le> n)
       \<and> (\<forall>t m. best = Some (t, m) \<longrightarrow> m \<le> n)"
  using assms
proof (induction fs arbitrary: best)
  case (Cons f fs)
  let ?z = "forward_key (fw_zone f)"
  show ?case
  proof (cases "forwards q f \<and> (case best of None \<Rightarrow> True | Some (_, m) \<Rightarrow> length ?z > m)")
    case True
    with Cons.prems have "forward_loop q (Some (fw_servers f, length ?z)) fs = Some (s, n)"
      by (simp add: Let_def forwards_def)
    from Cons.IH [OF this] True show ?thesis
      by (auto split: option.splits)
  next
    case False
    with Cons.prems have "forward_loop q best fs = Some (s, n)"
      by (simp add: Let_def forwards_def split: if_splits)
    from Cons.IH [OF this] False show ?thesis
      by (auto split: option.splits)
  qed
qed simp

lemma forward_loop_None:
  "forward_loop q best fs = None \<longleftrightarrow> best = None \<and> (\<forall>f \<in> set fs. \<not> forwards q f)"
  by (induction fs arbitrary: best) (auto simp: Let_def forwards_def)

lemma forwards_unique:
  assumes "forwards q f" "forwards q g" "length (forward_key (fw_zone f)) = length (forward_key (fw_zone g))"
  shows "forward_key (fw_zone f) = forward_key (fw_zone g)"
proof -
  have "\<exists>p. q = p @ forward_key (fw_zone h)" if "forwards q h" for h
    using that unfolding forwards_def ends_with_iff by (metis append.assoc append_Nil)
  then show ?thesis
    using assms by (metis append_eq_append_conv)
qed

section \<open>Properties\<close>



text \<open>
  A query is forwarded exactly when some configured zone is the name or a suffix of it at a
  label boundary, and then to the servers of the longest such zone, which is unique.
\<close>

theorem find_forward_servers_longest:
  assumes "fwd_inv d"
  shows "find_forward_servers d qname = Some s \<longleftrightarrow>
     (\<exists>f \<in> set (list_dns_forwarders d). forwards (forward_key qname) f \<and> s = fw_servers f \<and>
        (\<forall>g \<in> set (list_dns_forwarders d). forwards (forward_key qname) g \<longrightarrow>
           length (forward_key (fw_zone g)) \<le> length (forward_key (fw_zone f))))"
    (is "?L \<longleftrightarrow> (\<exists>f \<in> ?F. ?best f)")
proof
  assume ?L
  then obtain n where "forward_loop (forward_key qname) None (list_dns_forwarders d) = Some (s, n)"
    by (auto simp: find_forward_servers_def)
  from forward_loop_Some [OF this] show "\<exists>f \<in> ?F. ?best f"
    by auto
next
  assume "\<exists>f \<in> ?F. ?best f"
  then obtain f where f: "f \<in> ?F" "?best f"
    by blast
  then obtain t n where loop: "forward_loop (forward_key qname) None (list_dns_forwarders d) = Some (t, n)"
    using forward_loop_None [of "forward_key qname" None "list_dns_forwarders d"]
    by (cases "forward_loop (forward_key qname) None (list_dns_forwarders d)") auto
  from forward_loop_Some [OF this] obtain g where g: "g \<in> ?F" "forwards (forward_key qname) g" "t = fw_servers g"
    "n = length (forward_key (fw_zone g))" "length (forward_key (fw_zone f)) \<le> n"
    using f by auto
  with f have "forward_key (fw_zone f) = forward_key (fw_zone g)"
    by (intro forwards_unique [of "forward_key qname"]) (auto intro: le_antisym)
  with f(1) g(1) assms have "f = g"
    by (auto simp: fwd_inv_def list_dns_forwarders_def tbl_values_iff)
  with f g loop show ?L
    by (simp add: find_forward_servers_def)
qed

definition ex_fwd :: "string \<Rightarrow> string \<Rightarrow> dns_forwarder" where
  "ex_fwd z s = \<lparr>fw_zone = z, fw_servers = [s], fw_created_at = 0, fw_updated_at = 0\<rparr>"

definition ex_fwd_db :: db where
  "ex_fwd_db = snd (create_dns_forwarder (ex_fwd ''G10.lo.'' ''10.0.0.2'')
                     (snd (create_dns_forwarder (ex_fwd ''lo'' ''10.0.0.1'') db_open)))"

theorem find_forward_servers_longest_witness:
  "fwd_inv ex_fwd_db \<and> find_forward_servers ex_fwd_db ''www.g10.lo.'' = Some [''10.0.0.2''] \<and>
   (\<exists>f \<in> set (list_dns_forwarders ex_fwd_db). forwards (forward_key ''www.g10.lo.'') f \<and> [''10.0.0.2''] = fw_servers f)"
proof -
  have inv: "fwd_inv ex_fwd_db"
    unfolding ex_fwd_db_def by (intro fwd_inv_ops)
  have hit: "find_forward_servers ex_fwd_db ''www.g10.lo.'' = Some [''10.0.0.2'']"
    by code_simp
  show ?thesis
    using inv hit hit [unfolded find_forward_servers_longest [OF inv]] by blast
qed

end
