(* ===== verification/Addr.thy ===== *)
theory Addr
  imports Types
begin

text \<open>
  Addresses and bytes as the Rust standard library treats them: big-endian byte order
  (\<^verbatim>\<open>to_be_bytes\<close>, \<^verbatim>\<open>from_be_bytes\<close>, \<^verbatim>\<open>octets\<close>), the text form of
  \<^verbatim>\<open>Ipv4Addr\<close>, hexadecimal digits, the bytes of a string and UTF-8 validity. A string is the
  list of its UTF-8 bytes.
\<close>

unbundle bit_operations_syntax

section \<open>Big-endian bytes\<close>

definition u16_to_be :: "u16 \<Rightarrow> u8 list" where
  "u16_to_be w = [ucast (drop_bit 8 w), ucast w]"

definition u16_from_be :: "u8 \<Rightarrow> u8 \<Rightarrow> u16" where
  "u16_from_be a b = push_bit 8 (ucast a) OR ucast b"

definition u32_to_be :: "u32 \<Rightarrow> u8 list" where
  "u32_to_be w = [ucast (drop_bit 24 w), ucast (drop_bit 16 w), ucast (drop_bit 8 w), ucast w]"

definition u32_from_be :: "u8 \<Rightarrow> u8 \<Rightarrow> u8 \<Rightarrow> u8 \<Rightarrow> u32" where
  "u32_from_be a b c d = push_bit 24 (ucast a) OR push_bit 16 (ucast b) OR push_bit 8 (ucast c) OR ucast d"

lemma length_to_be [simp]: "length (u16_to_be v) = 2" "length (u32_to_be w) = 4"
  by (simp_all add: u16_to_be_def u32_to_be_def)

lemma u16_be_roundtrip [simp]: "u16_from_be (ucast (drop_bit 8 w)) (ucast w) = w"
  unfolding u16_from_be_def
  by (rule bit_word_eqI) (auto simp: bit_simps)

lemma u32_be_roundtrip [simp]:
  "u32_from_be (ucast (drop_bit 24 w)) (ucast (drop_bit 16 w)) (ucast (drop_bit 8 w)) (ucast w) = w"
proof (rule bit_word_eqI)
  fix n
  assume "n < LENGTH(32)"
  then consider "n < 8" | "8 \<le> n" "n < 16" | "16 \<le> n" "n < 24" | "24 \<le> n" "n < 32"
    by fastforce
  then show "bit (u32_from_be (ucast (drop_bit 24 w)) (ucast (drop_bit 16 w)) (ucast (drop_bit 8 w)) (ucast w)) n
             = bit w n"
    by cases (auto simp: u32_from_be_def bit_simps)
qed

lemma u32_from_be_bytes:
  "u32_to_be (u32_from_be a b c d) = [a, b, c, d]"
  unfolding u32_to_be_def u32_from_be_def list.inject
  by (intro conjI refl bit_word_eqI) (auto simp: bit_simps dest: bit_imp_le_length)

lemma unat_bounds:
  "unat (a :: u8) < 256" "unat (b :: u16) < 65536" "unat (c :: u32) < 4294967296"
  using unsigned_less [of a, where 'a = nat] unsigned_less [of b, where 'a = nat]
    unsigned_less [of c, where 'a = nat] by simp_all

section \<open>Decimal text\<close>

definition digit_char :: "nat \<Rightarrow> char" where
  "digit_char d = char_of (48 + d)"

fun nat_str :: "nat \<Rightarrow> string" where
  "nat_str n = (if n < 10 then [digit_char n] else nat_str (n div 10) @ [digit_char (n mod 10)])"

declare nat_str.simps [simp del]

lemma of_char_digit_char: "d < 10 \<Longrightarrow> (of_char (digit_char d) :: nat) = 48 + d"
  unfolding digit_char_def by (simp only: of_char_of) simp

lemma nat_str_digits: "list_all is_digit (nat_str n)"
proof (induction n rule: nat_str.induct)
  case (1 n)
  have "is_digit (digit_char d)" if "d < 10" for d
    using that by (simp add: is_digit_def of_char_digit_char)
  with 1 show ?case
    by (subst nat_str.simps) simp
qed

lemma nat_str_val: "digits_val (nat_str n) = n"
proof (induction n rule: nat_str.induct)
  case (1 n)
  then show ?case
    using digits_val_snoc [of "[]" "digit_char n"]
    by (subst nat_str.simps) (auto simp: digits_val_snoc of_char_digit_char digits_val_def)
qed

lemma nat_str_nonempty [simp]: "nat_str n \<noteq> []"
  by (subst nat_str.simps) simp

lemma nat_str_length: "0 < k \<Longrightarrow> n < 10 ^ k \<Longrightarrow> length (nat_str n) \<le> k"
proof (induction n arbitrary: k rule: nat_str.induct)
  case (1 n)
  show ?case
  proof (cases "n < 10")
    case True
    with 1 show ?thesis by (subst nat_str.simps) simp
  next
    case False
    then obtain j where "k = Suc j" "0 < j"
      using "1.prems" by (cases k; cases "k - 1") auto
    with False 1 show ?thesis
      by (subst nat_str.simps) (simp add: less_mult_imp_div_less mult.commute)
  qed
qed

lemma nat_str_head: "10 \<le> n \<Longrightarrow> hd (nat_str n) \<noteq> digit_char 0"
proof (induction n rule: nat_str.induct)
  case (1 n)
  show ?case
  proof (cases "n div 10 < 10")
    case True
    have "nat_str n = [digit_char (n div 10), digit_char (n mod 10)]"
      using "1.prems" True by (subst nat_str.simps) (simp add: nat_str.simps [of "n div 10"])
    moreover have "(of_char (digit_char (n div 10)) :: nat) \<noteq> of_char (digit_char 0)"
      using "1.prems" True by (simp add: of_char_digit_char div_eq_0_iff)
    ultimately show ?thesis
      by auto
  next
    case False
    with 1 show ?thesis
      by (subst nat_str.simps) (simp add: hd_append)
  qed
qed

section \<open>The text form of IPv4 addresses\<close>

text \<open>
  The parser takes four decimal numbers of one to three digits, each below 256 and without a
  leading zero unless it is the digit zero, separated by dots.
\<close>

definition octets :: "ipv4 \<Rightarrow> u8 list" where
  "octets ip = u32_to_be ip"

definition ipv4_str :: "ipv4 \<Rightarrow> string" where
  "ipv4_str ip = join_char CHR ''.'' (map (\<lambda>b. nat_str (unat b)) (octets ip))"

definition parse_octet :: "string \<Rightarrow> u8 option" where
  "parse_octet s =
     (if s \<noteq> [] \<and> length s \<le> 3 \<and> list_all is_digit s \<and> (length s = 1 \<or> hd s \<noteq> digit_char 0)
         \<and> digits_val s < 256
      then Some (of_nat (digits_val s)) else None)"

definition parse_ipv4 :: "string \<Rightarrow> ipv4 option" where
  "parse_ipv4 s =
     (case map parse_octet (split_char CHR ''.'' s) of
        [Some a, Some b, Some c, Some d] \<Rightarrow> Some (u32_from_be a b c d)
      | _ \<Rightarrow> None)"

lemma parse_octet_str [simp]: "parse_octet (nat_str (unat b)) = Some b"
proof -
  have "unat b < 256"
    by (rule unat_bounds)
  moreover have "length (nat_str (unat b)) = 1 \<or> hd (nat_str (unat b)) \<noteq> digit_char 0"
  proof (cases "unat b < 10")
    case True
    then show ?thesis by (subst nat_str.simps) simp
  qed (simp add: nat_str_head)
  ultimately show ?thesis
    using nat_str_length [of 3 "unat b"] nat_str_digits [of "unat b"]
    by (simp add: parse_octet_def nat_str_val)
qed

lemma nat_str_no_dot: "CHR ''.'' \<notin> set (nat_str n)"
proof
  assume "CHR ''.'' \<in> set (nat_str n)"
  then have "is_digit CHR ''.''"
    using nat_str_digits [of n] by (simp add: list_all_iff)
  then show False
    by (simp add: is_digit_def)
qed

lemma parse_ipv4_str [simp]: "parse_ipv4 (ipv4_str ip) = Some ip"
proof -
  have "split_char CHR ''.'' (ipv4_str ip) = map (\<lambda>b. nat_str (unat b)) (octets ip)"
    unfolding ipv4_str_def
    by (rule split_join) (auto simp: octets_def u32_to_be_def nat_str_no_dot)
  then show ?thesis
    by (simp add: parse_ipv4_def octets_def u32_to_be_def)
qed

lemma ipv4_str_inject [simp]: "ipv4_str a = ipv4_str b \<longleftrightarrow> a = b"
  by (metis parse_ipv4_str option.inject)

section \<open>Bytes and text\<close>

definition as_bytes :: "string \<Rightarrow> u8 list" where
  "as_bytes s = map of_char s"

definition bytes_str :: "u8 list \<Rightarrow> string" where
  "bytes_str bs = map (\<lambda>b. char_of (unat b)) bs"

definition hex_digit :: "nat \<Rightarrow> char" where
  "hex_digit d = ''0123456789abcdef'' ! d"

definition hex_byte :: "u8 \<Rightarrow> string" where
  "hex_byte b = [hex_digit (unat b div 16), hex_digit (unat b mod 16)]"

text \<open>Well-formed UTF-8: shortest forms, no surrogates, nothing above U+10FFFF.\<close>

abbreviation cont :: "u8 \<Rightarrow> bool" where
  "cont b \<equiv> 0x80 \<le> b \<and> b \<le> 0xBF"

fun utf8_valid :: "u8 list \<Rightarrow> bool" where
  "utf8_valid [] = True"
| "utf8_valid (a # bs) =
     (if a < 0x80 then utf8_valid bs
      else if 0xC2 \<le> a \<and> a \<le> 0xDF then (case bs of b # r \<Rightarrow> cont b \<and> utf8_valid r | _ \<Rightarrow> False)
      else if 0xE0 \<le> a \<and> a \<le> 0xEF
           then (case bs of b # c # r \<Rightarrow> cont b \<and> cont c \<and> (a = 0xE0 \<longrightarrow> 0xA0 \<le> b) \<and> (a = 0xED \<longrightarrow> b \<le> 0x9F)
                                           \<and> utf8_valid r
                 | _ \<Rightarrow> False)
      else if 0xF0 \<le> a \<and> a \<le> 0xF4
           then (case bs of b # c # d # r \<Rightarrow> cont b \<and> cont c \<and> cont d \<and> (a = 0xF0 \<longrightarrow> 0x90 \<le> b)
                                               \<and> (a = 0xF4 \<longrightarrow> b \<le> 0x8F) \<and> utf8_valid r
                 | _ \<Rightarrow> False)
      else False)"

definition from_utf8 :: "u8 list \<Rightarrow> string option" where
  "from_utf8 bs = (if utf8_valid bs then Some (bytes_str bs) else None)"

end
