(* ===== verification/Dhcp_Pool.thy ===== *)
theory Dhcp_Pool
  imports Addr
begin

text \<open>
  The address pools of the DHCPv4 server, \<^verbatim>\<open>crates/microdns-dhcp/src/v4/pool.rs\<close>. The
  allocated addresses are a set; the \<^verbatim>\<open>u32\<close> counts keep their width. \<open>address_pool\<close> is the
  contract the server relies on.
\<close>

unbundle bit_operations_syntax

section \<open>Model\<close>

record ipv4_pool =
  range_start :: ipv4
  range_end :: ipv4
  subnet_mask :: ipv4
  gateway :: ipv4
  dns_servers :: "ipv4 list"
  domain :: string
  lease_time_secs :: u32
  allocated :: "ipv4 set"

definition pool_new :: "ipv4 \<Rightarrow> ipv4 \<Rightarrow> ipv4 \<Rightarrow> ipv4 \<Rightarrow> ipv4 list \<Rightarrow> string \<Rightarrow> u32 \<Rightarrow> ipv4_pool" where
  "pool_new rs re msk gw dns dmn secs =
     \<lparr>range_start = rs, range_end = re, subnet_mask = msk, gateway = gw, dns_servers = dns,
      domain = dmn, lease_time_secs = secs, allocated = {}\<rparr>"

text \<open>The addresses of \<^verbatim>\<open>start..=end\<close>, in order; none when the bounds are reversed.\<close>

definition range_inclusive :: "ipv4 \<Rightarrow> ipv4 \<Rightarrow> ipv4 list" where
  "range_inclusive s e = map of_nat [unat s..<Suc (unat e)]"

definition allocate :: "ipv4_pool \<Rightarrow> ipv4 option \<times> ipv4_pool" where
  "allocate p =
     (case List.find (\<lambda>ip. ip \<notin> allocated p) (range_inclusive (range_start p) (range_end p)) of
        Some ip \<Rightarrow> (Some ip, p\<lparr>allocated := insert ip (allocated p)\<rparr>)
      | None \<Rightarrow> (None, p))"

definition pool_contains :: "ipv4_pool \<Rightarrow> ipv4 \<Rightarrow> bool" where
  "pool_contains p ip \<longleftrightarrow> ip \<ge> range_start p \<and> ip \<le> range_end p"

definition allocate_specific :: "ipv4 \<Rightarrow> ipv4_pool \<Rightarrow> bool \<times> ipv4_pool" where
  "allocate_specific ip p =
     (if \<not> pool_contains p ip then (False, p)
      else if ip \<in> allocated p then (False, p)
      else (True, p\<lparr>allocated := insert ip (allocated p)\<rparr>))"

definition release :: "ipv4 \<Rightarrow> ipv4_pool \<Rightarrow> ipv4_pool" where
  "release ip p = p\<lparr>allocated := allocated p - {ip}\<rparr>"

definition mark_allocated :: "ipv4 \<Rightarrow> ipv4_pool \<Rightarrow> ipv4_pool" where
  "mark_allocated ip p = (if pool_contains p ip then p\<lparr>allocated := insert ip (allocated p)\<rparr> else p)"

definition clear_allocated :: "ipv4_pool \<Rightarrow> ipv4_pool" where
  "clear_allocated p = p\<lparr>allocated := {}\<rparr>"

definition available_count :: "ipv4_pool \<Rightarrow> u32" where
  "available_count p = (range_end p - range_start p + 1) - of_nat (card (allocated p))"

definition total_count :: "ipv4_pool \<Rightarrow> u32" where
  "total_count p = range_end p - range_start p + 1"

definition subnet_mask_from_prefix :: "u8 \<Rightarrow> ipv4" where
  "subnet_mask_from_prefix n =
     (if n = 0 then 0
      else if n \<ge> 32 then 0xFFFFFFFF
      else push_bit (unat (32 - n)) (NOT 0))"

definition prefix_len_from_subnet :: "string \<Rightarrow> u8 option" where
  "prefix_len_from_subnet subnet =
     (case split_char CHR ''/'' subnet of
        _ # s # _ \<Rightarrow> map_option of_nat (parse_uint 256 s)
      | _ \<Rightarrow> None)"

section \<open>Facts\<close>

lemma range_inclusive_image: "set (range_inclusive s e) = of_nat ` {unat s..<Suc (unat e)}"
  by (simp add: range_inclusive_def del: upt_Suc)

lemma range_inclusive_nth:
  assumes "i < length (range_inclusive s e)"
  shows "unat (range_inclusive s e ! i) = unat s + i"
proof -
  have i: "i < Suc (unat e) - unat s"
    using assms by (simp add: range_inclusive_def del: upt_Suc)
  then have "range_inclusive s e ! i = of_nat (unat s + i)"
    by (simp add: range_inclusive_def del: upt_Suc of_nat_add)
  then show ?thesis
    using i unat_bounds(3) [of e] by (simp add: unat_of_nat del: of_nat_add)
qed

lemma range_inclusive_rec [code]:
  "range_inclusive s e = (if e < s then [] else if s = e then [s] else s # range_inclusive (s + 1) e)"
proof -
  consider "e < s" | "s = e" | "s < e"
    by fastforce
  then show ?thesis
  proof cases
    case 3
    then have "unat (s + 1) = Suc (unat s)" "unat s < unat e"
      using unat_bounds(3) [of e] by (auto simp: word_less_nat_alt unat_word_ariths)
    with 3 show ?thesis
      by (auto simp: range_inclusive_def upt_conv_Cons [of "unat s"] simp del: upt_Suc)
  qed (simp_all add: range_inclusive_def word_less_nat_alt)
qed

lemma set_range_inclusive: "set (range_inclusive s e) = {ip. s \<le> ip \<and> ip \<le> e}"
proof -
  have "ip \<in> of_nat ` {unat s..<Suc (unat e)}" if "s \<le> ip" "ip \<le> e" for ip
    using that by (intro image_eqI [of _ _ "unat ip"]) (simp_all add: word_le_nat_alt less_Suc_eq_le)
  moreover have "s \<le> of_nat n \<and> of_nat n \<le> e" if "unat s \<le> n" "n < Suc (unat e)" for n
  proof -
    have "unat (of_nat n :: ipv4) = n"
      using that unat_bounds(3) [of e] by (simp add: unat_of_nat)
    with that show ?thesis
      by (simp add: word_le_nat_alt)
  qed
  ultimately show ?thesis
    unfolding range_inclusive_image by auto
qed

lemma card_range_inclusive:
  "s \<le> e \<Longrightarrow> card {ip :: ipv4. s \<le> ip \<and> ip \<le> e} = Suc (unat e - unat s)"
proof -
  assume "s \<le> e"
  have "inj_on (of_nat :: nat \<Rightarrow> ipv4) {unat s..<Suc (unat e)}"
  proof (rule inj_on_inverseI [of _ unat])
    fix n
    assume "n \<in> {unat s..<Suc (unat e)}"
    then show "unat (of_nat n :: ipv4) = n"
      using unat_bounds(3) [of e] by (simp add: unat_of_nat)
  qed
  then have "card (set (range_inclusive s e)) = card {unat s..<Suc (unat e)}"
    unfolding range_inclusive_image by (rule card_image)
  with \<open>s \<le> e\<close> show ?thesis
    by (simp add: set_range_inclusive word_le_nat_alt Suc_diff_le)
qed

definition pool_inv :: "ipv4_pool \<Rightarrow> bool" where
  "pool_inv p \<longleftrightarrow> allocated p \<subseteq> Collect (pool_contains p)"

text \<open>
  What the server relies on: which addresses a pool owns, which of them are taken, and what each
  operation does to the taken ones.
\<close>

locale address_pool =
  fixes owns :: "'p \<Rightarrow> ipv4 \<Rightarrow> bool"
    and taken :: "'p \<Rightarrow> ipv4 set"
    and alloc :: "'p \<Rightarrow> ipv4 option \<times> 'p"
    and take_ip :: "ipv4 \<Rightarrow> 'p \<Rightarrow> bool \<times> 'p"
    and mark :: "ipv4 \<Rightarrow> 'p \<Rightarrow> 'p"
    and free :: "ipv4 \<Rightarrow> 'p \<Rightarrow> 'p"
  assumes alloc_Some: "alloc p = (Some ip, p') \<Longrightarrow> owns p ip \<and> ip \<notin> taken p \<and> taken p' = insert ip (taken p)"
    and alloc_None: "alloc p = (None, p') \<Longrightarrow> p' = p \<and> Collect (owns p) \<subseteq> taken p"
    and take_True: "take_ip ip p = (True, p') \<Longrightarrow> owns p ip \<and> ip \<notin> taken p \<and> taken p' = insert ip (taken p)"
    and take_False: "take_ip ip p = (False, p') \<Longrightarrow> p' = p \<and> (owns p ip \<longrightarrow> ip \<in> taken p)"
    and mark_taken: "taken (mark ip p) = (if owns p ip then insert ip (taken p) else taken p)"
    and free_taken: "taken (free ip p) = taken p - {ip}"
    and owns_alloc: "owns (snd (alloc p)) = owns p"
    and owns_take: "owns (snd (take_ip ip p)) = owns p"
    and owns_mark: "owns (mark ip p) = owns p"
    and owns_free: "owns (free ip p) = owns p"
begin

text \<open>An address stays taken through every operation but its own release.\<close>

lemma taken_mono:
  assumes "x \<in> taken p"
  shows "x \<in> taken (snd (alloc p))" and "x \<in> taken (snd (take_ip ip p))" and "x \<in> taken (mark ip p)"
    and "ip \<noteq> x \<Longrightarrow> x \<in> taken (free ip p)"
proof -
  show "x \<in> taken (snd (alloc p))"
    using assms alloc_Some [of p _ "snd (alloc p)"] alloc_None [of p "snd (alloc p)"]
    by (cases "alloc p"; cases "fst (alloc p)") auto
  show "x \<in> taken (snd (take_ip ip p))"
    using assms take_True [of ip p "snd (take_ip ip p)"] take_False [of ip p "snd (take_ip ip p)"]
    by (cases "take_ip ip p"; cases "fst (take_ip ip p)") auto
  show "x \<in> taken (mark ip p)" "ip \<noteq> x \<Longrightarrow> x \<in> taken (free ip p)"
    using assms by (simp_all add: mark_taken free_taken)
qed

lemma fold_mark_taken:
  "taken (fold mark ips p) = taken p \<union> {ip \<in> set ips. owns p ip}"
  "owns (fold mark ips p) = owns p"
  by (induction ips arbitrary: p) (auto simp: mark_taken owns_mark)

end

lemma find_None_iff_range:
  "List.find (\<lambda>ip. ip \<notin> allocated p) (range_inclusive (range_start p) (range_end p)) = None \<longleftrightarrow>
     Collect (pool_contains p) \<subseteq> allocated p"
  by (auto simp: find_None_iff set_range_inclusive pool_contains_def)

lemma find_Some_range:
  "List.find (\<lambda>ip. ip \<notin> allocated p) (range_inclusive (range_start p) (range_end p)) = Some ip \<Longrightarrow>
     pool_contains p ip \<and> ip \<notin> allocated p"
  using set_range_inclusive [of "range_start p" "range_end p"] nth_mem
  by (fastforce simp: find_Some_iff pool_contains_def)

interpretation v4pool: address_pool pool_contains allocated allocate allocate_specific mark_allocated release
  by unfold_locales
     (auto simp: allocate_def allocate_specific_def mark_allocated_def release_def pool_contains_def [abs_def]
           find_None_iff_range split: option.splits if_splits dest!: find_Some_range)

lemma pool_inv_ops:
  "pool_inv (pool_new rs re msk gw dns dmn secs)"
  "pool_inv p \<Longrightarrow> pool_inv (snd (allocate p))"
  "pool_inv p \<Longrightarrow> pool_inv (snd (allocate_specific ip p))"
  "pool_inv p \<Longrightarrow> pool_inv (release ip p)"
  "pool_inv p \<Longrightarrow> pool_inv (mark_allocated ip p)"
  "pool_inv p \<Longrightarrow> pool_inv (clear_allocated p)"
  by (auto simp: pool_inv_def pool_new_def allocate_def allocate_specific_def release_def mark_allocated_def
      clear_allocated_def pool_contains_def [abs_def] split: option.splits dest!: find_Some_range)

lemma range_inclusive_order:
  "i < j \<Longrightarrow> j < length (range_inclusive s e) \<Longrightarrow> range_inclusive s e ! i < range_inclusive s e ! j"
  by (simp add: word_less_nat_alt range_inclusive_nth)

section \<open>Properties\<close>

text \<open>
  C10. Allocation hands out the lowest free address of the range and marks it, touching nothing
  else; it fails only when every address of the range is taken. In particular no address is handed
  out twice without a release in between.
\<close>

theorem allocate_lowest_free:
  "case allocate p of
     (Some ip, p') \<Rightarrow> pool_contains p ip \<and> ip \<notin> allocated p \<and> p' = p\<lparr>allocated := insert ip (allocated p)\<rparr> \<and>
        Collect (pool_contains p) \<inter> {x. x < ip} \<subseteq> allocated p
   | (None, p') \<Rightarrow> p' = p \<and> Collect (pool_contains p) \<subseteq> allocated p"
proof (cases "List.find (\<lambda>ip. ip \<notin> allocated p) (range_inclusive (range_start p) (range_end p))")
  case None
  then show ?thesis
    using find_None_iff_range [of p] by (simp add: allocate_def)
next
  case (Some ip)
  let ?r = "range_inclusive (range_start p) (range_end p)"
  obtain i where i: "i < length ?r" "ip = ?r ! i" "\<forall>j < i. ?r ! j \<in> allocated p"
    using Some by (auto simp: find_Some_iff)
  have "x \<in> allocated p" if "pool_contains p x" "x < ip" for x
  proof -
    have "x \<in> set ?r"
      using that(1) by (simp add: set_range_inclusive pool_contains_def)
    then obtain j where "j < length ?r" "x = ?r ! j"
      by (auto simp: in_set_conv_nth)
    with that(2) i range_inclusive_order [of i j "range_start p" "range_end p"] show ?thesis
      by (metis less_asym linorder_neqE_nat order_less_irrefl)
  qed
  with Some find_Some_range [OF Some] show ?thesis
    by (auto simp: allocate_def)
qed

text \<open>
  The free-address count is exact: no wrap-around, for every pool whose bounds are in order
  and whose range is not the whole address space.
\<close>

theorem available_count_exact:
  assumes "pool_inv p" "range_start p \<le> range_end p" "total_count p \<noteq> 0"
  shows "unat (available_count p) = card (Collect (pool_contains p) - allocated p) \<and>
         unat (total_count p) = card (Collect (pool_contains p))"
proof -
  let ?s = "unat (range_start p)" and ?e = "unat (range_end p)"
  have diff: "unat (range_end p - range_start p) = ?e - ?s"
    using assms(2) by (simp add: unat_sub word_le_nat_alt)
  have tot: "unat (total_count p) = Suc (?e - ?s)"
    using assms(3) diff unat_bounds(3) [of "range_end p"]
    by (simp add: total_count_def unatSuc add.commute)
  have card: "card (Collect (pool_contains p)) = Suc (?e - ?s)"
    using card_range_inclusive [OF assms(2)] by (simp add: pool_contains_def [abs_def])
  have le: "card (allocated p) \<le> Suc (?e - ?s)"
    using card_mono [of "Collect (pool_contains p)" "allocated p"] assms(1) card
    by (simp add: pool_inv_def)
  have small: "unat (of_nat (card (allocated p)) :: u32) = card (allocated p)"
    using le tot unat_bounds(3) [of "total_count p"] by (simp add: unat_of_nat)
  have "unat (available_count p) = Suc (?e - ?s) - card (allocated p)"
    using le tot small by (simp add: available_count_def total_count_def unat_sub word_le_nat_alt)
  then show ?thesis
    using card tot card_Diff_subset [of "allocated p" "Collect (pool_contains p)"] assms(1)
    by (simp add: pool_inv_def)
qed

definition ex_pool :: ipv4_pool where
  "ex_pool = pool_new 0x0A000A64 0x0A000A66 0xFFFFFF00 0x0A000A01 [0x0A000A02] ''example.com'' 3600"

theorem available_count_exact_witness:
  "pool_inv (snd (allocate ex_pool)) \<and> unat (available_count (snd (allocate ex_pool))) = 2 \<and>
   fst (allocate ex_pool) = Some 0x0A000A64"
proof -
  let ?p = "snd (allocate ex_pool)"
  have inv: "pool_inv ?p"
    unfolding ex_pool_def by (intro pool_inv_ops)
  have side: "range_start ?p \<le> range_end ?p" "total_count ?p \<noteq> 0"
    and alloc: "fst (allocate ex_pool) = Some 0x0A000A64" "allocated ?p = {0x0A000A64}"
    and range: "range_inclusive (range_start ?p) (range_end ?p) = [0x0A000A64, 0x0A000A65, 0x0A000A66]"
    by code_simp+
  have "Collect (pool_contains ?p) = {0x0A000A64, 0x0A000A65, 0x0A000A66}"
    using set_range_inclusive [of "range_start ?p" "range_end ?p"] range
    by (simp add: pool_contains_def [abs_def])
  with available_count_exact [OF inv side] alloc inv show ?thesis
    by simp
qed

text \<open>
  The subnet mask of a prefix length has exactly that many leading ones, for every byte value.
\<close>

theorem subnet_mask_bits:
  "bit (subnet_mask_from_prefix n) i \<longleftrightarrow> i < 32 \<and> 32 - min 32 (unat n) \<le> i"
proof -
  consider "n = 0" | "n \<ge> 32" | "n \<noteq> 0" "n < 32"
    by fastforce
  then show ?thesis
  proof cases
    case 1
    then show ?thesis
      by (simp add: subnet_mask_from_prefix_def)
  next
    case 2
    then have "subnet_mask_from_prefix n = NOT 0" "32 \<le> unat n"
      by (auto simp: subnet_mask_from_prefix_def word_le_nat_alt)
    then show ?thesis
      by (simp only: bit_simps) simp
  next
    case 3
    then have "unat (32 - n) = 32 - unat n" "unat n < 32"
      by (simp_all add: unat_sub word_less_nat_alt word_le_nat_alt)
    with 3 show ?thesis
      by (auto simp: subnet_mask_from_prefix_def bit_simps)
  qed
qed

end
