(* ===== verification/Dhcp_Packet.thy ===== *)
theory Dhcp_Packet
  imports Addr
begin

text \<open>
  DHCPv4 messages on the wire, \<^verbatim>\<open>crates/microdns-dhcp/src/v4/packet.rs\<close>: parsing,
  serialisation, the option builders and the option readers. The fixed-size arrays are byte lists
  whose length \<open>packet_ok\<close> fixes. A panic of a builder is the value \<^term>\<open>None\<close>.
\<close>

section \<open>Model\<close>

datatype dhcp_message_type = Discover | Offer | Request | Decline | Ack | Nak | Release | Inform

fun msg_type_u8 :: "dhcp_message_type \<Rightarrow> u8" where
  "msg_type_u8 Discover = 1"
| "msg_type_u8 Offer = 2"
| "msg_type_u8 Request = 3"
| "msg_type_u8 Decline = 4"
| "msg_type_u8 Ack = 5"
| "msg_type_u8 Nak = 6"
| "msg_type_u8 Release = 7"
| "msg_type_u8 Inform = 8"

definition msg_type_from_u8 :: "u8 \<Rightarrow> dhcp_message_type option" where
  "msg_type_from_u8 v =
     (if v = 1 then Some Discover else if v = 2 then Some Offer else if v = 3 then Some Request
      else if v = 4 then Some Decline else if v = 5 then Some Ack else if v = 6 then Some Nak
      else if v = 7 then Some Release else if v = 8 then Some Inform else None)"

abbreviation "OPT_SUBNET_MASK \<equiv> 1 :: u8"
abbreviation "OPT_TIME_OFFSET \<equiv> 2 :: u8"
abbreviation "OPT_ROUTER \<equiv> 3 :: u8"
abbreviation "OPT_DNS_SERVER \<equiv> 6 :: u8"
abbreviation "OPT_LOG_SERVER \<equiv> 7 :: u8"
abbreviation "OPT_HOSTNAME \<equiv> 12 :: u8"
abbreviation "OPT_DOMAIN_NAME \<equiv> 15 :: u8"
abbreviation "OPT_ROOT_PATH \<equiv> 17 :: u8"
abbreviation "OPT_MTU \<equiv> 26 :: u8"
abbreviation "OPT_NTP_SERVERS \<equiv> 42 :: u8"
abbreviation "OPT_REQUESTED_IP \<equiv> 50 :: u8"
abbreviation "OPT_LEASE_TIME \<equiv> 51 :: u8"
abbreviation "OPT_MESSAGE_TYPE \<equiv> 53 :: u8"
abbreviation "OPT_SERVER_ID \<equiv> 54 :: u8"
abbreviation "OPT_TFTP_SERVER \<equiv> 66 :: u8"
abbreviation "OPT_BOOTFILE \<equiv> 67 :: u8"
abbreviation "OPT_USER_CLASS \<equiv> 77 :: u8"
abbreviation "OPT_CLIENT_ARCH \<equiv> 93 :: u8"
abbreviation "OPT_DOMAIN_SEARCH \<equiv> 119 :: u8"
abbreviation "OPT_CLASSLESS_STATIC_ROUTES \<equiv> 121 :: u8"
abbreviation "OPT_IPXE_ENCAP \<equiv> 175 :: u8"
abbreviation "OPT_WPAD \<equiv> 252 :: u8"
abbreviation "OPT_END \<equiv> 255 :: u8"

definition MAGIC_COOKIE :: "u8 list" where
  "MAGIC_COOKIE = [99, 130, 83, 99]"

record dhcp_option =
  o_code :: u8
  o_data :: "u8 list"

record dhcp_packet =
  pk_op :: u8
  pk_htype :: u8
  pk_hlen :: u8
  pk_hops :: u8
  pk_xid :: u32
  pk_secs :: u16
  pk_flags :: u16
  pk_ciaddr :: ipv4
  pk_yiaddr :: ipv4
  pk_siaddr :: ipv4
  pk_giaddr :: ipv4
  pk_chaddr :: "u8 list"
  pk_sname :: "u8 list"
  pk_file :: "u8 list"
  pk_options :: "dhcp_option list"

text \<open>The loop over the options, on the bytes that remain.\<close>

function parse_options :: "u8 list \<Rightarrow> dhcp_option list" where
  "parse_options bs =
     (case bs of
        [] \<Rightarrow> []
      | c # rest \<Rightarrow>
          if c = OPT_END then [\<lparr>o_code = OPT_END, o_data = []\<rparr>]
          else if c = 0 then parse_options rest
          else (case rest of
                  [] \<Rightarrow> []
                | l # r \<Rightarrow>
                    if unat l > length r then []
                    else \<lparr>o_code = c, o_data = take (unat l) r\<rparr> # parse_options (drop (unat l) r)))"
  by pat_completeness auto
termination
  by (relation "measure length") auto

declare parse_options.simps [simp del]

definition slice :: "nat \<Rightarrow> nat \<Rightarrow> u8 list \<Rightarrow> u8 list" where
  "slice i j bs = take (j - i) (drop i bs)"

definition u32_at :: "u8 list \<Rightarrow> nat \<Rightarrow> u32" where
  "u32_at d i = u32_from_be (d ! i) (d ! (i + 1)) (d ! (i + 2)) (d ! (i + 3))"

definition u16_at :: "u8 list \<Rightarrow> nat \<Rightarrow> u16" where
  "u16_at d i = u16_from_be (d ! i) (d ! (i + 1))"

definition parse :: "u8 list \<Rightarrow> dhcp_packet option" where
  "parse d =
     (if length d < 240 then None
      else if slice 236 240 d \<noteq> MAGIC_COOKIE then None
      else Some \<lparr>pk_op = d ! 0, pk_htype = d ! 1, pk_hlen = d ! 2, pk_hops = d ! 3,
                 pk_xid = u32_at d 4, pk_secs = u16_at d 8, pk_flags = u16_at d 10,
                 pk_ciaddr = u32_at d 12, pk_yiaddr = u32_at d 16, pk_siaddr = u32_at d 20, pk_giaddr = u32_at d 24,
                 pk_chaddr = slice 28 44 d, pk_sname = slice 44 108 d, pk_file = slice 108 236 d,
                 pk_options = parse_options (drop 240 d)\<rparr>)"

definition option_bytes :: "dhcp_option \<Rightarrow> u8 list" where
  "option_bytes opt =
     o_code opt # (if o_code opt \<noteq> OPT_END then of_nat (length (o_data opt)) # o_data opt else [])"

definition header_bytes :: "dhcp_packet \<Rightarrow> u8 list" where
  "header_bytes p =
     [pk_op p, pk_htype p, pk_hlen p, pk_hops p] @ u32_to_be (pk_xid p) @ u16_to_be (pk_secs p) @ u16_to_be (pk_flags p) @
     octets (pk_ciaddr p) @ octets (pk_yiaddr p) @ octets (pk_siaddr p) @ octets (pk_giaddr p) @
     pk_chaddr p @ pk_sname p @ pk_file p @ MAGIC_COOKIE"

definition to_bytes :: "dhcp_packet \<Rightarrow> u8 list" where
  "to_bytes p =
     (let buf = header_bytes p @ concat (map option_bytes (pk_options p)) @
                (if pk_options p \<noteq> [] \<and> o_code (last (pk_options p)) = OPT_END then [] else [OPT_END])
      in buf @ replicate (300 - length buf) 0)"

definition get_option :: "dhcp_packet \<Rightarrow> u8 \<Rightarrow> u8 list option" where
  "get_option p c = map_option o_data (List.find (\<lambda>opt. o_code opt = c) (pk_options p))"

definition message_type :: "dhcp_packet \<Rightarrow> dhcp_message_type option" where
  "message_type p =
     (case get_option p OPT_MESSAGE_TYPE of
        Some (b # _) \<Rightarrow> msg_type_from_u8 b
      | _ \<Rightarrow> None)"

definition requested_ip :: "dhcp_packet \<Rightarrow> ipv4 option" where
  "requested_ip p =
     (case get_option p OPT_REQUESTED_IP of
        Some [a, b, c, d] \<Rightarrow> Some (u32_from_be a b c d)
      | _ \<Rightarrow> None)"

definition hostname :: "dhcp_packet \<Rightarrow> string option" where
  "hostname p = (case get_option p OPT_HOSTNAME of Some bs \<Rightarrow> from_utf8 bs | None \<Rightarrow> None)"

definition mac_address :: "dhcp_packet \<Rightarrow> string" where
  "mac_address p = join_char CHR '':'' (map hex_byte (take (min (unat (pk_hlen p)) 6) (pk_chaddr p)))"

definition ip_option :: "u8 \<Rightarrow> ipv4 \<Rightarrow> dhcp_option" where
  "ip_option c ip = \<lparr>o_code = c, o_data = octets ip\<rparr>"

definition u32_option :: "u8 \<Rightarrow> u32 \<Rightarrow> dhcp_option" where
  "u32_option c v = \<lparr>o_code = c, o_data = u32_to_be v\<rparr>"

definition ip_list_option :: "u8 \<Rightarrow> ipv4 list \<Rightarrow> dhcp_option" where
  "ip_list_option c ips = \<lparr>o_code = c, o_data = concat (map octets ips)\<rparr>"

definition string_option :: "u8 \<Rightarrow> string \<Rightarrow> dhcp_option" where
  "string_option c s = \<lparr>o_code = c, o_data = as_bytes s\<rparr>"

definition u16_option :: "u8 \<Rightarrow> u16 \<Rightarrow> dhcp_option" where
  "u16_option c v = \<lparr>o_code = c, o_data = u16_to_be v\<rparr>"

definition i32_option :: "u8 \<Rightarrow> i32 \<Rightarrow> dhcp_option" where
  "i32_option c v = \<lparr>o_code = c, o_data = u32_to_be v\<rparr>"

definition label_bytes :: "string \<Rightarrow> u8 list" where
  "label_bytes l = (if l \<noteq> [] then of_nat (length l) # as_bytes l else [])"

definition domain_search_option :: "string list \<Rightarrow> dhcp_option" where
  "domain_search_option domains =
     \<lparr>o_code = OPT_DOMAIN_SEARCH,
      o_data = concat (map (\<lambda>d. concat (map label_bytes (split_char CHR ''.'' d)) @ [0]) domains)\<rparr>"

text \<open>
  One route; \<^verbatim>\<open>prefix_len + 7\<close> is a byte sum, and slicing four octets beyond their end panics.
\<close>

definition route_bytes :: "string \<Rightarrow> ipv4 \<Rightarrow> u8 list option" where
  "route_bytes cidr gw =
     (let parts = split_char CHR ''/'' cidr;
          prefix_len = (case parts of _ # s # _ \<Rightarrow> (case parse_uint 256 s of Some n \<Rightarrow> of_nat n | None \<Rightarrow> 32)
                                    | _ \<Rightarrow> 32) :: u8;
          needed = unat ((prefix_len + 7) div 8)
      in case parse_ipv4 (hd parts) of
           Some dest \<Rightarrow> if needed > 4 then None
                        else Some (prefix_len # take needed (octets dest) @ octets gw)
         | None \<Rightarrow> Some (prefix_len # octets gw))"

fun routes_bytes :: "(string \<times> ipv4) list \<Rightarrow> u8 list option" where
  "routes_bytes [] = Some []"
| "routes_bytes ((cidr, gw) # rs) =
     (case route_bytes cidr gw of
        None \<Rightarrow> None
      | Some bs \<Rightarrow> map_option (\<lambda>r. bs @ r) (routes_bytes rs))"

definition classless_static_routes_option :: "(string \<times> ipv4) list \<Rightarrow> dhcp_option option" where
  "classless_static_routes_option routes =
     map_option (\<lambda>bs. \<lparr>o_code = OPT_CLASSLESS_STATIC_ROUTES, o_data = bs\<rparr>) (routes_bytes routes)"

definition message_type_option :: "dhcp_message_type \<Rightarrow> dhcp_option" where
  "message_type_option t = \<lparr>o_code = OPT_MESSAGE_TYPE, o_data = [msg_type_u8 t]\<rparr>"

section \<open>The wire format\<close>

abbreviation end_option :: dhcp_option where
  "end_option \<equiv> \<lparr>o_code = OPT_END, o_data = []\<rparr>"

definition packet_ok :: "dhcp_packet \<Rightarrow> bool" where
  "packet_ok p \<longleftrightarrow> length (pk_chaddr p) = 16 \<and> length (pk_sname p) = 64 \<and> length (pk_file p) = 128"

definition option_plain :: "dhcp_option \<Rightarrow> bool" where
  "option_plain opt \<longleftrightarrow> o_code opt \<noteq> 0 \<and> o_code opt \<noteq> OPT_END \<and> length (o_data opt) < 256"

lemma parse_options_plain:
  assumes "list_all option_plain os"
  shows "parse_options (concat (map option_bytes os) @ OPT_END # rest) = os @ [end_option]"
  using assms
proof (induction os)
  case Nil
  then show ?case
    by (simp add: parse_options.simps)
next
  case (Cons opt os)
  then have "unat (of_nat (length (o_data opt)) :: u8) = length (o_data opt)"
    by (simp add: option_plain_def unat_of_nat)
  with Cons show ?case
    by (subst parse_options.simps) (simp add: option_plain_def [of opt] option_bytes_def [of opt])
qed

definition fixed_bytes :: "dhcp_packet \<Rightarrow> u8 list" where
  "fixed_bytes p =
     [pk_op p, pk_htype p, pk_hlen p, pk_hops p] @ u32_to_be (pk_xid p) @ u16_to_be (pk_secs p) @
     u16_to_be (pk_flags p) @ octets (pk_ciaddr p) @ octets (pk_yiaddr p) @ octets (pk_siaddr p) @ octets (pk_giaddr p)"

lemma header_split: "header_bytes p = fixed_bytes p @ pk_chaddr p @ pk_sname p @ pk_file p @ MAGIC_COOKIE"
  by (simp add: header_bytes_def fixed_bytes_def)

lemma length_fixed [simp]: "length (fixed_bytes p) = 28"
  by (simp add: fixed_bytes_def octets_def)

lemma slice_mid: "length xs = i \<Longrightarrow> i + length ys = j \<Longrightarrow> slice i j (xs @ ys @ zs) = ys"
  by (auto simp: slice_def)

lemma fixed_fields:
  fixes r :: "u8 list" and p :: dhcp_packet
  defines "d \<equiv> fixed_bytes p @ r"
  shows "d ! 0 = pk_op p" "d ! 1 = pk_htype p" "d ! 2 = pk_hlen p" "d ! 3 = pk_hops p"
    "u32_at d 4 = pk_xid p" "u16_at d 8 = pk_secs p" "u16_at d 10 = pk_flags p"
    "u32_at d 12 = pk_ciaddr p" "u32_at d 16 = pk_yiaddr p" "u32_at d 20 = pk_siaddr p" "u32_at d 24 = pk_giaddr p"
  by (simp_all add: d_def fixed_bytes_def octets_def u32_to_be_def u16_to_be_def u32_at_def u16_at_def)

lemma parse_header:
  assumes "packet_ok p"
  shows "parse (header_bytes p @ r) = Some (p\<lparr>pk_options := parse_options r\<rparr>)"
proof -
  let ?f = "fixed_bytes p"
  let ?d = "?f @ pk_chaddr p @ pk_sname p @ pk_file p @ MAGIC_COOKIE @ r"
  have len: "length (pk_chaddr p) = 16" "length (pk_sname p) = 64" "length (pk_file p) = 128" "length MAGIC_COOKIE = 4"
    using assms by (simp_all add: packet_ok_def MAGIC_COOKIE_def)
  have "slice 28 44 ?d = pk_chaddr p"
    by (rule slice_mid) (simp_all add: len)
  moreover have "slice 44 108 ?d = pk_sname p"
    using slice_mid [of "?f @ pk_chaddr p" 44 "pk_sname p" 108] by (simp add: len)
  moreover have "slice 108 236 ?d = pk_file p"
    using slice_mid [of "?f @ pk_chaddr p @ pk_sname p" 108 "pk_file p" 236] by (simp add: len)
  moreover have "slice 236 240 ?d = MAGIC_COOKIE"
    using slice_mid [of "?f @ pk_chaddr p @ pk_sname p @ pk_file p" 236 MAGIC_COOKIE 240] by (simp add: len)
  moreover have "drop 240 ?d = r" "240 \<le> length ?d"
    by (simp_all add: len)
  ultimately have "parse ?d = Some (p\<lparr>pk_options := parse_options r\<rparr>)"
    unfolding parse_def by (simp only: fixed_fields) simp
  then show ?thesis
    by (simp add: header_split)
qed

lemma to_bytes_closed:
  assumes "pk_options p = os \<or> pk_options p = os @ [end_option]" "list_all option_plain os"
  shows "\<exists>pad. to_bytes p = header_bytes p @ concat (map option_bytes os) @ OPT_END # pad"
proof -
  have "o_code (last os) \<noteq> OPT_END" if "os \<noteq> []"
    using assms(2) that by (simp add: list_all_iff option_plain_def)
  with assms(1) show ?thesis
    by (auto simp: to_bytes_def Let_def option_bytes_def)
qed

lemma wire_roundtrip:
  assumes "packet_ok p" "list_all option_plain os" "pk_options p = os \<or> pk_options p = os @ [end_option]"
  shows "parse (to_bytes p) = Some (p\<lparr>pk_options := os @ [end_option]\<rparr>)"
proof -
  obtain pad where "to_bytes p = header_bytes p @ concat (map option_bytes os) @ OPT_END # pad"
    using to_bytes_closed [OF assms(3,2)] by blast
  then show ?thesis
    by (simp add: parse_header [OF assms(1)] parse_options_plain [OF assms(2)])
qed

lemma wire_roundtrip_closed:
  "packet_ok p \<Longrightarrow> pk_options p = os @ [end_option] \<Longrightarrow> list_all option_plain os \<Longrightarrow> parse (to_bytes p) = Some p"
  using wire_roundtrip [of p os] by (metis dhcp_packet.surjective dhcp_packet.update_convs(15))

lemma parse_packet_ok: "parse bs = Some p \<Longrightarrow> packet_ok p"
  by (auto simp: parse_def packet_ok_def slice_def split: if_splits)

section \<open>Properties\<close>

text \<open>
  C11. Serialising a message and parsing the bytes gives the message back, with the end option
  made explicit, for every message whose options have plain codes and at most 255 bytes each,
  whatever the padding.
\<close>

theorem parse_to_bytes:
  assumes "packet_ok p" "list_all option_plain os" "pk_options p = os \<or> pk_options p = os @ [end_option]"
  shows "parse (to_bytes p) = Some (p\<lparr>pk_options := os @ [end_option]\<rparr>)"
  by (rule wire_roundtrip [OF assms])

definition ex_packet :: dhcp_packet where
  "ex_packet = \<lparr>pk_op = 1, pk_htype = 1, pk_hlen = 6, pk_hops = 0, pk_xid = 0x12345678, pk_secs = 0,
     pk_flags = 0x8000, pk_ciaddr = 0, pk_yiaddr = 0, pk_siaddr = 0, pk_giaddr = 0,
     pk_chaddr = [0xaa, 0xbb, 0xcc, 0xdd, 0xee, 0xff] @ replicate 10 0,
     pk_sname = replicate 64 0, pk_file = replicate 128 0,
     pk_options = [message_type_option Discover, string_option OPT_HOSTNAME ''host1'', end_option]\<rparr>"

theorem parse_to_bytes_witness: "packet_ok ex_packet \<and> parse (to_bytes ex_packet) = Some ex_packet"
proof -
  let ?os = "[message_type_option Discover, string_option OPT_HOSTNAME ''host1'']"
  have ok: "packet_ok ex_packet"
    by (simp add: packet_ok_def ex_packet_def)
  have plain: "list_all option_plain ?os"
    by (simp add: option_plain_def message_type_option_def string_option_def as_bytes_def)
  have os: "pk_options ex_packet = ?os @ [end_option]"
    by (simp add: ex_packet_def)
  show ?thesis
    using parse_to_bytes [OF ok plain disjI2 [OF os]] os ok by simp
qed

text \<open>
  C12. The classless-routes option aborts the server for a route whose destination is an address
  with a prefix length from 33 to 248; for a well-formed destination it is the prefix length, the
  significant octets and the gateway.
\<close>

theorem route_bytes_prefix:
  assumes "parse_ipv4 a = Some dest" "parse_uint 256 n = Some k"
    "CHR ''/'' \<notin> set a" "CHR ''/'' \<notin> set n"
  shows "route_bytes (a @ ''/'' @ n) gw =
     (if k \<le> 32 then Some (of_nat k # take ((k + 7) div 8) (octets dest) @ octets gw)
      else if k \<le> 248 then None
      else Some (of_nat k # octets gw))"
proof -
  have "split_char CHR ''/'' (a @ ''/'' @ n) = [a, n]"
    using split_join [of "[a, n]" "CHR ''/''"] assms(3,4) by simp
  moreover have "k < 256"
    using assms(2) by (auto simp: parse_uint_def Let_def split: if_splits)
  then have "unat ((of_nat k + 7 :: u8) div 8) = (k + 7) mod 256 div 8"
    by (simp add: unat_div_distrib unat_word_ariths unat_of_nat)
  moreover have "(k + 7) mod 256 div 8 = (if k \<le> 248 then (k + 7) div 8 else 0)"
    using \<open>k < 256\<close> by (auto simp: mod_if)
  ultimately show ?thesis
    using assms(1,2) \<open>k < 256\<close> by (auto simp: route_bytes_def Let_def)
qed

theorem route_bytes_prefix_witness:
  "route_bytes ''10.0.0.0/33'' 0x0A000001 = None \<and>
   route_bytes ''10.0.0.0/8'' 0x0A000001 = Some [8, 10, 10, 0, 0, 1]"
proof -
  have side: "parse_ipv4 ''10.0.0.0'' = Some 0x0A000000" "parse_uint 256 ''33'' = Some 33"
    "parse_uint 256 ''8'' = Some 8" "octets 0x0A000000 = [10, 0, 0, 0]" "octets 0x0A000001 = [10, 0, 0, 1]"
    by code_simp+
  show ?thesis
    using route_bytes_prefix [OF side(1,2), of "0x0A000001"] route_bytes_prefix [OF side(1,3), of "0x0A000001"]
    by (simp add: side)
qed

lemma msg_type_roundtrip: "msg_type_from_u8 v = Some t \<longleftrightarrow> v = msg_type_u8 t"
  by (cases t) (auto simp: msg_type_from_u8_def)

end
