(* ===== verification/Leases.thy ===== *)
theory Leases
  imports Db
begin

text \<open>
  The lease store of the DHCP servers, \<^verbatim>\<open>crates/microdns-dhcp/src/lease.rs\<close>: a table of
  leases with an index by MAC address and one by IP address. The clock and the fresh UUID are
  arguments.
\<close>

section \<open>Model\<close>

definition new_lease :: "uuid \<Rightarrow> instant \<Rightarrow> string \<Rightarrow> string \<Rightarrow> string option \<Rightarrow> u32 \<Rightarrow> string \<Rightarrow> lease" where
  "new_lease fresh now ip mac host secs pool =
     \<lparr>l_id = fresh, l_ip_addr = ip, l_mac_addr = mac, l_hostname = host, l_lease_start = now,
      l_lease_end = now + seconds (uint secs), l_pool_id = pool, l_state = Active\<rparr>"

definition store_new_lease :: "lease \<Rightarrow> db \<Rightarrow> db" where
  "store_new_lease l d =
     d\<lparr>leases := tbl_insert (l_id l) l (leases d),
       mac_lease_index := tbl_insert (l_mac_addr l) (l_id l) (mac_lease_index d),
       ip_lease_index := tbl_insert (l_ip_addr l) (l_id l) (ip_lease_index d)\<rparr>"

definition create_lease ::
  "uuid \<Rightarrow> instant \<Rightarrow> string \<Rightarrow> string \<Rightarrow> string option \<Rightarrow> u32 \<Rightarrow> string \<Rightarrow> lease db_txn" where
  "create_lease fresh now ip mac host secs pool d =
     (let l = new_lease fresh now ip mac host secs pool
      in case tbl_get (mac_lease_index d) mac of
           Some old_id \<Rightarrow>
             (case tbl_get (leases d) old_id of
                Some old \<Rightarrow>
                  (let updated = new_lease (l_id old) now ip mac host secs pool;
                       idx = (if l_ip_addr old \<noteq> ip
                              then tbl_insert ip old_id (tbl_remove (l_ip_addr old) (ip_lease_index d))
                              else ip_lease_index d)
                   in (Inr updated, d\<lparr>leases := tbl_insert old_id updated (leases d), ip_lease_index := idx\<rparr>))
              | None \<Rightarrow> (Inr l, store_new_lease l d))
         | None \<Rightarrow> (Inr l, store_new_lease l d))"

abbreviation active_at :: "instant \<Rightarrow> lease \<Rightarrow> bool" where
  "active_at now l \<equiv> l_state l = Active \<and> l_lease_end l > now"

definition find_lease_by_mac :: "instant \<Rightarrow> db \<Rightarrow> string \<Rightarrow> lease option" where
  "find_lease_by_mac now d mac =
     (case tbl_get (mac_lease_index d) mac of
        None \<Rightarrow> None
      | Some i \<Rightarrow> (case tbl_get (leases d) i of
                     Some l \<Rightarrow> if active_at now l then Some l else None
                   | None \<Rightarrow> None))"

definition release_lease_by_mac :: "string \<Rightarrow> unit db_txn" where
  "release_lease_by_mac mac d =
     (case tbl_get (mac_lease_index d) mac of
        None \<Rightarrow> (Inr (), d)
      | Some i \<Rightarrow>
          (case tbl_get (leases d) i of
             Some l \<Rightarrow> (Inr (), d\<lparr>leases := tbl_insert i (l\<lparr>l_state := Released\<rparr>) (leases d)\<rparr>)
           | None \<Rightarrow> (Inr (), d)))"

definition list_active_leases :: "instant \<Rightarrow> db \<Rightarrow> lease list" where
  "list_active_leases now d = filter (active_at now) (tbl_values (leases d))"

definition expired_before :: "instant \<Rightarrow> db \<Rightarrow> (string \<times> lease) list" where
  "expired_before cutoff d =
     filter (\<lambda>(_, l). l_lease_end l < cutoff \<and> (l_state l = Released \<or> l_state l = Active)) (tbl_iter (leases d))"

definition drop_lease :: "string \<times> lease \<Rightarrow> db \<Rightarrow> db" where
  "drop_lease e d =
     d\<lparr>leases := tbl_remove (fst e) (leases d),
       mac_lease_index := tbl_remove (l_mac_addr (snd e)) (mac_lease_index d),
       ip_lease_index := tbl_remove (l_ip_addr (snd e)) (ip_lease_index d)\<rparr>"

definition purge_expired_leases :: "instant \<Rightarrow> int \<Rightarrow> nat db_txn" where
  "purge_expired_leases now retention d =
     (let es = expired_before (now - retention) d in (Inr (length es), fold drop_lease es d))"

definition purge_expired_leases_with_details :: "instant \<Rightarrow> int \<Rightarrow> (string \<times> string) list db_txn" where
  "purge_expired_leases_with_details now retention d =
     (let es = expired_before (now - retention) d
      in (Inr (map (\<lambda>(_, l). (l_ip_addr l, l_mac_addr l)) es), fold drop_lease es d))"

definition drop_orphan :: "string \<times> lease \<Rightarrow> db \<Rightarrow> db" where
  "drop_orphan e d =
     (let d1 = d\<lparr>leases := tbl_remove (fst e) (leases d)\<rparr>
      in if tbl_get (ip_lease_index d1) (l_ip_addr (snd e)) = Some (fst e)
         then d1\<lparr>ip_lease_index := tbl_remove (l_ip_addr (snd e)) (ip_lease_index d1)\<rparr>
         else d1)"

definition purge_orphaned_leases :: "nat db_txn" where
  "purge_orphaned_leases d =
     (let indexed = tbl_values (mac_lease_index d);
          orphans = filter (\<lambda>(i, _). i \<notin> set indexed) (tbl_iter (leases d))
      in (Inr (length orphans), fold drop_orphan orphans d))"

section \<open>The invariant\<close>

text \<open>
  One lease per MAC address: the MAC index maps exactly the addresses with a lease to its id.
\<close>

definition lease_inv :: "db \<Rightarrow> bool" where
  "lease_inv d \<longleftrightarrow> tbl_ok (leases d) \<and> tbl_ok (mac_lease_index d) \<and>
     (\<forall>i l. tbl_get (leases d) i = Some l \<longrightarrow> l_id l = i \<and> tbl_get (mac_lease_index d) (l_mac_addr l) = Some i) \<and>
     (\<forall>m i. tbl_get (mac_lease_index d) m = Some i \<longrightarrow> (\<exists>l. tbl_get (leases d) i = Some l \<and> l_mac_addr l = m))"

lemma lease_invD:
  assumes "lease_inv d"
  shows "tbl_ok (leases d)" "tbl_ok (mac_lease_index d)"
    and "tbl_get (leases d) i = Some l \<Longrightarrow> l_id l = i"
    and "tbl_get (leases d) i = Some l \<Longrightarrow> tbl_get (mac_lease_index d) (l_mac_addr l) = Some i"
    and "tbl_get (mac_lease_index d) m = Some i \<Longrightarrow> \<exists>l. tbl_get (leases d) i = Some l \<and> l_mac_addr l = m"
  using assms unfolding lease_inv_def by blast+

lemma lease_inv_open: "lease_inv db_open"
  by (simp add: lease_inv_def db_open_def)

lemma lease_inv_mac:
  assumes "lease_inv d" "tbl_get (leases d) i = Some l" "tbl_get (leases d) j = Some k"
    and "l_mac_addr l = l_mac_addr k"
  shows "i = j"
  using lease_invD(4) [OF assms(1,2)] lease_invD(4) [OF assms(1,3)] assms(4) by simp

lemma lease_invI:
  assumes "tbl_ok (leases d)" "tbl_ok (mac_lease_index d)"
    and "\<And>i l. tbl_get (leases d) i = Some l \<Longrightarrow> l_id l = i \<and> tbl_get (mac_lease_index d) (l_mac_addr l) = Some i"
    and "\<And>m i. tbl_get (mac_lease_index d) m = Some i \<Longrightarrow> \<exists>l. tbl_get (leases d) i = Some l \<and> l_mac_addr l = m"
  shows "lease_inv d"
  using assms unfolding lease_inv_def by blast

lemma lease_inv_update:
  assumes inv: "lease_inv d" and old: "tbl_get (leases d) i = Some old"
    and new: "l_id l = i" "l_mac_addr l = l_mac_addr old"
  shows "lease_inv (d\<lparr>leases := tbl_insert i l (leases d), ip_lease_index := x\<rparr>)"
proof (rule lease_invI)
  fix m j
  assume "tbl_get (mac_lease_index (d\<lparr>leases := tbl_insert i l (leases d), ip_lease_index := x\<rparr>)) m = Some j"
  then obtain k where "tbl_get (leases d) j = Some k" "l_mac_addr k = m"
    using lease_invD(5) [OF inv, of m j] by auto
  with old new show "\<exists>k. tbl_get (leases (d\<lparr>leases := tbl_insert i l (leases d), ip_lease_index := x\<rparr>)) j = Some k \<and> l_mac_addr k = m"
    by auto
qed (use lease_invD(1-4) [OF inv] old new in \<open>auto split: if_splits\<close>)

lemma store_new_lease_inv:
  assumes inv: "lease_inv d" and fresh: "tbl_get (leases d) (l_id l) = None"
    and free: "\<And>i. tbl_get (mac_lease_index d) (l_mac_addr l) = Some i \<Longrightarrow> tbl_get (leases d) i = None"
  shows "lease_inv (store_new_lease l d)"
proof -
  have "tbl_get (mac_lease_index d) (l_mac_addr l) = None"
    using free lease_invD(5) [OF inv, of "l_mac_addr l"] by (cases "tbl_get (mac_lease_index d) (l_mac_addr l)") auto
  moreover from this have "l_mac_addr k \<noteq> l_mac_addr l" if "tbl_get (leases d) i = Some k" for i k
    using lease_invD(4) [OF inv that] by auto
  ultimately show ?thesis
    using lease_invD [OF inv] fresh
    by (intro lease_invI) (auto simp: store_new_lease_def split: if_splits, fastforce)
qed

lemma create_lease_inv:
  assumes inv: "lease_inv d" and fresh: "tbl_get (leases d) fresh = None"
  shows "lease_inv (snd (create_lease fresh now ip mac host secs pool d))"
proof (cases "tbl_get (mac_lease_index d) mac")
  case None
  with assms show ?thesis
    using store_new_lease_inv [OF inv, of "new_lease fresh now ip mac host secs pool"]
    by (simp add: create_lease_def Let_def new_lease_def)
next
  case (Some i)
  then obtain old where old: "tbl_get (leases d) i = Some old" "l_mac_addr old = mac"
    using lease_invD(5) [OF inv] by blast
  with Some lease_inv_update [OF inv old(1), of "new_lease i now ip mac host secs pool"]
    lease_invD(3) [OF inv old(1)]
  show ?thesis
    by (simp add: create_lease_def Let_def new_lease_def)
qed

lemma release_lease_inv: "lease_inv d \<Longrightarrow> lease_inv (snd (release_lease_by_mac mac d))"
  using lease_inv_update [of d _ _ "_\<lparr>l_state := Released\<rparr>" "ip_lease_index d"]
  by (auto simp: release_lease_by_mac_def lease_invD(3) split: option.splits)

lemma drop_lease_inv:
  assumes inv: "lease_inv d" and l: "tbl_get (leases d) i = Some l"
  shows "lease_inv (drop_lease (i, l) d)"
proof -
  have "l_mac_addr k \<noteq> l_mac_addr l" if "tbl_get (leases d) j = Some k" "j \<noteq> i" for j k
    using lease_inv_mac [OF inv that(1) l] that(2) by blast
  then show ?thesis
    using lease_invD [OF inv] l
    by (intro lease_invI) (auto simp: drop_lease_def split: if_splits, fastforce)
qed

lemma drop_leases_inv:
  assumes "lease_inv d" "distinct (map fst es)" "\<forall>(i, l) \<in> set es. tbl_get (leases d) i = Some l"
  shows "lease_inv (fold drop_lease es d) \<and>
         (\<forall>i. tbl_get (leases (fold drop_lease es d)) i = (if i \<in> fst ` set es then None else tbl_get (leases d) i))"
  using assms
proof (induction es arbitrary: d)
  case (Cons e es)
  obtain i l where e: "e = (i, l)"
    by (cases e)
  have "lease_inv (drop_lease (i, l) d)"
    using Cons.prems e by (intro drop_lease_inv) auto
  moreover have "\<forall>(j, k) \<in> set es. tbl_get (leases (drop_lease (i, l) d)) j = Some k"
    using Cons.prems e by (force simp: drop_lease_def)
  ultimately show ?case
    using Cons.IH [of "drop_lease (i, l) d"] Cons.prems(2) e by (auto simp: drop_lease_def)
qed simp

lemma expired_before_facts:
  assumes "lease_inv d"
  shows "distinct (map fst (expired_before c d))"
    and "(i, l) \<in> set (expired_before c d) \<longleftrightarrow> tbl_get (leases d) i = Some l \<and> l_lease_end l < c \<and>
           (l_state l = Released \<or> l_state l = Active)"
proof -
  note ok = lease_invD(1) [OF assms]
  show "distinct (map fst (expired_before c d))"
    unfolding expired_before_def by (rule distinct_map_filter [OF redb.iter_distinct [OF ok]])
  show "(i, l) \<in> set (expired_before c d) \<longleftrightarrow> tbl_get (leases d) i = Some l \<and> l_lease_end l < c \<and>
           (l_state l = Released \<or> l_state l = Active)"
    using redb.iter_get [OF ok] by (auto simp: expired_before_def)
qed

section \<open>Runs of the lease store\<close>

inductive lease_step :: "db \<Rightarrow> db \<Rightarrow> bool" where
  leased: "tbl_get (leases d) fresh = None \<Longrightarrow>
    lease_step d (snd (create_lease fresh now ip mac host secs pool d))"
| released: "lease_step d (snd (release_lease_by_mac mac d))"
| purged: "lease_step d (snd (purge_expired_leases now retention d))"
| purged_detailed: "lease_step d (snd (purge_expired_leases_with_details now retention d))"
| orphans_purged: "lease_step d (snd (purge_orphaned_leases d))"

inductive lease_reachable :: "db \<Rightarrow> bool" where
  no_leases: "lease_reachable db_open"
| lease_next: "lease_reachable d \<Longrightarrow> lease_step d d' \<Longrightarrow> lease_reachable d'"

lemma purge_inv:
  assumes "lease_inv d"
  shows "lease_inv (fold drop_lease (expired_before c d) d)"
    and "tbl_get (leases (fold drop_lease (expired_before c d) d)) i =
           (if i \<in> fst ` set (expired_before c d) then None else tbl_get (leases d) i)"
proof -
  have "\<forall>(i, l) \<in> set (expired_before c d). tbl_get (leases d) i = Some l"
    using expired_before_facts(2) [OF assms] by blast
  from drop_leases_inv [OF assms expired_before_facts(1) [OF assms] this]
  show "lease_inv (fold drop_lease (expired_before c d) d)"
    and "tbl_get (leases (fold drop_lease (expired_before c d) d)) i =
           (if i \<in> fst ` set (expired_before c d) then None else tbl_get (leases d) i)"
    by blast+
qed

lemma no_orphans:
  assumes "lease_inv d"
  shows "purge_orphaned_leases d = (Inr 0, d)"
proof -
  have "i \<in> set (tbl_values (mac_lease_index d))" if "(i, l) \<in> set (tbl_iter (leases d))" for i l
  proof -
    have "tbl_get (leases d) i = Some l"
      using that redb.iter_get [OF lease_invD(1) [OF assms]] by simp
    from lease_invD(4) [OF assms this] show ?thesis
      using lease_invD(2) [OF assms] by (auto simp: tbl_values_iff)
  qed
  then have "filter (\<lambda>(i, _). i \<notin> set (tbl_values (mac_lease_index d))) (tbl_iter (leases d)) = []"
    by (auto simp: filter_empty_conv)
  then show ?thesis
    by (simp add: purge_orphaned_leases_def)
qed

lemma lease_step_inv: "lease_step d d' \<Longrightarrow> lease_inv d \<Longrightarrow> lease_inv d'"
  by (induction rule: lease_step.induct)
     (auto simp: create_lease_inv release_lease_inv purge_inv no_orphans
        purge_expired_leases_def purge_expired_leases_with_details_def Let_def)

lemma reachable_lease_inv: "lease_reachable d \<Longrightarrow> lease_inv d"
  by (induction rule: lease_reachable.induct) (auto intro: lease_inv_open lease_step_inv)

lemma find_lease_iff:
  assumes "lease_inv d"
  shows "find_lease_by_mac now d mac = Some l \<longleftrightarrow>
           tbl_get (leases d) (l_id l) = Some l \<and> l_mac_addr l = mac \<and> active_at now l"
proof
  assume "find_lease_by_mac now d mac = Some l"
  then obtain i where i: "tbl_get (mac_lease_index d) mac = Some i" "tbl_get (leases d) i = Some l" "active_at now l"
    by (auto simp: find_lease_by_mac_def split: option.splits if_splits)
  with lease_invD(5) [OF assms i(1)] lease_invD(3) [OF assms i(2)]
  show "tbl_get (leases d) (l_id l) = Some l \<and> l_mac_addr l = mac \<and> active_at now l"
    by auto
next
  assume "tbl_get (leases d) (l_id l) = Some l \<and> l_mac_addr l = mac \<and> active_at now l"
  with lease_invD(4) [OF assms, of "l_id l" l] show "find_lease_by_mac now d mac = Some l"
    by (auto simp: find_lease_by_mac_def)
qed

lemma list_active_iff:
  assumes "lease_inv d"
  shows "l \<in> set (list_active_leases now d) \<longleftrightarrow> tbl_get (leases d) (l_id l) = Some l \<and> active_at now l"
  using lease_invD(1,3) [OF assms] by (auto simp: list_active_leases_def tbl_values_iff)

lemma create_lease_result:
  assumes "lease_inv d" "tbl_get (leases d) fresh = None"
  shows "\<exists>i. fst (create_lease fresh now ip mac host secs pool d) = Inr (new_lease i now ip mac host secs pool) \<and>
    (\<forall>j. tbl_get (leases (snd (create_lease fresh now ip mac host secs pool d))) j =
           (if j = i then Some (new_lease i now ip mac host secs pool) else tbl_get (leases d) j)) \<and>
    (\<forall>k. tbl_get (leases d) i = Some k \<longrightarrow> l_mac_addr k = mac)"
proof (cases "tbl_get (mac_lease_index d) mac")
  case None
  then show ?thesis
    using assms by (intro exI [of _ fresh]) (simp add: create_lease_def Let_def new_lease_def store_new_lease_def)
next
  case (Some i)
  then obtain old where old: "tbl_get (leases d) i = Some old" "l_mac_addr old = mac"
    using lease_invD(5) [OF assms(1)] by blast
  with Some lease_invD(3) [OF assms(1) old(1)] show ?thesis
    by (intro exI [of _ i]) (simp add: create_lease_def Let_def new_lease_def)
qed

lemma create_lease_lookup:
  assumes "lease_inv d" "tbl_get (leases d) fresh = None"
  shows "let (res, d') = create_lease fresh now ip mac host secs pool d
         in \<exists>l. res = Inr l \<and> l_ip_addr l = ip \<and> l_mac_addr l = mac \<and> l_lease_end l = now + seconds (uint secs) \<and>
              find_lease_by_mac t d' mac = (if t < now + seconds (uint secs) then Some l else None) \<and>
              (m \<noteq> mac \<longrightarrow> find_lease_by_mac t d' m = find_lease_by_mac t d m)"
proof -
  note inv = assms(1)
  note inv' = create_lease_inv [OF inv assms(2), of now ip mac host secs pool]
  obtain i where i: "fst (create_lease fresh now ip mac host secs pool d) = Inr (new_lease i now ip mac host secs pool)"
    "\<forall>j. tbl_get (leases (snd (create_lease fresh now ip mac host secs pool d))) j =
       (if j = i then Some (new_lease i now ip mac host secs pool) else tbl_get (leases d) j)"
    "\<forall>k. tbl_get (leases d) i = Some k \<longrightarrow> l_mac_addr k = mac"
    using create_lease_result [OF inv assms(2), of now ip mac host secs pool] by (elim exE conjE)
  define l where "l = new_lease i now ip mac host secs pool"
  have fields: "l_id l = i" "l_ip_addr l = ip" "l_mac_addr l = mac" "l_lease_end l = now + seconds (uint secs)"
    "l_state l = Active"
    by (simp_all add: l_def new_lease_def)
  let ?d = "snd (create_lease fresh now ip mac host secs pool d)"
  have get: "tbl_get (leases ?d) j = (if j = i then Some l else tbl_get (leases d) j)" for j
    using i(2) by (simp add: l_def)
  have own: "find_lease_by_mac t ?d mac = Some k \<longleftrightarrow> k = l \<and> t < now + seconds (uint secs)" for k
  proof -
    have "k = l" if k: "tbl_get (leases ?d) (l_id k) = Some k" "l_mac_addr k = mac"
    proof -
      have "l_id k = i"
        using lease_inv_mac [OF inv' k(1), of i l] get [of i] fields(3) k(2) by simp
      with get [of "l_id k"] k(1) show ?thesis
        by simp
    qed
    moreover have "tbl_get (leases ?d) (l_id l) = Some l" "l_mac_addr l = mac"
      using get [of i] fields(1,3) by simp_all
    ultimately have "tbl_get (leases ?d) (l_id k) = Some k \<and> l_mac_addr k = mac \<longleftrightarrow> k = l"
      by blast
    then have "find_lease_by_mac t ?d mac = Some k \<longleftrightarrow> k = l \<and> l_state k = Active \<and> l_lease_end k > t"
      unfolding find_lease_iff [OF inv'] by blast
    with fields(4,5) show ?thesis
      by auto
  qed
  have other: "find_lease_by_mac t ?d m = Some k \<longleftrightarrow> find_lease_by_mac t d m = Some k" if "m \<noteq> mac" for k
  proof -
    have "tbl_get (leases ?d) (l_id k) = Some k \<and> l_mac_addr k = m \<longleftrightarrow>
          tbl_get (leases d) (l_id k) = Some k \<and> l_mac_addr k = m"
      using get [of "l_id k"] i(3) fields(3) that by (cases "l_id k = i") auto
    then show ?thesis
      unfolding find_lease_iff [OF inv'] find_lease_iff [OF inv] by (simp only: conj_assoc [symmetric])
  qed
  have "find_lease_by_mac t ?d mac = (if t < now + seconds (uint secs) then Some l else None)"
    by (rule option_eqI) (auto simp: own)
  moreover have "find_lease_by_mac t ?d m = find_lease_by_mac t d m" if "m \<noteq> mac"
    using other [OF that] by (rule option_eqI)
  ultimately show ?thesis
    using i(1) fields by (simp add: split_beta Let_def l_def)
qed

section \<open>Properties\<close>

text \<open>
  C13. In every store the operations can reach, the MAC index is exact: a MAC address has at most
  one lease, and the index names it.
\<close>

theorem lease_reachable_inv: "lease_reachable d \<Longrightarrow> lease_inv d"
  by (rule reachable_lease_inv)

definition ex_leases :: db where
  "ex_leases = snd (create_lease ''l1'' 0 ''10.0.10.100'' ''aa:bb:cc:dd:ee:ff'' (Some ''host1'') 3600 ''lan'' db_open)"

lemma ex_leases_reachable: "lease_reachable ex_leases"
  unfolding ex_leases_def
  by (rule lease_next [OF no_leases leased]) (simp add: db_open_def)

theorem lease_reachable_inv_witness: "lease_reachable ex_leases \<and> lease_inv ex_leases \<and> leases ex_leases \<noteq> []"
proof -
  have "leases ex_leases \<noteq> []"
    by code_simp
  then show ?thesis
    using lease_reachable_inv [OF ex_leases_reachable] ex_leases_reachable by blast
qed

text \<open>
  A granted lease is the one its client is later found with until it ends, renewals included,
  and granting it does not change what any other client is found with.
\<close>

theorem create_lease_found:
  assumes "lease_reachable d" "tbl_get (leases d) fresh = None"
  shows "let (res, d') = create_lease fresh now ip mac host secs pool d
         in \<exists>l. res = Inr l \<and> l_ip_addr l = ip \<and> l_mac_addr l = mac \<and> l_lease_end l = now + seconds (uint secs) \<and>
              find_lease_by_mac t d' mac = (if t < now + seconds (uint secs) then Some l else None) \<and>
              (m \<noteq> mac \<longrightarrow> find_lease_by_mac t d' m = find_lease_by_mac t d m)"
  by (rule create_lease_lookup [OF reachable_lease_inv [OF assms(1)] assms(2)])

theorem create_lease_found_witness:
  "lease_reachable ex_leases \<and>
   find_lease_by_mac 5 (snd (create_lease ''l2'' 1 ''10.0.10.101'' ''11:22:33:44:55:66'' None 60 ''lan'' ex_leases)) ''aa:bb:cc:dd:ee:ff''
     = find_lease_by_mac 5 ex_leases ''aa:bb:cc:dd:ee:ff'' \<and>
   find_lease_by_mac 5 ex_leases ''aa:bb:cc:dd:ee:ff'' \<noteq> None"
proof -
  have "tbl_get (leases ex_leases) ''l2'' = None" "find_lease_by_mac 5 ex_leases ''aa:bb:cc:dd:ee:ff'' \<noteq> None"
    by code_simp+
  then show ?thesis
    using create_lease_found [OF ex_leases_reachable, of "''l2''" 1 "''10.0.10.101''" "''11:22:33:44:55:66''"
        None 60 "''lan''" 5 "''aa:bb:cc:dd:ee:ff''"] ex_leases_reachable
    by (auto simp: split_beta Let_def)
qed



end
