(* ===== verification/Db_Abs.thy ===== *)
theory Db_Abs
  imports Db_Run
begin

text \<open>
  The abstract store behind the tables: the zones by id and the set of records, with no index, no
  keys and no order. Every writing operation of the database implements the corresponding abstract
  one, and the lookups read the abstract store; the clients of the database reason with the
  Hoare-style rules at the end.
\<close>

section \<open>The abstract store\<close>

record store =
  s_zones :: "uuid \<Rightarrow> zone option"
  s_rows :: "dns_record set"

definition abs_db :: "db \<Rightarrow> store" where
  "abs_db d = \<lparr>s_zones = get_zone d, s_rows = rows d\<rparr>"

datatype db_op =
    CreateZone zone
  | UpsertZone zone
  | DeleteZone uuid
  | EmptyZone uuid
  | ReplaceZone uuid "dns_record list"
  | BumpSerial string instant uuid
  | CreateRecord dns_record
  | UpdateRecord dns_record
  | DeleteRecord uuid

fun run_op :: "db_op \<Rightarrow> unit db_txn" where
  "run_op (CreateZone z) = create_zone (z_name z) z"
| "run_op (UpsertZone z) = upsert_zone z"
| "run_op (DeleteZone zid) = delete_zone zid"
| "run_op (EmptyZone zid) = bindE (delete_zone_records zid) (\<lambda>_. returnE ())"
| "run_op (ReplaceZone zid rs) = replace_zone_records zid rs"
| "run_op (BumpSerial today now zid) = increment_soa_serial today now zid"
| "run_op (CreateRecord r) = create_record r"
| "run_op (UpdateRecord r) = update_record r"
| "run_op (DeleteRecord rid) = delete_record rid"

definition named :: "store \<Rightarrow> string \<Rightarrow> zone \<Rightarrow> bool" where
  "named s n z \<longleftrightarrow> s_zones s (z_id z) = Some z \<and> z_name z = n"

definition with_serial :: "string \<Rightarrow> instant \<Rightarrow> zone \<Rightarrow> zone" where
  "with_serial today now z =
     z\<lparr>z_soa := (z_soa z)\<lparr>serial := bump_serial today (serial (z_soa z))\<rparr>, z_updated_at := now\<rparr>"

text \<open>What each operation is meant to do.\<close>

fun spec_op :: "db_op \<Rightarrow> store \<Rightarrow> (error + unit) \<times> store" where
  "spec_op (CreateZone z) s =
     (if \<exists>z'. named s (z_name z) z' then (Inl (DuplicateZone (z_name z)), s)
      else (Inr (), s\<lparr>s_zones := (s_zones s)(z_id z \<mapsto> z)\<rparr>))"
| "spec_op (UpsertZone z) s = (Inr (), s\<lparr>s_zones := (s_zones s)(z_id z \<mapsto> z)\<rparr>)"
| "spec_op (DeleteZone zid) s =
     (if s_zones s zid = None then (Inl (ZoneNotFound zid), s)
      else (Inr (), \<lparr>s_zones = (s_zones s)(zid := None), s_rows = {r \<in> s_rows s. r_zone_id r \<noteq> zid}\<rparr>))"
| "spec_op (EmptyZone zid) s = (Inr (), s\<lparr>s_rows := {r \<in> s_rows s. r_zone_id r \<noteq> zid}\<rparr>)"
| "spec_op (ReplaceZone zid rs) s = (Inr (), s\<lparr>s_rows := {r \<in> s_rows s. r_zone_id r \<noteq> zid} \<union> set rs\<rparr>)"
| "spec_op (BumpSerial today now zid) s =
     (case s_zones s zid of
        None \<Rightarrow> (Inl (ZoneNotFound zid), s)
      | Some z \<Rightarrow> (Inr (), s\<lparr>s_zones := (s_zones s)(zid \<mapsto> with_serial today now z)\<rparr>))"
| "spec_op (CreateRecord r) s = (Inr (), s\<lparr>s_rows := insert r (s_rows s)\<rparr>)"
| "spec_op (UpdateRecord r) s =
     (if \<exists>old \<in> s_rows s. r_id old = r_id r
      then (Inr (), s\<lparr>s_rows := insert r {x \<in> s_rows s. r_id x \<noteq> r_id r}\<rparr>)
      else (Inl (RecordNotFound (r_id r)), s))"
| "spec_op (DeleteRecord rid) s =
     (if \<exists>r \<in> s_rows s. r_id r = rid
      then (Inr (), s\<lparr>s_rows := {x \<in> s_rows s. r_id x \<noteq> rid}\<rparr>)
      else (Inl (RecordNotFound rid), s))"

text \<open>What the callers provide.\<close>

fun op_ok :: "db_op \<Rightarrow> store \<Rightarrow> bool" where
  "op_ok (CreateZone z) s \<longleftrightarrow> is_uuid (z_id z) \<and> s_zones s (z_id z) = None"
| "op_ok (UpsertZone z) s \<longleftrightarrow> is_uuid (z_id z) \<and> (\<forall>z'. named s (z_name z) z' \<longrightarrow> z_id z' = z_id z)"
| "op_ok (EmptyZone zid) s \<longleftrightarrow> is_uuid zid"
| "op_ok (ReplaceZone zid rs) s \<longleftrightarrow> is_uuid zid \<and> distinct (map r_id rs) \<and>
     (\<forall>r \<in> set rs. is_uuid (r_id r) \<and> r_zone_id r = zid \<and> (\<forall>old \<in> s_rows s. r_id old = r_id r \<longrightarrow> r_zone_id old = zid))"
| "op_ok (CreateRecord r) s \<longleftrightarrow> is_uuid (r_id r) \<and> is_uuid (r_zone_id r) \<and> r_id r \<notin> r_id ` s_rows s"
| "op_ok (UpdateRecord r) s \<longleftrightarrow> (\<forall>old \<in> s_rows s. r_id old = r_id r \<longrightarrow>
     r_zone_id r = r_zone_id old \<and> r_name r = r_name old \<and> rd_type (r_data r) = rd_type (r_data old))"
| "op_ok _ s \<longleftrightarrow> True"

section \<open>Reading the abstract store\<close>

lemma rows_get:
  assumes "db_reachable d"
  shows "get_record d rid = Some r \<longleftrightarrow> r \<in> s_rows (abs_db d) \<and> r_id r = rid"
  using rec_invD(3) [OF reachable_rec_inv [OF assms], of rid r]
  by (auto simp: rows_def get_record_def abs_db_def dest: rec_invD(3) [OF reachable_rec_inv [OF assms]])

lemma rows_get_None:
  assumes "db_reachable d"
  shows "get_record d rid = None \<longleftrightarrow> rid \<notin> r_id ` s_rows (abs_db d)"
proof -
  have "(\<exists>r. get_record d rid = Some r) \<longleftrightarrow> rid \<in> r_id ` s_rows (abs_db d)"
    unfolding rows_get [OF assms] by blast
  then show ?thesis
    by (cases "get_record d rid") simp_all
qed

lemma named_get:
  assumes "db_reachable d"
  shows "get_zone_by_name d n = Some z \<longleftrightarrow> named (abs_db d) n z"
proof -
  note inv = reachable_zone_inv [OF assms]
  have "get_zone_by_name d n = Some z \<longleftrightarrow>
      (\<exists>zid. tbl_get (zone_name_index d) n = Some zid \<and> tbl_get (zones d) zid = Some z)"
    by (simp add: get_zone_by_name_def split: option.splits)
  also have "\<dots> \<longleftrightarrow> tbl_get (zones d) (z_id z) = Some z \<and> z_name z = n"
  proof
    assume "\<exists>zid. tbl_get (zone_name_index d) n = Some zid \<and> tbl_get (zones d) zid = Some z"
    then obtain zid where zid: "tbl_get (zone_name_index d) n = Some zid" "tbl_get (zones d) zid = Some z"
      by blast
    from zone_invD(6) [OF inv zid(1)] zone_invD(3) [OF inv zid(2)] zid(2)
    show "tbl_get (zones d) (z_id z) = Some z \<and> z_name z = n"
      by auto
  next
    assume z: "tbl_get (zones d) (z_id z) = Some z \<and> z_name z = n"
    then show "\<exists>zid. tbl_get (zone_name_index d) n = Some zid \<and> tbl_get (zones d) zid = Some z"
      using zone_invD(5) [OF inv, of "z_id z" z] by blast
  qed
  finally show ?thesis
    by (simp add: named_def abs_db_def get_zone_def)
qed

lemma zone_ids:
  assumes "db_reachable d" "s_zones (abs_db d) zid = Some z"
  shows "z_id z = zid" "is_uuid zid"
  using zone_invD(3,4) [OF reachable_zone_inv [OF assms(1)]] assms(2)
  by (auto simp: abs_db_def get_zone_def)

lemma row_uuids:
  assumes "db_reachable d" "r \<in> s_rows (abs_db d)"
  shows "is_uuid (r_id r)" "is_uuid (r_zone_id r)"
  using rec_invD(3,4,5) [OF reachable_rec_inv [OF assms(1)]] assms(2)
  by (auto simp: abs_db_def rows_def)

lemma query_abs:
  assumes "db_reachable d" "is_uuid zid"
  shows "r \<in> set (query_records d zid n t) \<longleftrightarrow> r \<in> s_rows (abs_db d) \<and> r_zone_id r = zid \<and>
           r_name r = n \<and> rd_type (r_data r) = t \<and> r_enabled r"
  using query_records_iff [OF reachable_rec_inv [OF assms(1)] assms(2)] by (simp add: abs_db_def)

section \<open>Every operation implements its specification\<close>

lemma run_op_step:
  assumes "db_reachable d" "op_ok op (abs_db d)"
  shows "db_reachable (snd (run_op op d))"
proof -
  have "db_step d (snd (run_op op d))"
  proof (cases op)
    case (CreateZone z)
    with assms(2) show ?thesis
      by (auto intro!: zone_created simp: abs_db_def)
  next
    case (UpsertZone z)
    with assms named_get [OF assms(1)] show ?thesis
      by (auto intro!: zone_upserted)
  next
    case (DeleteZone zid)
    then show ?thesis
      by (simp add: zone_deleted)
  next
    case (EmptyZone zid)
    with assms(2) zone_emptied [of zid d] show ?thesis
      by (auto simp: bindE_apply delete_zone_records_def Let_def)
  next
    case (ReplaceZone zid rs)
    with assms rows_get [OF assms(1)] show ?thesis
      by (auto intro!: zone_replaced)
  next
    case (BumpSerial today now zid)
    then show ?thesis
      by (simp add: serial_bumped)
  next
    case (CreateRecord r)
    with assms rows_get_None [OF assms(1)] show ?thesis
      by (auto intro!: record_created)
  next
    case (UpdateRecord r)
    with assms rows_get [OF assms(1)] show ?thesis
      by (auto intro!: record_updated)
  next
    case (DeleteRecord rid)
    then show ?thesis
      by (simp add: record_deleted)
  qed
  with assms(1) show ?thesis
    by (rule next_step)
qed

lemma abs_db_zones: "records d' = records d \<Longrightarrow> abs_db d' = (abs_db d)\<lparr>s_zones := get_zone d'\<rparr>"
  by (simp add: abs_db_def rows_def)

lemma abs_db_rows: "zones d' = zones d \<Longrightarrow> abs_db d' = (abs_db d)\<lparr>s_rows := rows d'\<rparr>"
  by (auto simp: abs_db_def get_zone_def)

lemma get_zone_upd: "zones d' = tbl_insert i z (zones d) \<Longrightarrow> get_zone d' = (get_zone d)(i \<mapsto> z)"
  by (auto simp: get_zone_def)

lemma sim_zones:
  assumes "db_reachable d" "op_ok op (abs_db d)" "op \<in> range CreateZone \<union> range UpsertZone"
  shows "spec_op op (abs_db d) = (fst (run_op op d), abs_db (snd (run_op op d)))"
proof -
  consider z where "op = CreateZone z" | z where "op = UpsertZone z"
    using assms(3) by blast
  then show ?thesis
  proof cases
    case (1 z)
    have dup: "tbl_get (zone_name_index d) (z_name z) \<noteq> None \<longleftrightarrow> (\<exists>z'. named (abs_db d) (z_name z) z')"
    proof -
      have "(\<exists>z'. get_zone_by_name d (z_name z) = Some z') \<longleftrightarrow> tbl_get (zone_name_index d) (z_name z) \<noteq> None"
        using zone_invD(6) [OF reachable_zone_inv [OF assms(1)]]
        by (auto simp: get_zone_by_name_def split: option.splits)
      then show ?thesis
        by (simp add: named_get [OF assms(1)])
    qed
    show ?thesis
    proof (cases "tbl_get (zone_name_index d) (z_name z) = None")
      case True
      let ?d = "snd (create_zone (z_name z) z d)"
      have "get_zone ?d = (get_zone d)(z_id z \<mapsto> z)" "abs_db ?d = (abs_db d)\<lparr>s_zones := get_zone ?d\<rparr>"
        using True by (auto intro!: get_zone_upd abs_db_zones simp: create_zone_def)
      with 1 True dup show ?thesis
        by (simp add: create_zone_def abs_db_def)
    next
      case False
      with 1 dup show ?thesis
        by (auto simp: create_zone_def)
    qed
  next
    case (2 z)
    let ?d = "snd (upsert_zone z d)"
    have "get_zone ?d = (get_zone d)(z_id z \<mapsto> z)" "abs_db ?d = (abs_db d)\<lparr>s_zones := get_zone ?d\<rparr>"
      by (auto intro!: get_zone_upd abs_db_zones simp: upsert_zone_def Let_def)
    with 2 show ?thesis
      by (simp add: upsert_zone_def Let_def abs_db_def)
  qed
qed

lemma sim_delete_zone:
  assumes "db_reachable d"
  shows "spec_op (DeleteZone zid) (abs_db d) = (fst (delete_zone zid d), abs_db (snd (delete_zone zid d)))"
proof (cases "tbl_get (zones d) zid")
  case None
  then show ?thesis
    by (simp add: delete_zone_def abs_db_def get_zone_def)
next
  case (Some z)
  let ?d = "d\<lparr>zones := tbl_remove zid (zones d), zone_name_index := tbl_remove (z_name z) (zone_name_index d)\<rparr>"
  let ?d' = "remove_entries (zone_index_entries ?d zid) ?d"
  have "is_uuid zid" "rec_inv ?d"
    using reachable_db_inv [OF assms] Some rec_inv_cong [of ?d d] by (auto simp: db_inv_def dest: zone_invD(4))
  then have "rows ?d' = {r \<in> rows d. r_zone_id r \<noteq> zid}"
    by (simp add: rows_remove_zone) (simp add: rows_def)
  moreover have "get_zone ?d' = (get_zone d)(zid := None)"
    by (auto simp: get_zone_def frame_simps)
  ultimately show ?thesis
    using Some by (simp add: delete_zone_def Let_def abs_db_def get_zone_def [of d zid])
qed

lemma sim_bulk:
  assumes "db_reachable d" "op_ok op (abs_db d)" "op = EmptyZone zid \<or> op = ReplaceZone zid rs"
  shows "spec_op op (abs_db d) = (fst (run_op op d), abs_db (snd (run_op op d)))"
  using assms(3)
proof
  assume op: "op = EmptyZone zid"
  let ?d = "snd (delete_zone_records zid d)"
  have "abs_db ?d = (abs_db d)\<lparr>s_rows := rows ?d\<rparr>"
    by (intro abs_db_rows) (simp add: frame_simps)
  moreover have "rows ?d = {r \<in> rows d. r_zone_id r \<noteq> zid}"
    using rows_remove_zone [OF reachable_rec_inv [OF assms(1)]] assms(2) op
    by (simp add: delete_zone_records_def Let_def)
  ultimately show ?thesis
    using op
    by (simp add: bindE_apply delete_zone_records_def Let_def abs_db_def)
next
  assume op: "op = ReplaceZone zid rs"
  note inv = reachable_rec_inv [OF assms(1)]
  have zid: "is_uuid zid" and dist: "distinct (map r_id rs)"
    using assms(2) op by simp_all
  let ?d1 = "remove_entries (zone_index_entries d zid) d"
  have old: "r_zone_id old = zid" if "r \<in> set rs" "tbl_get (records d) (r_id r) = Some old" for r old
    using assms(2) op that rec_invD(3) [OF inv that(2)] by (auto simp: abs_db_def rows_def)
  have "\<forall>r \<in> set rs. tbl_get (records ?d1) (r_id r) = None"
  proof
    fix r assume r: "r \<in> set rs"
    show "tbl_get (records ?d1) (r_id r) = None"
      using old [OF r] zone_entry_ids [OF inv zid, of "r_id r"]
      by (cases "tbl_get (records d) (r_id r)") (auto simp: remove_entries_records)
  qed
  from rows_insert_all [OF rec_inv_remove_zone [OF inv zid] dist this]
  have "rows (snd (replace_zone_records zid rs d)) = {r \<in> rows d. r_zone_id r \<noteq> zid} \<union> set rs"
    by (simp add: replace_zone_records_def rows_remove_zone [OF inv zid])
  moreover have "abs_db (snd (replace_zone_records zid rs d)) =
      (abs_db d)\<lparr>s_rows := rows (snd (replace_zone_records zid rs d))\<rparr>"
    by (intro abs_db_rows) (simp add: frame_simps)
  ultimately show ?thesis
    using op by (simp add: replace_zone_records_def abs_db_def)
qed

lemma sim_bump:
  "spec_op (BumpSerial today now zid) (abs_db d) =
     (fst (increment_soa_serial today now zid d), abs_db (snd (increment_soa_serial today now zid d)))"
proof (cases "tbl_get (zones d) zid")
  case None
  then show ?thesis
    by (simp add: increment_soa_serial_def abs_db_def get_zone_def)
next
  case (Some z)
  let ?d = "snd (increment_soa_serial today now zid d)"
  have "get_zone ?d = (get_zone d)(zid \<mapsto> with_serial today now z)" "abs_db ?d = (abs_db d)\<lparr>s_zones := get_zone ?d\<rparr>"
    using Some by (auto intro!: get_zone_upd abs_db_zones simp: increment_soa_serial_def Let_def with_serial_def)
  with Some show ?thesis
    by (simp add: increment_soa_serial_def Let_def abs_db_def get_zone_def [of d zid])
qed

lemma sim_records:
  assumes "db_reachable d" "op_ok op (abs_db d)"
    and "op \<in> range CreateRecord \<union> range UpdateRecord \<union> range DeleteRecord"
  shows "spec_op op (abs_db d) = (fst (run_op op d), abs_db (snd (run_op op d)))"
proof -
  have ids: "tbl_get (records d) rid = Some r \<longleftrightarrow> r \<in> rows d \<and> r_id r = rid" for rid r
    using rows_get [OF assms(1)] by (simp add: get_record_def abs_db_def)
  have none: "tbl_get (records d) rid = None \<longleftrightarrow> (\<forall>r \<in> rows d. r_id r \<noteq> rid)" for rid
    using rows_get_None [OF assms(1), of rid] by (auto simp: get_record_def abs_db_def)
  consider r where "op = CreateRecord r" | r where "op = UpdateRecord r" | rid where "op = DeleteRecord rid"
    using assms(3) by blast
  then show ?thesis
  proof cases
    case (1 r)
    with assms(2) have "r_id r \<notin> r_id ` rows d"
      by (simp add: abs_db_def)
    then have "tbl_get (records d) (r_id r) = None"
      unfolding none by (metis imageI)
    then have "rows (snd (create_record r d)) = insert r (rows d)"
      by (auto simp: rows_def create_record_def frame_simps) (metis option.distinct(1))
    moreover have "abs_db (snd (create_record r d)) = (abs_db d)\<lparr>s_rows := rows (snd (create_record r d))\<rparr>"
      by (intro abs_db_rows) (simp add: frame_simps)
    ultimately show ?thesis
      using 1 by (simp add: create_record_def abs_db_def)
  next
    case (2 r)
    show ?thesis
    proof (cases "tbl_get (records d) (r_id r)")
      case None
      then have "\<not> (\<exists>x \<in> s_rows (abs_db d). r_id x = r_id r)"
        using none [of "r_id r"] by (simp add: abs_db_def)
      with 2 None show ?thesis
        by (simp add: update_record_def)
    next
      case (Some old)
      then have old: "old \<in> rows d" "r_id old = r_id r"
        using ids by simp_all
      have "x \<in> rows (snd (update_record r d)) \<longleftrightarrow> x \<in> insert r {x \<in> rows d. r_id x \<noteq> r_id r}" for x
      proof -
        have "x \<in> rows (snd (update_record r d)) \<longleftrightarrow>
            (\<exists>rid. if rid = r_id r then r = x else tbl_get (records d) rid = Some x)"
          using Some by (simp add: update_record_def rows_def if_distrib cong: if_cong)
        then show ?thesis
          unfolding ids by auto
      qed
      then have "rows (snd (update_record r d)) = insert r {x \<in> rows d. r_id x \<noteq> r_id r}"
        by blast
      moreover have "abs_db (snd (update_record r d)) = (abs_db d)\<lparr>s_rows := rows (snd (update_record r d))\<rparr>"
        by (intro abs_db_rows) (simp add: frame_simps)
      ultimately have "abs_db (snd (update_record r d)) = (abs_db d)\<lparr>s_rows := insert r {x \<in> rows d. r_id x \<noteq> r_id r}\<rparr>"
        by simp
      moreover have "\<exists>x \<in> s_rows (abs_db d). r_id x = r_id r" "s_rows (abs_db d) = rows d"
        using old by (auto simp: abs_db_def)
      ultimately show ?thesis
        using 2 Some by (simp add: update_record_def)
    qed
  next
    case (3 rid)
    show ?thesis
    proof (cases "tbl_get (records d) rid")
      case None
      then have "\<not> (\<exists>x \<in> s_rows (abs_db d). r_id x = rid)"
        using none [of rid] by (simp add: abs_db_def)
      with 3 None show ?thesis
        by (simp add: delete_record_def)
    next
      case (Some old)
      then have old: "old \<in> rows d" "r_id old = rid"
        using ids by simp_all
      have "x \<in> rows (snd (delete_record rid d)) \<longleftrightarrow> x \<in> {x \<in> rows d. r_id x \<noteq> rid}" for x
      proof -
        have "x \<in> rows (snd (delete_record rid d)) \<longleftrightarrow> (\<exists>k. k \<noteq> rid \<and> tbl_get (records d) k = Some x)"
          using Some by (simp add: delete_record_def rows_def) blast
        then show ?thesis
          unfolding ids by auto
      qed
      then have "rows (snd (delete_record rid d)) = {x \<in> rows d. r_id x \<noteq> rid}"
        by blast
      moreover have "abs_db (snd (delete_record rid d)) = (abs_db d)\<lparr>s_rows := rows (snd (delete_record rid d))\<rparr>"
        by (intro abs_db_rows) (simp add: frame_simps)
      ultimately have "abs_db (snd (delete_record rid d)) = (abs_db d)\<lparr>s_rows := {x \<in> rows d. r_id x \<noteq> rid}\<rparr>"
        by simp
      moreover have "\<exists>x \<in> s_rows (abs_db d). r_id x = rid" "s_rows (abs_db d) = rows d"
        using old by (auto simp: abs_db_def)
      ultimately show ?thesis
        using 3 Some by (simp add: delete_record_def)
    qed
  qed
qed

lemma run_op_sim:
  assumes "db_reachable d" "op_ok op (abs_db d)"
  shows "spec_op op (abs_db d) = (fst (run_op op d), abs_db (snd (run_op op d)))"
  using sim_zones [OF assms] sim_delete_zone [OF assms(1)] sim_bulk [OF assms] sim_bump sim_records [OF assms]
  by (cases op) auto

section \<open>Rules for clients\<close>

text \<open>A reachable database with a given abstract store.\<close>

definition holds :: "store \<Rightarrow> db \<Rightarrow> bool" where
  "holds s d \<longleftrightarrow> db_reachable d \<and> abs_db d = s"

lemma holds_reachable: "db_reachable d \<Longrightarrow> holds (abs_db d) d"
  by (simp add: holds_def)

lemma run_op_okE:
  assumes "op_ok op s" "spec_op op s = (Inr (), s')"
  shows "okE (holds s) (run_op op) (\<lambda>_. holds s')"
proof (rule okEI)
  fix d
  assume "holds s d"
  with assms run_op_sim [of d op] run_op_step [of d op]
  show "\<exists>x d'. run_op op d = (Inr x, d') \<and> holds s' d'"
    by (intro exI [of _ "()"] exI [of _ "snd (run_op op d)"]) (auto simp: holds_def prod_eq_iff)
qed

lemmas create_record_okE = run_op_okE [where op = "CreateRecord r" for r, unfolded run_op.simps]
lemmas delete_record_okE = run_op_okE [where op = "DeleteRecord rid" for rid, unfolded run_op.simps]
lemmas create_zone_okE = run_op_okE [where op = "CreateZone z" for z, unfolded run_op.simps]
lemmas bump_serial_okE = run_op_okE [where op = "BumpSerial today now zid" for today now zid, unfolded run_op.simps]
lemmas update_record_okE = run_op_okE [where op = "UpdateRecord r" for r, unfolded run_op.simps]

lemma delete_rows_okE:
  assumes "set rs \<subseteq> s_rows s" "inj_on r_id (s_rows s)" "distinct rs"
  shows "okE (holds s) (forE rs (\<lambda>r. delete_record (r_id r))) (\<lambda>_. holds (s\<lparr>s_rows := s_rows s - set rs\<rparr>))"
proof -
  have "okE (holds (s\<lparr>s_rows := s_rows s - set []\<rparr>)) (forE rs (\<lambda>r. delete_record (r_id r)))
      (\<lambda>_. holds (s\<lparr>s_rows := s_rows s - set rs\<rparr>))"
  proof (rule okE_forE)
    fix ys r zs
    assume rs: "rs = ys @ r # zs"
    have "{x \<in> s_rows s - set ys. r_id x \<noteq> r_id r} = s_rows s - set (ys @ [r])"
      using assms(1,2) rs by (auto dest: inj_onD)
    moreover have "r \<in> s_rows s - set ys"
      using assms(1,3) rs by auto
    ultimately show "okE (holds (s\<lparr>s_rows := s_rows s - set ys\<rparr>)) (delete_record (r_id r))
        (\<lambda>_. holds (s\<lparr>s_rows := s_rows s - set (ys @ [r])\<rparr>))"
      by (intro delete_record_okE) auto
  qed
  then show ?thesis
    by simp
qed

lemma rows_inj: "db_reachable d \<Longrightarrow> inj_on r_id (s_rows (abs_db d))"
  by (rule inj_onI) (metis rows_get option.inject)

lemma query_distinct:
  assumes "db_reachable d"
  shows "distinct (query_records d zid n t)"
  using rows_of_distinct [OF reachable_rec_inv [OF assms] rec_invD(8) [OF reachable_rec_inv [OF assms], of "index_key zid n t"]]
  by (auto simp: query_records_def idx_ids_def split: option.splits)

lemma list_zones_facts:
  assumes "db_reachable d"
  shows "distinct (map z_id (list_zones d))" and "z \<in> set (list_zones d) \<Longrightarrow> is_uuid (z_id z)"
proof -
  note inv = reachable_zone_inv [OF assms]
  have ids: "z_id z = k \<and> is_uuid k" if "(k, z) \<in> set (tbl_iter (zones d))" for k z
    using that zone_invD(3,4) [OF inv] tbl_iter_get [OF zone_invD(1) [OF inv]] by blast
  then have "map z_id (list_zones d) = map fst (tbl_iter (zones d))"
    by (auto simp: list_zones_def tbl_values_def)
  then show "distinct (map z_id (list_zones d))"
    using redb.iter_distinct [OF zone_invD(1) [OF inv]] by simp
  show "z \<in> set (list_zones d) \<Longrightarrow> is_uuid (z_id z)"
    using ids by (auto simp: list_zones_def tbl_values_def)
qed

lemma list_records_distinct:
  assumes "db_reachable d"
  shows "distinct (list_records d zid)"
proof -
  note inv = reachable_rec_inv [OF assms]
  have "distinct (concat (map (\<lambda>e. rows_of d (snd e)) es))"
    if "distinct (map fst es)" "\<forall>(k, ids) \<in> set es. ids = idx_ids d k" for es
    using that
  proof (induction es)
    case (Cons e es)
    obtain k ids where e: "e = (k, ids)"
      by (cases e)
    have key: "key_of r = k'" if "(k', ids') \<in> set (e # es)" "r \<in> set (rows_of d ids')" for k' ids' r
    proof -
      have "ids' = idx_ids d k'"
        using Cons.prems(2) that(1) by auto
      with that(2) listed_iff [OF inv, of k' r] show ?thesis
        by (auto simp: set_rows_of)
    qed
    have "distinct (rows_of d ids)"
      using Cons.prems(2) e rows_of_distinct [OF inv rec_invD(8) [OF inv]] by auto
    moreover have "set (rows_of d ids) \<inter> set (concat (map (\<lambda>e. rows_of d (snd e)) es)) = {}"
    proof (rule ccontr)
      assume "\<not> ?thesis"
      then obtain r k' ids' where "r \<in> set (rows_of d ids)" "(k', ids') \<in> set es" "r \<in> set (rows_of d ids')"
        by auto
      with key [of k ids r] key [of k' ids' r] e Cons.prems(1) show False
        by (force simp: image_iff)
    qed
    moreover have "distinct (concat (map (\<lambda>e. rows_of d (snd e)) es))"
      using Cons by auto
    ultimately show ?case
      using e by simp
  qed simp
  moreover have "distinct (map fst (zone_index_entries d zid))"
    using distinct_map_filter [OF redb.iter_distinct [OF rec_invD(2) [OF inv]]]
    by (simp add: zone_index_entries_def comp_def split_beta)
  moreover have "\<forall>(k, ids) \<in> set (zone_index_entries d zid). ids = idx_ids d k"
    using zone_index_entries_iff [OF rec_invD(2) [OF inv], of _ _ zid] by (auto simp: idx_ids_def)
  ultimately show ?thesis
    by (simp add: list_records_def)
qed

section \<open>Properties\<close>

fun run_ops :: "db_op list \<Rightarrow> db \<Rightarrow> (error + unit) list \<times> db" where
  "run_ops [] d = ([], d)"
| "run_ops (op # ops) d = (let (r, d1) = run_op op d; (rs, d2) = run_ops ops d1 in (r # rs, d2))"

fun spec_ops :: "db_op list \<Rightarrow> store \<Rightarrow> (error + unit) list \<times> store" where
  "spec_ops [] s = ([], s)"
| "spec_ops (op # ops) s = (let (r, s1) = spec_op op s; (rs, s2) = spec_ops ops s1 in (r # rs, s2))"

fun ops_ok :: "db_op list \<Rightarrow> store \<Rightarrow> bool" where
  "ops_ok [] s \<longleftrightarrow> True"
| "ops_ok (op # ops) s \<longleftrightarrow> op_ok op s \<and> ops_ok ops (snd (spec_op op s))"



end
