(* ===== verification/Reverse.thy ===== *)
theory Reverse
  imports Db_Abs Addr
begin

text \<open>
  Reverse zones and PTR records, \<^verbatim>\<open>crates/microdns-core/src/reverse.rs\<close>: the owner names of
  an address, and keeping one PTR record in step with each forward address record. The body that
  the IPv4 and IPv6 functions share is written once. The clock, today's date and the fresh UUIDs
  are arguments.
\<close>

unbundle bit_operations_syntax

section \<open>Owner names\<close>

definition reverse_zone_v4 :: "ipv4 \<Rightarrow> string" where
  "reverse_zone_v4 ip =
     (let d = (\<lambda>i. nat_str (unat (octets ip ! i)))
      in d 2 @ ''.'' @ d 1 @ ''.'' @ d 0 @ ''.in-addr.arpa'')"

definition ptr_name_v4 :: "ipv4 \<Rightarrow> string" where
  "ptr_name_v4 ip = nat_str (unat (octets ip ! 3))"

definition segments :: "ipv6 \<Rightarrow> u16 list" where
  "segments ip = map (\<lambda>i. ucast (drop_bit (112 - 16 * i) ip)) [0..<8]"

definition ipv6_nibbles :: "ipv6 \<Rightarrow> string list" where
  "ipv6_nibbles ip =
     concat (map (\<lambda>s. map (\<lambda>k. [hex_digit (unat (drop_bit k s AND 0xf))]) [12, 8, 4, 0]) (segments ip))"

definition reverse_zone_v6 :: "ipv6 \<Rightarrow> string" where
  "reverse_zone_v6 ip = join_char CHR ''.'' (rev (take 16 (ipv6_nibbles ip))) @ ''.ip6.arpa''"

definition ptr_name_v6 :: "ipv6 \<Rightarrow> string" where
  "ptr_name_v6 ip = join_char CHR ''.'' (rev (drop 16 (ipv6_nibbles ip)))"

definition is_reverse_zone :: "string \<Rightarrow> bool" where
  "is_reverse_zone name =
     (let l = to_lowercase name
      in ends_with l ''.in-addr.arpa'' \<or> ends_with l ''.ip6.arpa'' \<or> l = ''in-addr.arpa'' \<or> l = ''ip6.arpa'')"

definition ptr_target :: "string \<Rightarrow> string \<Rightarrow> string" where
  "ptr_target record_name zone_name =
     (let z = trim_end_matches CHR ''.'' zone_name
      in if record_name = ''@'' then z @ ''.'' else record_name @ ''.'' @ z @ ''.'')"

section \<open>Keeping PTR records in step\<close>

definition reverse_zone_row :: "uuid \<Rightarrow> instant \<Rightarrow> string \<Rightarrow> string \<Rightarrow> zone" where
  "reverse_zone_row zid now today name =
     \<lparr>z_id = zid, z_name = name,
      z_soa = \<lparr>mname = ''ns1.'' @ name, rname = ''admin.'' @ name,
               serial = (case parse_uint (2 ^ 32) (today @ ''00'') of Some n \<Rightarrow> of_nat n | None \<Rightarrow> 1),
               refresh = 3600, retry = 900, expire = 604800, minimum = 300\<rparr>,
      z_default_ttl = 300, z_created_at = now, z_updated_at = now\<rparr>"

definition ensure_reverse_zone :: "uuid \<Rightarrow> instant \<Rightarrow> string \<Rightarrow> string \<Rightarrow> zone db_txn" where
  "ensure_reverse_zone zid now today name =
     bindE (getE (\<lambda>d. get_zone_by_name d name)) (\<lambda>found.
       case found of
         Some z \<Rightarrow> returnE z
       | None \<Rightarrow>
           (let z = reverse_zone_row zid now today name
            in thenE (create_zone name z) (returnE z)))"

definition ptr_row :: "uuid \<Rightarrow> uuid \<Rightarrow> instant \<Rightarrow> string \<Rightarrow> u32 \<Rightarrow> string \<Rightarrow> record_source \<Rightarrow> dns_record" where
  "ptr_row rid zid now name ttl target source =
     \<lparr>r_id = rid, r_zone_id = zid, r_name = name, r_ttl = ttl, r_data = RD_PTR target, r_enabled = True,
      r_health_check = None, r_source = source, r_origin = None, r_created_at = now, r_updated_at = now\<rparr>"

definition sync_ptr ::
  "uuid \<Rightarrow> uuid \<Rightarrow> instant \<Rightarrow> string \<Rightarrow> string \<Rightarrow> string \<Rightarrow> string \<Rightarrow> u32 \<Rightarrow> record_source \<Rightarrow> unit db_txn" where
  "sync_ptr zid rid now today rev_zone_name ptr_name target ttl source =
     bindE (ensure_reverse_zone zid now today rev_zone_name) (\<lambda>rev_zone.
     bindE (getE (\<lambda>d. query_records d (z_id rev_zone) ptr_name RT_PTR)) (\<lambda>existing.
       if list_ex (\<lambda>r. r_data r = RD_PTR target) existing then returnE ()
       else thenE (forE existing (\<lambda>r. delete_record (r_id r)))
           (thenE (create_record (ptr_row rid (z_id rev_zone) now ptr_name ttl target source))
             (increment_soa_serial today now (z_id rev_zone)))))"

definition sync_ptr_for_a ::
  "uuid \<Rightarrow> uuid \<Rightarrow> instant \<Rightarrow> string \<Rightarrow> string \<Rightarrow> string \<Rightarrow> ipv4 \<Rightarrow> u32 \<Rightarrow> record_source \<Rightarrow> unit db_txn" where
  "sync_ptr_for_a zid rid now today record_name forward_zone ip ttl source =
     sync_ptr zid rid now today (reverse_zone_v4 ip) (ptr_name_v4 ip) (ptr_target record_name forward_zone) ttl source"

definition sync_ptr_for_aaaa ::
  "uuid \<Rightarrow> uuid \<Rightarrow> instant \<Rightarrow> string \<Rightarrow> string \<Rightarrow> string \<Rightarrow> ipv6 \<Rightarrow> u32 \<Rightarrow> record_source \<Rightarrow> unit db_txn" where
  "sync_ptr_for_aaaa zid rid now today record_name forward_zone ip ttl source =
     sync_ptr zid rid now today (reverse_zone_v6 ip) (ptr_name_v6 ip) (ptr_target record_name forward_zone) ttl source"

definition delete_ptr :: "instant \<Rightarrow> string \<Rightarrow> string \<Rightarrow> string \<Rightarrow> string \<Rightarrow> unit db_txn" where
  "delete_ptr now today rev_zone_name ptr_name target =
     bindE (getE (\<lambda>d. get_zone_by_name d rev_zone_name)) (\<lambda>found.
       case found of
         None \<Rightarrow> returnE ()
       | Some rev_zone \<Rightarrow>
           bindE (getE (\<lambda>d. query_records d (z_id rev_zone) ptr_name RT_PTR)) (\<lambda>existing.
             forE existing (\<lambda>r.
               if r_data r = RD_PTR target
               then thenE (delete_record (r_id r)) (increment_soa_serial today now (z_id rev_zone))
               else returnE ())))"

definition delete_ptr_for_a :: "instant \<Rightarrow> string \<Rightarrow> string \<Rightarrow> string \<Rightarrow> ipv4 \<Rightarrow> unit db_txn" where
  "delete_ptr_for_a now today record_name forward_zone ip =
     delete_ptr now today (reverse_zone_v4 ip) (ptr_name_v4 ip) (ptr_target record_name forward_zone)"

definition delete_ptr_for_aaaa :: "instant \<Rightarrow> string \<Rightarrow> string \<Rightarrow> string \<Rightarrow> ipv6 \<Rightarrow> unit db_txn" where
  "delete_ptr_for_aaaa now today record_name forward_zone ip =
     delete_ptr now today (reverse_zone_v6 ip) (ptr_name_v6 ip) (ptr_target record_name forward_zone)"

definition sync_reverse_record ::
  "uuid \<Rightarrow> uuid \<Rightarrow> instant \<Rightarrow> string \<Rightarrow> string \<Rightarrow> string \<Rightarrow> record_data \<Rightarrow> u32 \<Rightarrow> record_source \<Rightarrow> unit db_txn" where
  "sync_reverse_record zid rid now today record_name forward_zone rd ttl source =
     (if is_reverse_zone forward_zone then returnE ()
      else case rd of
             RD_A ip \<Rightarrow> sync_ptr_for_a zid rid now today record_name forward_zone ip ttl source
           | RD_AAAA ip \<Rightarrow> sync_ptr_for_aaaa zid rid now today record_name forward_zone ip ttl source
           | _ \<Rightarrow> returnE ())"

definition delete_reverse_record :: "instant \<Rightarrow> string \<Rightarrow> string \<Rightarrow> string \<Rightarrow> record_data \<Rightarrow> unit db_txn" where
  "delete_reverse_record now today record_name forward_zone rd =
     (if is_reverse_zone forward_zone then returnE ()
      else case rd of
             RD_A ip \<Rightarrow> delete_ptr_for_a now today record_name forward_zone ip
           | RD_AAAA ip \<Rightarrow> delete_ptr_for_aaaa now today record_name forward_zone ip
           | _ \<Rightarrow> returnE ())"

section \<open>Facts\<close>

lemma ensure_reverse_zone_result:
  assumes "db_reachable d" "is_uuid zid" "get_zone d zid = None"
  shows "\<exists>z d'. ensure_reverse_zone zid now today name d = (Inr z, d') \<and> db_reachable d' \<and>
    s_zones (abs_db d') (z_id z) = Some z \<and> z_name z = name \<and> is_uuid (z_id z) \<and> rows d' = rows d \<and>
    dom (get_zone d) \<subseteq> dom (get_zone d')"
proof (cases "get_zone_by_name d name")
  case (Some z)
  then have "named (abs_db d) name z"
    using named_get [OF assms(1)] by simp
  with Some assms(1) zone_ids(2) [OF assms(1), of "z_id z" z] show ?thesis
    by (auto simp: ensure_reverse_zone_def bindE_apply named_def)
next
  case None
  let ?z = "reverse_zone_row zid now today name"
  have z: "z_id ?z = zid" "z_name ?z = name"
    by (simp_all add: reverse_zone_row_def)
  have "\<not> (\<exists>z'. named (abs_db d) name z')"
    using None named_get [OF assms(1), of name] by simp
  then have "okE (holds (abs_db d)) (create_zone name ?z) (\<lambda>_. holds ((abs_db d)\<lparr>s_zones := (s_zones (abs_db d))(zid \<mapsto> ?z)\<rparr>))"
    using create_zone_okE [of ?z "abs_db d"] assms z by (simp add: abs_db_def)
  from okED [OF this holds_reachable [OF assms(1)]] obtain d'
    where d': "create_zone name ?z d = (Inr (), d')" "holds ((abs_db d)\<lparr>s_zones := (s_zones (abs_db d))(zid \<mapsto> ?z)\<rparr>) d'"
    by auto
  from d'(2) have "db_reachable d'" "s_zones (abs_db d') zid = Some ?z" "rows d' = rows d"
    "dom (get_zone d) \<subseteq> dom (get_zone d')"
    by (auto simp: holds_def abs_db_def)
  with None d'(1) z assms(2) show ?thesis
    by (intro exI [of _ ?z] exI [of _ d']) (simp add: ensure_reverse_zone_def bindE_apply thenE_apply Let_def)
qed

text \<open>The enabled PTR records at an owner name of a zone.\<close>

definition ptr_at :: "uuid \<Rightarrow> string \<Rightarrow> dns_record \<Rightarrow> bool" where
  "ptr_at zid n r \<longleftrightarrow> r_zone_id r = zid \<and> r_name r = n \<and> rd_type (r_data r) = RT_PTR \<and> r_enabled r"

lemma set_query_ptr:
  "db_reachable d \<Longrightarrow> is_uuid zid \<Longrightarrow> set (query_records d zid n RT_PTR) = {r \<in> rows d. ptr_at zid n r}"
  by (auto simp: query_abs ptr_at_def abs_db_def)

lemma replace_ptr_okE:
  assumes "set old = {r \<in> s_rows s. ptr_at (z_id z) n r}" "distinct old" "inj_on r_id (s_rows s)"
    and "is_uuid (r_id new)" "r_zone_id new = z_id z" "is_uuid (z_id z)" "r_id new \<notin> r_id ` s_rows s"
    and "s_zones s (z_id z) = Some z"
  shows "okE (holds s) (thenE (forE old (\<lambda>r. delete_record (r_id r)))
           (thenE (create_record new) (increment_soa_serial today now (z_id z))))
         (\<lambda>_. holds \<lparr>s_zones = (s_zones s)(z_id z \<mapsto> with_serial today now z),
                     s_rows = insert new {r \<in> s_rows s. \<not> ptr_at (z_id z) n r}\<rparr>)"
proof (rule okE_thenE)
  let ?s1 = "s\<lparr>s_rows := s_rows s - set old\<rparr>"
  let ?s2 = "?s1\<lparr>s_rows := insert new (s_rows ?s1)\<rparr>"
  show "okE (holds s) (forE old (\<lambda>r. delete_record (r_id r))) (\<lambda>_. holds ?s1)"
    using assms(1-3) by (intro delete_rows_okE) auto
  have create: "okE (holds ?s1) (create_record new) (\<lambda>_. holds ?s2)"
    using assms(4-7) by (intro create_record_okE) auto
  have bump: "okE (holds ?s2) (increment_soa_serial today now (z_id z))
      (\<lambda>_. holds (?s2\<lparr>s_zones := (s_zones s)(z_id z \<mapsto> with_serial today now z)\<rparr>))"
    using assms(8) by (intro bump_serial_okE) auto
  have final: "\<lparr>s_zones = (s_zones s)(z_id z \<mapsto> with_serial today now z),
        s_rows = insert new {r \<in> s_rows s. \<not> ptr_at (z_id z) n r}\<rparr> =
      ?s2\<lparr>s_zones := (s_zones s)(z_id z \<mapsto> with_serial today now z)\<rparr>"
    by (rule store.equality) (auto simp: assms(1))
  show "okE (holds ?s1) (thenE (create_record new) (increment_soa_serial today now (z_id z)))
      (\<lambda>_. holds \<lparr>s_zones = (s_zones s)(z_id z \<mapsto> with_serial today now z),
                     s_rows = insert new {r \<in> s_rows s. \<not> ptr_at (z_id z) n r}\<rparr>)"
    unfolding final by (rule okE_thenE [OF create bump])
qed

lemma with_serial_id [simp]: "z_id (with_serial today now z) = z_id z" "z_name (with_serial today now z) = z_name z"
  by (simp_all add: with_serial_def)

lemma sync_ptr_result:
  assumes "db_reachable d" "is_uuid zid" "get_zone d zid = None" "is_uuid rid" "get_record d rid = None"
  shows "\<exists>z d'. sync_ptr zid rid now today zn n target ttl source d = (Inr (), d') \<and> db_reachable d' \<and>
    get_zone_by_name d' zn = Some z \<and> is_uuid (z_id z) \<and>
    (\<exists>r \<in> rows d'. ptr_at (z_id z) n r \<and> r_data r = RD_PTR target) \<and>
    {r \<in> rows d'. \<not> ptr_at (z_id z) n r} = {r \<in> rows d. \<not> ptr_at (z_id z) n r} \<and>
    dom (get_zone d) \<subseteq> dom (get_zone d')"
proof -
  obtain z d1 where d1: "ensure_reverse_zone zid now today zn d = (Inr z, d1)" "db_reachable d1"
    "s_zones (abs_db d1) (z_id z) = Some z" "z_name z = zn" "is_uuid (z_id z)" "rows d1 = rows d"
    "dom (get_zone d) \<subseteq> dom (get_zone d1)"
    using ensure_reverse_zone_result [OF assms(1-3)] by blast
  let ?old = "query_records d1 (z_id z) n RT_PTR"
  have old: "set ?old = {r \<in> rows d. ptr_at (z_id z) n r}"
    using set_query_ptr [OF d1(2,5)] d1(6) by simp
  show ?thesis
  proof (cases "list_ex (\<lambda>r. r_data r = RD_PTR target) ?old")
    case True
    then obtain r where "r \<in> rows d" "ptr_at (z_id z) n r" "r_data r = RD_PTR target"
      using old by (auto simp: list_ex_iff)
    moreover have "get_zone_by_name d1 zn = Some z"
      using d1(3,4) by (simp add: named_get [OF d1(2)] named_def)
    ultimately show ?thesis
      using d1 True by (intro exI [of _ z] exI [of _ d1]) (auto simp: sync_ptr_def bindE_apply)
  next
    case False
    let ?new = "ptr_row rid (z_id z) now n ttl target source"
    have new: "r_id ?new = rid" "r_zone_id ?new = z_id z" "ptr_at (z_id z) n ?new" "r_data ?new = RD_PTR target"
      by (simp_all add: ptr_row_def ptr_at_def)
    have rid: "rid \<notin> r_id ` s_rows (abs_db d1)"
      using assms(1,5) d1(6) rows_get_None [of d rid] by (simp add: abs_db_def)
    have "okE (holds (abs_db d1)) (thenE (forE ?old (\<lambda>r. delete_record (r_id r)))
           (thenE (create_record ?new) (increment_soa_serial today now (z_id z))))
         (\<lambda>_. holds \<lparr>s_zones = (s_zones (abs_db d1))(z_id z \<mapsto> with_serial today now z),
                     s_rows = insert ?new {r \<in> s_rows (abs_db d1). \<not> ptr_at (z_id z) n r}\<rparr>)"
      using old d1(3,5,6) rid new assms(4) rows_inj [OF d1(2)] query_distinct [OF d1(2)]
      by (intro replace_ptr_okE) (auto simp: abs_db_def)
    from okED [OF this holds_reachable [OF d1(2)]] obtain d' where d':
      "(thenE (forE ?old (\<lambda>r. delete_record (r_id r)))
           (thenE (create_record ?new) (increment_soa_serial today now (z_id z)))) d1 = (Inr (), d')"
      "holds \<lparr>s_zones = (s_zones (abs_db d1))(z_id z \<mapsto> with_serial today now z),
              s_rows = insert ?new {r \<in> s_rows (abs_db d1). \<not> ptr_at (z_id z) n r}\<rparr> d'"
      by auto
    have "db_reachable d'" "rows d' = insert ?new {r \<in> rows d. \<not> ptr_at (z_id z) n r}"
      "s_zones (abs_db d') (z_id z) = Some (with_serial today now z)" "dom (get_zone d) \<subseteq> dom (get_zone d')"
      using d'(2) d1(6,7) by (auto simp: holds_def abs_db_def)
    moreover from this have "get_zone_by_name d' zn = Some (with_serial today now z)"
      using d1(4) by (simp add: named_get named_def)
    ultimately show ?thesis
      using d'(1) d1(1,5) False new
      by (intro exI [of _ "with_serial today now z"] exI [of _ d']) (auto simp: sync_ptr_def bindE_apply)
  qed
qed

lemma same_names: "map_option f \<circ> g = map_option f \<circ> h \<Longrightarrow> h k = Some z \<Longrightarrow> \<exists>z1. g k = Some z1 \<and> f z1 = f z"
  by (drule fun_cong [of _ _ k]) auto

lemma delete_ptr_result:
  assumes "db_reachable d"
  shows "\<exists>d'. delete_ptr now today zn n target d = (Inr (), d') \<and> db_reachable d' \<and>
    rows d' = {r \<in> rows d. \<not> (\<exists>z. get_zone_by_name d zn = Some z \<and> ptr_at (z_id z) n r \<and> r_data r = RD_PTR target)} \<and>
    map_option z_name \<circ> get_zone d' = map_option z_name \<circ> get_zone d"
proof (cases "get_zone_by_name d zn")
  case None
  with assms show ?thesis
    by (simp add: delete_ptr_def bindE_apply)
next
  case (Some z)
  then have z: "s_zones (abs_db d) (z_id z) = Some z"
    by (simp add: named_get [OF assms] named_def)
  let ?old = "query_records d (z_id z) n RT_PTR"
  let ?f = "\<lambda>r. if r_data r = RD_PTR target
      then thenE (delete_record (r_id r)) (increment_soa_serial today now (z_id z)) else returnE ()"
  let ?I = "\<lambda>ys d'. db_reachable d' \<and> map_option z_name \<circ> s_zones (abs_db d') = map_option z_name \<circ> get_zone d \<and>
      s_rows (abs_db d') = rows d - {r \<in> set ys. r_data r = RD_PTR target}"
  have "okE (?I []) (forE ?old ?f) (\<lambda>_. ?I ?old)"
  proof (rule okE_forE, rule okEI)
    fix ys r zs d1
    assume old: "?old = ys @ r # zs" and inv: "?I ys d1"
    show "\<exists>x d2. ?f r d1 = (Inr x, d2) \<and> ?I (ys @ [r]) d2"
    proof (cases "r_data r = RD_PTR target")
      case True
      obtain z1 where z1: "s_zones (abs_db d1) (z_id z) = Some z1" "z_name z1 = z_name z"
        using inv z same_names [of z_name "s_zones (abs_db d1)" "get_zone d" "z_id z" z] by (auto simp: abs_db_def)
      then have names: "map_option z_name \<circ> (s_zones (abs_db d1))(z_id z \<mapsto> with_serial today now z1) =
          map_option z_name \<circ> s_zones (abs_db d1)"
        by auto
      have "r \<in> set ?old" "r \<notin> set ys"
        using old query_distinct [OF assms, of "z_id z" n RT_PTR] by simp_all
      then have r: "r \<in> s_rows (abs_db d1)"
        using inv set_query_ptr [OF assms zone_ids(2) [OF assms z], of n] by auto
      have inj: "inj_on r_id (s_rows (abs_db d1))"
        using rows_inj inv by blast
      let ?s = "(abs_db d1)\<lparr>s_rows := {x \<in> s_rows (abs_db d1). r_id x \<noteq> r_id r}\<rparr>"
      have "okE (holds (abs_db d1)) (thenE (delete_record (r_id r)) (increment_soa_serial today now (z_id z)))
          (\<lambda>_. holds (?s\<lparr>s_zones := (s_zones (abs_db d1))(z_id z \<mapsto> with_serial today now z1)\<rparr>))"
        using r z1 by (intro okE_thenE [of _ _ "holds ?s"] delete_record_okE bump_serial_okE) auto
      from okED [OF this holds_reachable] inv obtain d2 where
        "(thenE (delete_record (r_id r)) (increment_soa_serial today now (z_id z))) d1 = (Inr (), d2)"
        "holds (?s\<lparr>s_zones := (s_zones (abs_db d1))(z_id z \<mapsto> with_serial today now z1)\<rparr>) d2"
        by auto
      moreover have "{x \<in> s_rows (abs_db d1). r_id x \<noteq> r_id r} = s_rows (abs_db d1) - {r}"
        using inj r by (auto dest: inj_onD)
      ultimately show ?thesis
        using True inv names by (intro exI [of _ "()"] exI [of _ d2]) (auto simp: holds_def)
    next
      case False
      with inv show ?thesis
        by auto
    qed
  qed
  from okED [OF this, of d] assms z obtain d' where d': "forE ?old ?f d = (Inr (), d')" "?I ?old d'"
    by (auto simp: abs_db_def)
  have "{r \<in> set ?old. r_data r = RD_PTR target} = {r \<in> rows d. ptr_at (z_id z) n r \<and> r_data r = RD_PTR target}"
    using set_query_ptr [OF assms zone_ids(2) [OF assms z]] by auto
  with d' Some show ?thesis
    by (intro exI [of _ d']) (auto simp: delete_ptr_def bindE_apply abs_db_def)
qed

section \<open>Owner names are unique\<close>

lemma octets_inject: "octets a = octets b \<longleftrightarrow> a = b"
proof
  assume "octets a = octets b"
  then have "u32_from_be (ucast (drop_bit 24 a)) (ucast (drop_bit 16 a)) (ucast (drop_bit 8 a)) (ucast a) =
      u32_from_be (ucast (drop_bit 24 b)) (ucast (drop_bit 16 b)) (ucast (drop_bit 8 b)) (ucast b)"
    unfolding octets_def u32_to_be_def list.inject by simp
  then show "a = b"
    by (simp only: u32_be_roundtrip)
qed simp

lemma nat_str_inject: "nat_str m = nat_str n \<longleftrightarrow> m = n"
  by (metis nat_str_val)

lemma length4_eq: "length xs = 4 \<Longrightarrow> length ys = 4 \<Longrightarrow>
  xs ! 0 = ys ! 0 \<Longrightarrow> xs ! 1 = ys ! 1 \<Longrightarrow> xs ! 2 = ys ! 2 \<Longrightarrow> xs ! 3 = ys ! 3 \<Longrightarrow> xs = ys"
  by (auto simp: numeral_eq_Suc length_Suc_conv)

section \<open>Properties\<close>

text \<open>
  Two addresses never share the owner of their PTR records: the reverse zone and the record
  name together determine the address.
\<close>

theorem ptr_owner_unique:
  "reverse_zone_v4 a = reverse_zone_v4 b \<and> ptr_name_v4 a = ptr_name_v4 b \<longleftrightarrow> a = b"
proof
  assume eq: "reverse_zone_v4 a = reverse_zone_v4 b \<and> ptr_name_v4 a = ptr_name_v4 b"
  let ?s = "\<lambda>ip. map (\<lambda>i. nat_str (unat (octets ip ! i))) [2, 1, 0] @ [''in-addr'', ''arpa'']"
  have split: "split_char CHR ''.'' (reverse_zone_v4 ip) = ?s ip" for ip
  proof -
    have "reverse_zone_v4 ip = join_char CHR ''.'' (?s ip)"
      by (simp add: reverse_zone_v4_def)
    then show ?thesis
      using split_join [of "?s ip" "CHR ''.''"] by (simp add: nat_str_no_dot)
  qed
  have "?s a = ?s b"
    using eq split by metis
  then have "octets a ! 0 = octets b ! 0" "octets a ! 1 = octets b ! 1" "octets a ! 2 = octets b ! 2"
    by (simp_all add: nat_str_inject word_unat_eq_iff)
  moreover have "octets a ! 3 = octets b ! 3"
    using eq by (simp add: ptr_name_v4_def nat_str_inject word_unat_eq_iff)
  ultimately have "octets a = octets b"
    by (intro length4_eq) (simp_all add: octets_def)
  then show "a = b"
    by (simp add: octets_inject)
qed simp

text \<open>
  C16. Registering the address of a name succeeds, creates the reverse zone if it is missing, leaves
  a PTR record from the address to the name, and changes no record other than the PTR records of
  that address.
\<close>

theorem sync_ptr_for_a_effect:
  assumes "db_reachable d" "is_uuid zid" "get_zone d zid = None" "is_uuid rid" "get_record d rid = None"
  shows "let (res, d') = sync_ptr_for_a zid rid now today name zone ip ttl source d
         in res = Inr () \<and> db_reachable d' \<and>
            (\<exists>z. get_zone_by_name d' (reverse_zone_v4 ip) = Some z \<and>
               (\<exists>r \<in> set (query_records d' (z_id z) (ptr_name_v4 ip) RT_PTR). r_data r = RD_PTR (ptr_target name zone)) \<and>
               {r \<in> rows d'. \<not> ptr_at (z_id z) (ptr_name_v4 ip) r} = {r \<in> rows d. \<not> ptr_at (z_id z) (ptr_name_v4 ip) r})"
proof -
  obtain z d' where d': "sync_ptr_for_a zid rid now today name zone ip ttl source d = (Inr (), d')" "db_reachable d'"
    "get_zone_by_name d' (reverse_zone_v4 ip) = Some z" "is_uuid (z_id z)"
    "\<exists>r \<in> rows d'. ptr_at (z_id z) (ptr_name_v4 ip) r \<and> r_data r = RD_PTR (ptr_target name zone)"
    "{r \<in> rows d'. \<not> ptr_at (z_id z) (ptr_name_v4 ip) r} = {r \<in> rows d. \<not> ptr_at (z_id z) (ptr_name_v4 ip) r}"
    using sync_ptr_result [OF assms] unfolding sync_ptr_for_a_def by blast
  then show ?thesis
    using set_query_ptr [OF d'(2,4), of "ptr_name_v4 ip"] by (simp add: Let_def) blast
qed

definition ex_zid2 :: uuid where "ex_zid2 = ''22222222-2222-2222-2222-222222222222''"
definition ex_rid3 :: uuid where "ex_rid3 = ''cccccccc-cccc-cccc-cccc-cccccccccccc''"

lemma ex_fresh: "is_uuid ex_zid2" "get_zone ex_db ex_zid2 = None" "is_uuid ex_rid3" "get_record ex_db ex_rid3 = None"
  by code_simp+

theorem sync_ptr_for_a_effect_witness:
  "db_reachable ex_db \<and>
   (let (res, d') = sync_ptr_for_a ex_zid2 ex_rid3 0 ''20261115'' ''www'' ''g10.lo'' 0x0A000001 300 Dhcp ex_db
    in res = Inr () \<and> (\<exists>z. get_zone_by_name d' (reverse_zone_v4 0x0A000001) = Some z))"
  using sync_ptr_for_a_effect [OF ex_db_reachable ex_fresh, of 0 "''20261115''" "''www''" "''g10.lo''" "0x0A000001" 300 Dhcp]
    ex_db_reachable
  unfolding split_beta Let_def by blast

text \<open>
  C17. Withdrawing the address of a name removes exactly the PTR records from that address to that
  name; a PTR record that points to another name stays.
\<close>

theorem delete_ptr_for_a_effect:
  assumes "db_reachable d"
  shows "let (res, d') = delete_ptr_for_a now today name zone ip d
         in res = Inr () \<and> db_reachable d' \<and>
            rows d' = {r \<in> rows d. \<not> (\<exists>z. get_zone_by_name d (reverse_zone_v4 ip) = Some z \<and>
                         ptr_at (z_id z) (ptr_name_v4 ip) r \<and> r_data r = RD_PTR (ptr_target name zone))}"
  using delete_ptr_result [OF assms, of now today "reverse_zone_v4 ip" "ptr_name_v4 ip" "ptr_target name zone"]
  unfolding delete_ptr_for_a_def Let_def by (elim exE conjE) simp

theorem delete_ptr_for_a_effect_witness:
  "db_reachable ex_db \<and> rows (snd (delete_ptr_for_a 0 ''20261115'' ''www'' ''g10.lo'' 0x0A000001 ex_db)) = rows ex_db"
proof -
  have "get_zone_by_name ex_db (reverse_zone_v4 0x0A000001) = None"
    by code_simp
  then show ?thesis
    using delete_ptr_for_a_effect [OF ex_db_reachable, of 0 "''20261115''" "''www''" "''g10.lo''" "0x0A000001"] ex_db_reachable
    by (simp add: split_beta Let_def)
qed

end
