(* ===== verification/Dns_Register.thy ===== *)
theory Dns_Register
  imports Reverse
begin

text \<open>
  Registration of DHCP clients in the DNS, \<^verbatim>\<open>crates/microdns-dhcp/src/dns_register.rs\<close>. The
  IPv4 and IPv6 registrations share one body. A failing reverse update is logged and dropped.
\<close>

section \<open>Model\<close>

record dns_registrar =
  forward_zone :: string
  default_ttl :: u32

definition sanitize_hostname :: "dns_registrar \<Rightarrow> string \<Rightarrow> string" where
  "sanitize_hostname reg host =
     (case strip_suffix host (''.'' @ forward_zone reg @ ''.'') of
        Some s \<Rightarrow> s
      | None \<Rightarrow> (case strip_suffix host (''.'' @ forward_zone reg) of Some s \<Rightarrow> s | None \<Rightarrow> host))"

definition host_row :: "dns_registrar \<Rightarrow> uuid \<Rightarrow> instant \<Rightarrow> zone \<Rightarrow> string \<Rightarrow> record_data \<Rightarrow> dns_record" where
  "host_row reg rid now z host rd =
     \<lparr>r_id = rid, r_zone_id = z_id z, r_name = host, r_ttl = default_ttl reg, r_data = rd, r_enabled = True,
      r_health_check = None, r_source = Dhcp, r_origin = None, r_created_at = now, r_updated_at = now\<rparr>"

definition register_addr ::
  "dns_registrar \<Rightarrow> uuid \<Rightarrow> instant \<Rightarrow> string \<Rightarrow> string \<Rightarrow> record_data \<Rightarrow> unit db_txn \<Rightarrow> unit db_txn" where
  "register_addr reg rid now today host desired sync =
     bindE (getE (\<lambda>d. get_zone_by_name d (forward_zone reg))) (\<lambda>found.
       case found of
         None \<Rightarrow> returnE ()
       | Some z \<Rightarrow>
           bindE (getE (\<lambda>d. query_records d (z_id z) host (rd_type desired))) (\<lambda>existing.
             if list_ex (\<lambda>r. r_data r = desired) existing then returnE ()
             else thenE (forE existing (\<lambda>r. delete_record (r_id r)))
                 (thenE (create_record (host_row reg rid now z host desired))
                 (thenE (ignoreE sync)
                   (increment_soa_serial today now (z_id z))))))"

definition register_v4 ::
  "dns_registrar \<Rightarrow> uuid \<Rightarrow> uuid \<Rightarrow> uuid \<Rightarrow> instant \<Rightarrow> string \<Rightarrow> string \<Rightarrow> ipv4 \<Rightarrow> unit db_txn" where
  "register_v4 reg rid zid prid now today hostname ip =
     (let host = sanitize_hostname reg hostname
      in register_addr reg rid now today host (RD_A ip)
           (sync_ptr_for_a zid prid now today host (forward_zone reg) ip (default_ttl reg) Dhcp))"

definition register_v6 ::
  "dns_registrar \<Rightarrow> uuid \<Rightarrow> uuid \<Rightarrow> uuid \<Rightarrow> instant \<Rightarrow> string \<Rightarrow> string \<Rightarrow> ipv6 \<Rightarrow> unit db_txn" where
  "register_v6 reg rid zid prid now today hostname ip =
     (let host = sanitize_hostname reg hostname
      in register_addr reg rid now today host (RD_AAAA ip)
           (sync_ptr_for_aaaa zid prid now today host (forward_zone reg) ip (default_ttl reg) Dhcp))"

definition unregister :: "dns_registrar \<Rightarrow> instant \<Rightarrow> string \<Rightarrow> string \<Rightarrow> unit db_txn" where
  "unregister reg now today hostname =
     (let host = sanitize_hostname reg hostname
      in bindE (getE (\<lambda>d. get_zone_by_name d (forward_zone reg))) (\<lambda>found.
           case found of
             None \<Rightarrow> returnE ()
           | Some z \<Rightarrow>
               bindE (getE (\<lambda>d. list_records d (z_id z))) (\<lambda>rs.
                 forE rs (\<lambda>r.
                   if r_name r = host
                   then thenE (ignoreE (delete_reverse_record now today (r_name r) (forward_zone reg) (r_data r)))
                          (delete_record (r_id r))
                   else returnE ()))))"

section \<open>Facts\<close>

text \<open>The enabled records of a type at a name of a zone.\<close>

definition at_name :: "uuid \<Rightarrow> string \<Rightarrow> record_type \<Rightarrow> dns_record \<Rightarrow> bool" where
  "at_name zid n t r \<longleftrightarrow> r_zone_id r = zid \<and> r_name r = n \<and> rd_type (r_data r) = t \<and> r_enabled r"

lemma set_query_at:
  "db_reachable d \<Longrightarrow> is_uuid zid \<Longrightarrow> set (query_records d zid n t) = {r \<in> rows d. at_name zid n t r}"
  by (auto simp: query_abs at_name_def abs_db_def)

lemma sync_keeps_others:
  assumes "db_reachable d" "is_uuid zid" "get_zone d zid = None" "is_uuid rid" "get_record d rid = None"
  shows "\<exists>d'. sync_ptr zid rid now today zn n target ttl source d = (Inr (), d') \<and> db_reachable d' \<and>
    {r \<in> rows d'. rd_type (r_data r) \<noteq> RT_PTR} = {r \<in> rows d. rd_type (r_data r) \<noteq> RT_PTR} \<and>
    dom (get_zone d) \<subseteq> dom (get_zone d')"
proof -
  obtain z d' where d': "sync_ptr zid rid now today zn n target ttl source d = (Inr (), d')" "db_reachable d'"
    "get_zone_by_name d' zn = Some z" "{r \<in> rows d'. \<not> ptr_at (z_id z) n r} = {r \<in> rows d. \<not> ptr_at (z_id z) n r}"
    "dom (get_zone d) \<subseteq> dom (get_zone d')"
    using sync_ptr_result [OF assms, of now today zn n target ttl source]
    by (elim exE conjE) (rule that, assumption+)
  have "{r \<in> rows d'. rd_type (r_data r) \<noteq> RT_PTR} = {r \<in> rows d. rd_type (r_data r) \<noteq> RT_PTR}"
  proof (rule set_eqI)
    fix r
    show "r \<in> {r \<in> rows d'. rd_type (r_data r) \<noteq> RT_PTR} \<longleftrightarrow> r \<in> {r \<in> rows d. rd_type (r_data r) \<noteq> RT_PTR}"
      using eqset_imp_iff [OF d'(4), of r] by (auto simp: ptr_at_def)
  qed
  with d'(1,2,5) show ?thesis
    by blast
qed

lemma replace_host_okE:
  assumes "set old = {r \<in> s_rows s. at_name (z_id z) n t r}" "distinct old" "inj_on r_id (s_rows s)"
    and "is_uuid (r_id new)" "r_zone_id new = z_id z" "is_uuid (z_id z)" "r_id new \<notin> r_id ` s_rows s"
  shows "okE (holds s) (thenE (forE old (\<lambda>r. delete_record (r_id r))) (create_record new))
         (\<lambda>_. holds (s\<lparr>s_rows := insert new {r \<in> s_rows s. \<not> at_name (z_id z) n t r}\<rparr>))"
proof -
  let ?s1 = "s\<lparr>s_rows := s_rows s - set old\<rparr>"
  have "okE (holds s) (forE old (\<lambda>r. delete_record (r_id r))) (\<lambda>_. holds ?s1)"
    using assms(1-3) by (intro delete_rows_okE) auto
  moreover have "okE (holds ?s1) (create_record new) (\<lambda>_. holds (s\<lparr>s_rows := insert new {r \<in> s_rows s. \<not> at_name (z_id z) n t r}\<rparr>))"
  proof (rule create_record_okE)
    have "s_rows s - set old = {r \<in> s_rows s. \<not> at_name (z_id z) n t r}"
      using assms(1) by auto
    then show "spec_op (CreateRecord new) ?s1 = (Inr (), s\<lparr>s_rows := insert new {r \<in> s_rows s. \<not> at_name (z_id z) n t r}\<rparr>)"
      by simp
  qed (use assms(4-7) in auto)
  ultimately show ?thesis
    by (rule okE_thenE)
qed

text \<open>
  Registering an address whose reverse update goes through \<open>sync_ptr\<close>: afterwards the name has
  that address, and only that one unless it had it before.
\<close>

lemma register_addr_result:
  assumes d: "db_reachable d" and z: "get_zone_by_name d (forward_zone reg) = Some z"
    and ids: "is_uuid rid" "get_record d rid = None" "is_uuid zid" "get_zone d zid = None"
      "is_uuid prid" "get_record d prid = None" "prid \<noteq> rid"
    and rd: "rd_type rd \<noteq> RT_PTR"
    and sync: "sync = sync_ptr zid prid now today zn pn target ttl source"
  shows "\<exists>d'. register_addr reg rid now today host rd sync d = (Inr (), d') \<and> db_reachable d' \<and>
    {r \<in> rows d'. rd_type (r_data r) \<noteq> RT_PTR} =
      (if \<exists>r \<in> rows d. at_name (z_id z) host (rd_type rd) r \<and> r_data r = rd
       then {r \<in> rows d. rd_type (r_data r) \<noteq> RT_PTR}
       else insert (host_row reg rid now z host rd)
              {r \<in> rows d. rd_type (r_data r) \<noteq> RT_PTR \<and> \<not> at_name (z_id z) host (rd_type rd) r})"
proof -
  have zz: "s_zones (abs_db d) (z_id z) = Some z" and zid: "is_uuid (z_id z)"
    using named_get [OF d] z zone_ids(2) [OF d, of "z_id z" z] by (auto simp: named_def)
  let ?old = "query_records d (z_id z) host (rd_type rd)"
  have old: "set ?old = {r \<in> rows d. at_name (z_id z) host (rd_type rd) r}"
    by (rule set_query_at [OF d zid])
  show ?thesis
  proof (cases "list_ex (\<lambda>r. r_data r = rd) ?old")
    case True
    then have "\<exists>r \<in> rows d. at_name (z_id z) host (rd_type rd) r \<and> r_data r = rd"
      using old by (auto simp: list_ex_iff)
    with True z d show ?thesis
      by (simp add: register_addr_def bindE_apply)
  next
    case False
    let ?new = "host_row reg rid now z host rd"
    let ?keep = "{r \<in> rows d. \<not> at_name (z_id z) host (rd_type rd) r}"
    have new: "r_id ?new = rid" "r_zone_id ?new = z_id z" "rd_type (r_data ?new) = rd_type rd"
      by (simp_all add: host_row_def)
    have none: "\<not> (\<exists>r \<in> rows d. at_name (z_id z) host (rd_type rd) r \<and> r_data r = rd)"
      using False old by (auto simp: list_ex_iff)
    have "okE (holds (abs_db d)) (thenE (forE ?old (\<lambda>r. delete_record (r_id r))) (create_record ?new))
        (\<lambda>_. holds ((abs_db d)\<lparr>s_rows := insert ?new {r \<in> s_rows (abs_db d). \<not> at_name (z_id z) host (rd_type rd) r}\<rparr>))"
      using old new ids(1,2) zid rows_inj [OF d] query_distinct [OF d] rows_get_None [OF d, of rid]
      by (intro replace_host_okE) (simp_all add: abs_db_def)
    from okED [OF this holds_reachable [OF d]] obtain d2 where
      d2: "(thenE (forE ?old (\<lambda>r. delete_record (r_id r))) (create_record ?new)) d = (Inr (), d2)"
        "db_reachable d2" "rows d2 = insert ?new ?keep" "get_zone d2 = get_zone d"
      by (auto simp: holds_def abs_db_def)
    have "get_record d2 prid = None"
      using ids(6,7) rows_get_None [OF d, of prid] rows_get_None [OF d2(2), of prid] d2(3) new(1)
      by (auto simp: abs_db_def)
    then obtain d3 where d3: "sync d2 = (Inr (), d3)" "db_reachable d3" "dom (get_zone d2) \<subseteq> dom (get_zone d3)"
      "{r \<in> rows d3. rd_type (r_data r) \<noteq> RT_PTR} = {r \<in> rows d2. rd_type (r_data r) \<noteq> RT_PTR}"
      using sync_keeps_others [OF d2(2) ids(3) _ ids(5), of now today zn pn target ttl source] ids(4) d2(4)
      unfolding sync by auto
    obtain z3 where z3: "s_zones (abs_db d3) (z_id z) = Some z3"
      using d3(3) d2(4) zz by (auto simp: abs_db_def dom_def)
    have "okE (holds (abs_db d3)) (increment_soa_serial today now (z_id z))
        (\<lambda>_. holds ((abs_db d3)\<lparr>s_zones := (s_zones (abs_db d3))(z_id z \<mapsto> with_serial today now z3)\<rparr>))"
      using z3 by (intro bump_serial_okE) auto
    from okED [OF this holds_reachable [OF d3(2)]] obtain d4 where
      d4: "increment_soa_serial today now (z_id z) d3 = (Inr (), d4)" "db_reachable d4" "rows d4 = rows d3"
      by (auto simp: holds_def abs_db_def)
    have "register_addr reg rid now today host rd sync d = (Inr (), d4)"
      using z False d2(1) d3(1) d4(1)
      by (auto simp: register_addr_def bindE_apply thenE_apply ignoreE_def split: prod.splits sum.splits)
    moreover have "{r \<in> rows d4. rd_type (r_data r) \<noteq> RT_PTR} = insert ?new
        {r \<in> rows d. rd_type (r_data r) \<noteq> RT_PTR \<and> \<not> at_name (z_id z) host (rd_type rd) r}"
      unfolding d4(3) d3(4) d2(3) using rd new(3) by auto
    ultimately show ?thesis
      using d4(2) unfolding if_not_P [OF none] by blast
  qed
qed

lemma reverse_zone_is_reverse: "is_reverse_zone (reverse_zone_v4 ip)" "is_reverse_zone (reverse_zone_v6 ip')"
proof -
  have low: "to_lowercase ''.in-addr.arpa'' = ''.in-addr.arpa''" "to_lowercase ''.ip6.arpa'' = ''.ip6.arpa''"
    by code_simp+
  have "\<exists>q. to_lowercase (p @ ''.in-addr.arpa'') = q @ ''.in-addr.arpa''" for p
    using low(1) by (auto simp: to_lowercase_def)
  moreover have "\<exists>q. to_lowercase (p @ ''.ip6.arpa'') = q @ ''.ip6.arpa''" for p
    using low(2) by (auto simp: to_lowercase_def)
  ultimately show "is_reverse_zone (reverse_zone_v4 ip)" "is_reverse_zone (reverse_zone_v6 ip')"
    unfolding is_reverse_zone_def Let_def ends_with_iff reverse_zone_v4_def reverse_zone_v6_def append_assoc [symmetric]
    by blast+
qed

lemma delete_reverse_record_result:
  assumes "db_reachable d"
  shows "\<exists>d'. delete_reverse_record now today name fz rd d = (Inr (), d') \<and> db_reachable d' \<and>
    rows d' \<subseteq> rows d \<and> map_option z_name \<circ> get_zone d' = map_option z_name \<circ> get_zone d \<and>
    (\<forall>r \<in> rows d - rows d'. \<exists>z. s_zones (abs_db d) (r_zone_id r) = Some z \<and> is_reverse_zone (z_name z))"
proof -
  have ptr: "\<exists>d'. delete_ptr now today zn n target d = (Inr (), d') \<and> db_reachable d' \<and>
      rows d' \<subseteq> rows d \<and> map_option z_name \<circ> get_zone d' = map_option z_name \<circ> get_zone d \<and>
      (\<forall>r \<in> rows d - rows d'. \<exists>z. s_zones (abs_db d) (r_zone_id r) = Some z \<and> is_reverse_zone (z_name z))"
    if "is_reverse_zone zn" for zn n target
  proof -
    obtain d' where d': "delete_ptr now today zn n target d = (Inr (), d')" "db_reachable d'"
      "rows d' = {r \<in> rows d. \<not> (\<exists>z. get_zone_by_name d zn = Some z \<and> ptr_at (z_id z) n r \<and> r_data r = RD_PTR target)}"
      "map_option z_name \<circ> get_zone d' = map_option z_name \<circ> get_zone d"
      using delete_ptr_result [OF assms] by blast
    have "\<exists>z. s_zones (abs_db d) (r_zone_id r) = Some z \<and> is_reverse_zone (z_name z)" if "r \<in> rows d - rows d'" for r
    proof -
      from that d'(3) obtain z where "get_zone_by_name d zn = Some z" "ptr_at (z_id z) n r"
        by blast
      with \<open>is_reverse_zone zn\<close> show ?thesis
        by (auto simp: named_get [OF assms] named_def ptr_at_def)
    qed
    with d' show ?thesis
      by blast
  qed
  show ?thesis
    using assms ptr [OF reverse_zone_is_reverse(1)] ptr [OF reverse_zone_is_reverse(2)]
    by (cases "is_reverse_zone fz"; cases rd)
       (simp_all add: delete_reverse_record_def delete_ptr_for_a_def delete_ptr_for_aaaa_def)
qed

lemma unregister_result:
  assumes d: "db_reachable d" and z: "get_zone_by_name d (forward_zone reg) = Some z"
    and fwd: "\<not> is_reverse_zone (forward_zone reg)"
  shows "\<exists>d'. unregister reg now today hostname d = (Inr (), d') \<and> db_reachable d' \<and> rows d' \<subseteq> rows d \<and>
    {r \<in> rows d'. r_zone_id r = z_id z} = {r \<in> rows d. r_zone_id r = z_id z \<and> r_name r \<noteq> sanitize_hostname reg hostname}"
proof -
  let ?host = "sanitize_hostname reg hostname"
  let ?rs = "list_records d (z_id z)"
  let ?f = "\<lambda>r. if r_name r = ?host
      then thenE (ignoreE (delete_reverse_record now today (r_name r) (forward_zone reg) (r_data r))) (delete_record (r_id r))
      else returnE ()"
  have zz: "s_zones (abs_db d) (z_id z) = Some z" "z_name z = forward_zone reg"
    using z by (simp_all add: named_get [OF d] named_def)
  have rs: "set ?rs = {r \<in> rows d. r_zone_id r = z_id z}"
    using list_records_iff [OF reachable_rec_inv [OF d] zone_ids(2) [OF d zz(1)]] by auto
  let ?I = "\<lambda>ys d'. db_reachable d' \<and> rows d' \<subseteq> rows d \<and> map_option z_name \<circ> get_zone d' = map_option z_name \<circ> get_zone d \<and>
      {r \<in> rows d'. r_zone_id r = z_id z} = {r \<in> rows d. r_zone_id r = z_id z} - {r \<in> set ys. r_name r = ?host}"
  have "okE (?I []) (forE ?rs ?f) (\<lambda>_. ?I ?rs)"
  proof (rule okE_forE, rule okEI)
    fix ys r zs d1
    assume split: "?rs = ys @ r # zs" and inv: "?I ys d1"
    show "\<exists>x d'. ?f r d1 = (Inr x, d') \<and> ?I (ys @ [r]) d'"
    proof (cases "r_name r = ?host")
      case False
      with inv show ?thesis
        by auto
    next
      case True
      obtain d2 where d2: "delete_reverse_record now today (r_name r) (forward_zone reg) (r_data r) d1 = (Inr (), d2)"
        "db_reachable d2" "rows d2 \<subseteq> rows d1" "map_option z_name \<circ> get_zone d2 = map_option z_name \<circ> get_zone d1"
        "\<forall>r \<in> rows d1 - rows d2. \<exists>z. s_zones (abs_db d1) (r_zone_id r) = Some z \<and> is_reverse_zone (z_name z)"
        using delete_reverse_record_result inv by blast
      obtain z1 where z1: "get_zone d1 (z_id z) = Some z1" "z_name z1 = forward_zone reg"
        using inv zz same_names [of z_name "get_zone d1" "get_zone d" "z_id z" z] by (auto simp: abs_db_def)
      have same: "{r \<in> rows d2. r_zone_id r = z_id z} = {r \<in> rows d1. r_zone_id r = z_id z}"
      proof -
        have "r_zone_id r \<noteq> z_id z" if "r \<in> rows d1 - rows d2" for r
          using bspec [OF d2(5) that] z1 fwd by (auto simp: abs_db_def)
        with d2(3) show ?thesis
          by blast
      qed
      have "r \<in> set ?rs" "r \<notin> set ys"
        using split list_records_distinct [OF d, of "z_id z"] by simp_all
      then have r: "r \<in> s_rows (abs_db d2)" "r_zone_id r = z_id z"
        using inv rs same by (auto simp: abs_db_def)
      let ?s = "(abs_db d2)\<lparr>s_rows := {x \<in> s_rows (abs_db d2). r_id x \<noteq> r_id r}\<rparr>"
      have "okE (holds (abs_db d2)) (delete_record (r_id r)) (\<lambda>_. holds ?s)"
        using r(1) by (intro delete_record_okE) auto
      from okED [OF this holds_reachable [OF d2(2)]] obtain d3 where
        d3: "delete_record (r_id r) d2 = (Inr (), d3)" "holds ?s d3"
        by auto
      have "{x \<in> s_rows (abs_db d2). r_id x \<noteq> r_id r} = rows d2 - {r}"
        using rows_inj [OF d2(2)] r(1) by (auto simp: abs_db_def dest: inj_onD)
      with d3(2) have d3': "db_reachable d3" "rows d3 = rows d2 - {r}" "get_zone d3 = get_zone d2"
        by (auto simp: holds_def abs_db_def)
      have "{x \<in> rows d3. r_zone_id x = z_id z} = {r \<in> rows d. r_zone_id r = z_id z} - {x \<in> set (ys @ [r]). r_name x = ?host}"
        using inv same True unfolding d3'(2) by auto
      with d3' d2 inv True d3(1) show ?thesis
        by (intro exI [of _ "()"] exI [of _ d3]) (auto simp: thenE_apply ignoreE_def)
    qed
  qed
  from okED [OF this, of d] d obtain d' where d': "forE ?rs ?f d = (Inr (), d')" "?I ?rs d'"
    by auto
  have "{r \<in> rows d'. r_zone_id r = z_id z} = {r \<in> rows d. r_zone_id r = z_id z \<and> r_name r \<noteq> ?host}"
    using d'(2) rs by auto
  with d' z show ?thesis
    by (intro exI [of _ d']) (simp add: unregister_def bindE_apply Let_def)
qed

section \<open>Properties\<close>

text \<open>
  C18. Registering a DHCP client succeeds and leaves its name with its address. Unless the name had
  that address already, every other enabled A record of the name is gone, whoever created it; no
  other record but PTR records changes.
\<close>

theorem register_v4_effect:
  assumes "db_reachable d" "get_zone_by_name d (forward_zone reg) = Some z"
    and "is_uuid rid" "get_record d rid = None" "is_uuid zid" "get_zone d zid = None"
    and "is_uuid prid" "get_record d prid = None" "prid \<noteq> rid"
  shows "let (res, d') = register_v4 reg rid zid prid now today hostname ip d; host = sanitize_hostname reg hostname
         in res = Inr () \<and> db_reachable d' \<and>
            {r \<in> rows d'. rd_type (r_data r) \<noteq> RT_PTR} =
              (if \<exists>r \<in> rows d. at_name (z_id z) host RT_A r \<and> r_data r = RD_A ip
               then {r \<in> rows d. rd_type (r_data r) \<noteq> RT_PTR}
               else insert (host_row reg rid now z host (RD_A ip))
                      {r \<in> rows d. rd_type (r_data r) \<noteq> RT_PTR \<and> \<not> at_name (z_id z) host RT_A r})"
proof -
  let ?host = "sanitize_hostname reg hostname"
  obtain d' where "register_v4 reg rid zid prid now today hostname ip d = (Inr (), d')" "db_reachable d'"
    "{r \<in> rows d'. rd_type (r_data r) \<noteq> RT_PTR} =
      (if \<exists>r \<in> rows d. at_name (z_id z) ?host RT_A r \<and> r_data r = RD_A ip
       then {r \<in> rows d. rd_type (r_data r) \<noteq> RT_PTR}
       else insert (host_row reg rid now z ?host (RD_A ip))
              {r \<in> rows d. rd_type (r_data r) \<noteq> RT_PTR \<and> \<not> at_name (z_id z) ?host RT_A r})"
    using register_addr_result [OF assms, of "RD_A ip", OF _ refl, of now today ?host "reverse_zone_v4 ip"
        "ptr_name_v4 ip" "ptr_target ?host (forward_zone reg)" "default_ttl reg" Dhcp]
    unfolding register_v4_def sync_ptr_for_a_def Let_def rd_type.simps by blast
  then show ?thesis
    unfolding Let_def by (simp only: prod.case)
qed

definition ex_reg :: dns_registrar where
  "ex_reg = \<lparr>forward_zone = ''g10.lo'', default_ttl = 120\<rparr>"

theorem register_v4_effect_witness:
  "db_reachable ex_db \<and> r_source ex_www = Manual \<and> ex_www \<in> rows ex_db \<and>
   ex_www \<notin> rows (snd (register_v4 ex_reg ex_rid3 ex_zid2 ex_zid2 0 ''20261115'' ''www.g10.lo'' 0x0A000009 ex_db))"
proof -
  have zone: "get_zone_by_name ex_db (forward_zone ex_reg) = Some ex_zone"
    and host: "sanitize_hostname ex_reg ''www.g10.lo'' = ''www''"
    and ids: "get_record ex_db ex_zid2 = None" "ex_zid2 \<noteq> ex_rid3"
    by code_simp+
  let ?d = "snd (register_v4 ex_reg ex_rid3 ex_zid2 ex_zid2 0 ''20261115'' ''www.g10.lo'' 0x0A000009 ex_db)"
  have www: "rd_type (r_data ex_www) \<noteq> RT_PTR" "at_name (z_id ex_zone) ''www'' RT_A ex_www" "r_source ex_www = Manual"
    by (simp_all add: ex_www_def at_name_def ex_zone_def)
  have other: "\<not> (\<exists>r \<in> rows ex_db. at_name (z_id ex_zone) ''www'' RT_A r \<and> r_data r = RD_A 0x0A000009)"
    by (simp add: ex_rows ex_www_def ex_star_def)
  have "ex_www \<noteq> host_row ex_reg ex_rid3 0 ex_zone ''www'' (RD_A 0x0A000009)"
    by (simp add: ex_www_def host_row_def)
  with register_v4_effect [OF ex_db_reachable zone ex_fresh(3,4,1,2,1) ids, of 0 "''20261115''" "''www.g10.lo''" "0x0A000009"]
  have "ex_www \<notin> {r \<in> rows ?d. rd_type (r_data r) \<noteq> RT_PTR}"
    unfolding Let_def split_beta host if_not_P [OF other] using www(2) by auto
  with www show ?thesis
    using ex_db_reachable by (simp add: ex_rows)
qed

text \<open>
  C19. Withdrawing a DHCP client removes every record of its name from the forward zone, of every
  type and origin, and no other record of that zone.
\<close>

theorem unregister_effect:
  assumes "db_reachable d" "get_zone_by_name d (forward_zone reg) = Some z" "\<not> is_reverse_zone (forward_zone reg)"
  shows "let (res, d') = unregister reg now today hostname d
         in res = Inr () \<and> db_reachable d' \<and> rows d' \<subseteq> rows d \<and>
            {r \<in> rows d'. r_zone_id r = z_id z} =
              {r \<in> rows d. r_zone_id r = z_id z \<and> r_name r \<noteq> sanitize_hostname reg hostname}"
  using unregister_result [OF assms, of now today hostname] by (elim exE conjE) simp

theorem unregister_effect_witness:
  "db_reachable ex_db \<and> ex_www \<in> rows ex_db \<and> ex_www \<notin> rows (snd (unregister ex_reg 0 ''20261115'' ''www'' ex_db))"
proof -
  have zone: "get_zone_by_name ex_db (forward_zone ex_reg) = Some ex_zone"
    and fwd: "\<not> is_reverse_zone (forward_zone ex_reg)"
    and host: "sanitize_hostname ex_reg ''www'' = ''www''"
    by code_simp+
  have "r_zone_id ex_www = z_id ex_zone"
    by (simp add: ex_www_def ex_zone_def)
  then show ?thesis
    using unregister_effect [OF ex_db_reachable zone fwd, of 0 "''20261115''" "''www''"] ex_db_reachable ex_rows ex_names(1)
    unfolding Let_def split_beta host by auto
qed

end
