(* ===== verification/Events.thy ===== *)
theory Events
  imports Types
begin

text \<open>
  The events of the message bus, \<^verbatim>\<open>crates/microdns-msg/src/events.rs\<close>. Every component that
  publishes keeps the list of the events it handed to the bus in its state.
\<close>

datatype change_action = Created | Updated | Deleted

datatype config_payload =
    ZoneSync (zone_json: string) (records_json: string)
  | ConfigUpdate (config_toml: string)

datatype event =
    LeaseCreated (ev_instance: string) (ev_ip: string) (ev_mac: string) (ev_hostname: "string option")
      (ev_pool: string) (ev_time: instant)
  | LeaseReleased (ev_instance: string) (ev_ip: string) (ev_mac: string) (ev_time: instant)
  | ZoneChanged (ev_instance: string) (ev_zone: uuid) (ev_zone_name: string) (ev_action: change_action) (ev_time: instant)
  | RecordChanged (ev_instance: string) (ev_zone: uuid) (ev_record: uuid) (ev_record_name: string)
      (ev_action: change_action) (ev_time: instant)
  | HealthChanged (ev_instance: string) (ev_record: uuid) (ev_record_name: string) (ev_healthy: bool) (ev_time: instant)
  | Heartbeat (ev_instance: string) (ev_mode: string) (ev_uptime: u64) (ev_leases: u64) (ev_zones: u64) (ev_time: instant)
  | ConfigPush (ev_source: string) (ev_target: "string option") (ev_payload: config_payload) (ev_time: instant)
  | DhcpPoolChanged (ev_instance: string) (ev_pool_id: uuid) (ev_pool_name: string) (ev_action: change_action)
      (ev_time: instant)
  | DhcpReservationChanged (ev_instance: string) (ev_mac: string) (ev_ip: string) (ev_hostname: "string option")
      (ev_action: change_action) (ev_time: instant)
  | DnsForwarderChanged (ev_instance: string) (ev_forward_zone: string) (ev_action: change_action) (ev_time: instant)

fun instance_id :: "event \<Rightarrow> string" where
  "instance_id (LeaseCreated i _ _ _ _ _) = i"
| "instance_id (LeaseReleased i _ _ _) = i"
| "instance_id (ZoneChanged i _ _ _ _) = i"
| "instance_id (RecordChanged i _ _ _ _ _) = i"
| "instance_id (HealthChanged i _ _ _ _) = i"
| "instance_id (Heartbeat i _ _ _ _ _) = i"
| "instance_id (ConfigPush s _ _ _) = s"
| "instance_id (DhcpPoolChanged i _ _ _ _) = i"
| "instance_id (DhcpReservationChanged i _ _ _ _ _) = i"
| "instance_id (DnsForwarderChanged i _ _ _) = i"

fun topic_suffix :: "event \<Rightarrow> string" where
  "topic_suffix (LeaseCreated _ _ _ _ _ _) = ''leases''"
| "topic_suffix (LeaseReleased _ _ _ _) = ''leases''"
| "topic_suffix (ZoneChanged _ _ _ _ _) = ''dns''"
| "topic_suffix (RecordChanged _ _ _ _ _ _) = ''dns''"
| "topic_suffix (HealthChanged _ _ _ _ _) = ''health''"
| "topic_suffix (Heartbeat _ _ _ _ _ _) = ''heartbeat''"
| "topic_suffix (ConfigPush _ _ _ _) = ''config''"
| "topic_suffix (DhcpPoolChanged _ _ _ _ _) = ''dhcp.pools''"
| "topic_suffix (DhcpReservationChanged _ _ _ _ _ _) = ''dhcp.reservations''"
| "topic_suffix (DnsForwarderChanged _ _ _ _) = ''dns.forwarders''"

end
