(* ===== verification/Dhcp_Server.thy ===== *)
theory Dhcp_Server
  imports Dhcp_Pool Dhcp_Packet Leases Dns_Register Db_Config Events
begin

text \<open>
  The DHCPv4 server, \<^verbatim>\<open>crates/microdns-dhcp/src/v4/server.rs\<close>: building its pools from the
  database, the handlers of the client messages and the replies. The state holds the database, the
  pools with what is allocated in them, and the events handed to the message bus and to the
  dashboard. The clock and the fresh UUIDs are arguments; the sockets and timers of the two receive
  loops are not modelled, only what one datagram or one tick does.
\<close>

unbundle bit_operations_syntax

section \<open>State\<close>

record pxe_config =
  px_next_server :: ipv4
  px_boot_file :: string
  px_boot_file_efi :: "string option"
  px_ipxe_boot_url :: "string option"
  px_root_path :: "string option"

datatype dhcp_mode = Normal | Gateway

record dhcp_server =
  sv_db :: db
  sv_mode :: dhcp_mode
  sv_pools :: "ipv4_pool list"
  sv_pxe_configs :: "pxe_config option list"
  sv_server_ip :: ipv4
  sv_registrar :: "dns_registrar option"
  sv_bus :: bool
  sv_instance_id :: string
  sv_lease_tx :: bool
  sv_events :: "event list"
  sv_lease_events :: "(string \<times> string \<times> string) list"

text \<open>The fresh UUIDs of one request: of the lease, the A record, the reverse zone and the PTR record.\<close>

record fresh_ids =
  fr_lease :: uuid
  fr_record :: uuid
  fr_zone :: uuid
  fr_ptr :: uuid

text \<open>What a handler ends with: a reply, no reply, an error that is logged, or an abort of the process.\<close>

datatype handled = Reply dhcp_packet | Silent | Failed | Abort

definition replied :: "dhcp_packet option \<Rightarrow> handled" where
  "replied r = (case r of Some p \<Rightarrow> Reply p | None \<Rightarrow> Abort)"

section \<open>Pools\<close>

definition parse_ips :: "string list \<Rightarrow> ipv4 list" where
  "parse_ips ss = List.map_filter parse_ipv4 ss"

definition pool_pxe :: "dhcp_pool \<Rightarrow> pxe_config option" where
  "pool_pxe c =
     (case (dp_next_server c, dp_boot_file c) of
        (Some ns, Some bf) \<Rightarrow>
          Some \<lparr>px_next_server = (case parse_ipv4 ns of Some ip \<Rightarrow> ip | None \<Rightarrow> 0), px_boot_file = bf,
                px_boot_file_efi = dp_boot_file_efi c, px_ipxe_boot_url = dp_ipxe_boot_url c,
                px_root_path = dp_root_path c\<rparr>
      | _ \<Rightarrow> None)"

definition load_pool :: "dhcp_pool \<Rightarrow> (ipv4_pool \<times> pxe_config option) option" where
  "load_pool c =
     (let prefix_len = (case prefix_len_from_subnet (dp_subnet c) of Some n \<Rightarrow> n | None \<Rightarrow> 24);
          msk = subnet_mask_from_prefix prefix_len
      in case (parse_ipv4 (dp_range_start c), parse_ipv4 (dp_range_end c), parse_ipv4 (dp_gateway c)) of
           (Some rs, Some re, Some gw) \<Rightarrow>
             Some (pool_new rs re msk gw (parse_ips (dp_dns_servers c)) (dp_domain c) (ucast (dp_lease_time_secs c)),
                   pool_pxe c)
         | _ \<Rightarrow> None)"

definition load_pools :: "db \<Rightarrow> (ipv4_pool \<times> pxe_config option) list" where
  "load_pools d = List.map_filter load_pool (list_dhcp_pools d)"

definition server_new :: "dhcp_mode \<Rightarrow> string option \<Rightarrow> db \<Rightarrow> dhcp_server" where
  "server_new mode server_ip d =
     (let loaded = load_pools d; pools = map fst loaded
      in \<lparr>sv_db = d, sv_mode = mode, sv_pools = pools, sv_pxe_configs = map snd loaded,
          sv_server_ip =
            (case Option.bind server_ip parse_ipv4 of
               Some ip \<Rightarrow> ip
             | None \<Rightarrow> (case pools of p # _ \<Rightarrow> gateway p | [] \<Rightarrow> 0)),
          sv_registrar = None, sv_bus = False, sv_instance_id = [], sv_lease_tx = False,
          sv_events = [], sv_lease_events = []\<rparr>)"

definition with_dns_registrar :: "dns_registrar \<Rightarrow> dhcp_server \<Rightarrow> dhcp_server" where
  "with_dns_registrar reg srv = srv\<lparr>sv_registrar := Some reg\<rparr>"

definition with_message_bus :: "string \<Rightarrow> dhcp_server \<Rightarrow> dhcp_server" where
  "with_message_bus iid srv = srv\<lparr>sv_bus := True, sv_instance_id := iid\<rparr>"

definition with_lease_event_tx :: "dhcp_server \<Rightarrow> dhcp_server" where
  "with_lease_event_tx srv = srv\<lparr>sv_lease_tx := True\<rparr>"

definition mark_all :: "string list \<Rightarrow> ipv4_pool list \<Rightarrow> ipv4_pool list" where
  "mark_all ips pools = fold (\<lambda>ip. map (mark_allocated ip)) (parse_ips ips) pools"

definition taken_ips :: "instant \<Rightarrow> db \<Rightarrow> string list" where
  "taken_ips now d = map l_ip_addr (list_active_leases now d) @ map dr_ip (list_dhcp_reservations d)"

definition restore_leases :: "instant \<Rightarrow> dhcp_server \<Rightarrow> dhcp_server" where
  "restore_leases now srv = srv\<lparr>sv_pools := mark_all (taken_ips now (sv_db srv)) (sv_pools srv)\<rparr>"

definition sync_pool :: "instant \<Rightarrow> dhcp_server \<Rightarrow> dhcp_server" where
  "sync_pool now srv =
     (let loaded = load_pools (sv_db srv)
      in srv\<lparr>sv_pools := mark_all (taken_ips now (sv_db srv)) (map fst loaded), sv_pxe_configs := map snd loaded\<rparr>)"

definition get_reservation :: "dhcp_server \<Rightarrow> string \<Rightarrow> (ipv4 \<times> string option) option" where
  "get_reservation srv mac =
     (case get_dhcp_reservation (sv_db srv) mac of
        Some res \<Rightarrow> map_option (\<lambda>ip. (ip, dr_hostname res)) (parse_ipv4 (dr_ip res))
      | None \<Rightarrow> None)"

section \<open>Replies\<close>

definition build_nak :: "dhcp_server \<Rightarrow> dhcp_packet \<Rightarrow> dhcp_packet" where
  "build_nak srv req =
     \<lparr>pk_op = 2, pk_htype = pk_htype req, pk_hlen = pk_hlen req, pk_hops = 0, pk_xid = pk_xid req,
      pk_secs = 0, pk_flags = pk_flags req, pk_ciaddr = 0, pk_yiaddr = 0, pk_siaddr = sv_server_ip srv,
      pk_giaddr = pk_giaddr req, pk_chaddr = pk_chaddr req, pk_sname = replicate 64 0, pk_file = replicate 128 0,
      pk_options = [message_type_option Nak, ip_option OPT_SERVER_ID (sv_server_ip srv), end_option]\<rparr>"

text \<open>The options of the pool: mask, router, lease time, DNS servers and domain name.\<close>

definition pool_options :: "dhcp_reservation option \<Rightarrow> dhcp_pool option \<Rightarrow> ipv4_pool \<Rightarrow> dhcp_option list" where
  "pool_options db_res db_pool pool =
     (let gw = (case Option.bind (Option.bind db_res dr_gateway) parse_ipv4 of Some ip \<Rightarrow> ip | None \<Rightarrow> gateway pool);
          lease_time = (case Option.bind db_res dr_lease_time_secs of Some v \<Rightarrow> ucast v | None \<Rightarrow> lease_time_secs pool);
          dns = (case Option.bind db_res dr_dns_servers of Some ss \<Rightarrow> parse_ips ss | None \<Rightarrow> dns_servers pool);
          has_domain_search =
            (case or_else (Option.bind db_res dr_domain_search) (Option.bind db_pool dp_domain_search) of
               Some ds \<Rightarrow> ds \<noteq> [] | None \<Rightarrow> False);
          dmn = (case Option.bind db_res dr_domain of Some s \<Rightarrow> s | None \<Rightarrow> domain pool)
      in [ip_option OPT_SUBNET_MASK (subnet_mask pool), ip_option OPT_ROUTER gw, u32_option OPT_LEASE_TIME lease_time] @
         (if dns \<noteq> [] then [ip_list_option OPT_DNS_SERVER dns] else []) @
         (if \<not> has_domain_search \<and> dmn \<noteq> [] then [string_option OPT_DOMAIN_NAME dmn] else []))"

text \<open>The options a reservation may override and otherwise inherits from the pool of the database.\<close>

definition extended_options :: "dhcp_reservation option \<Rightarrow> dhcp_pool option \<Rightarrow> dhcp_option list" where
  "extended_options db_res db_pool =
     (case or_else (Option.bind db_res dr_ntp_servers) (Option.bind db_pool dp_ntp_servers) of
        Some ntp \<Rightarrow> if parse_ips ntp \<noteq> [] then [ip_list_option OPT_NTP_SERVERS (parse_ips ntp)] else []
      | None \<Rightarrow> []) @
     (case or_else (Option.bind db_res dr_mtu) (Option.bind db_pool dp_mtu) of
        Some mtu \<Rightarrow> [u16_option OPT_MTU mtu] | None \<Rightarrow> []) @
     (case or_else (Option.bind db_res dr_domain_search) (Option.bind db_pool dp_domain_search) of
        Some domains \<Rightarrow> if domains \<noteq> [] then [domain_search_option domains] else [] | None \<Rightarrow> []) @
     (case or_else (Option.bind db_res dr_log_server) (Option.bind db_pool dp_log_server) of
        Some s \<Rightarrow> (case parse_ipv4 s of Some ip \<Rightarrow> [ip_option OPT_LOG_SERVER ip] | None \<Rightarrow> []) | None \<Rightarrow> []) @
     (case or_else (Option.bind db_res dr_time_offset) (Option.bind db_pool dp_time_offset) of
        Some v \<Rightarrow> [i32_option OPT_TIME_OFFSET v] | None \<Rightarrow> []) @
     (case or_else (Option.bind db_res dr_wpad_url) (Option.bind db_pool dp_wpad_url) of
        Some url \<Rightarrow> [string_option OPT_WPAD url] | None \<Rightarrow> [])"

text \<open>Option 121; \<^term>\<open>None\<close> is the panic of the encoder.\<close>

definition route_options ::
  "dhcp_server \<Rightarrow> dhcp_reservation option \<Rightarrow> dhcp_pool option \<Rightarrow> ipv4_pool option \<Rightarrow> dhcp_option list option" where
  "route_options srv db_res db_pool effective_pool =
     (case or_else (Option.bind db_res dr_static_routes) (Option.bind db_pool dp_static_routes) of
        None \<Rightarrow> Some []
      | Some routes \<Rightarrow>
          (let parsed = List.map_filter
                 (\<lambda>r. map_option (\<lambda>gw. (sr_destination r, gw)) (parse_ipv4 (sr_gateway r))) routes;
               gw = (case or_else (Option.bind (Option.bind db_res dr_gateway) parse_ipv4)
                                  (map_option gateway effective_pool) of
                       Some ip \<Rightarrow> ip | None \<Rightarrow> sv_server_ip srv)
           in if parsed = [] then Some []
              else map_option (\<lambda>opt. [opt]) (classless_static_routes_option
                     (if list_ex (\<lambda>(dest, _). dest = ''0.0.0.0/0'') parsed then parsed
                      else (''0.0.0.0/0'', gw) # parsed))))"

definition has_window :: "u8 list \<Rightarrow> u8 list \<Rightarrow> bool" where
  "has_window w d = list_ex (\<lambda>i. take (length w) (drop i d) = w) [0..<length d + 1 - length w]"

definition is_ipxe :: "dhcp_packet \<Rightarrow> bool" where
  "is_ipxe req \<longleftrightarrow> get_option req OPT_IPXE_ENCAP \<noteq> None \<or>
     (case get_option req OPT_USER_CLASS of Some d \<Rightarrow> has_window (as_bytes ''iPXE'') d | None \<Rightarrow> False)"

definition is_efi :: "dhcp_packet \<Rightarrow> bool" where
  "is_efi req \<longleftrightarrow>
     (case get_option req OPT_CLIENT_ARCH of
        Some (a # b # _) \<Rightarrow> u16_from_be a b \<in> {6, 7, 9, 10, 11}
      | _ \<Rightarrow> False)"

text \<open>A fixed-size field of \<open>n\<close> bytes holding at most \<open>n - 1\<close> bytes of a text.\<close>

definition fixed_field :: "nat \<Rightarrow> u8 list \<Rightarrow> u8 list" where
  "fixed_field n bs = (let len = min (length bs) (n - 1) in take len bs @ replicate (n - len) 0)"

text \<open>The boot options with the \<^verbatim>\<open>siaddr\<close>, \<^verbatim>\<open>sname\<close> and \<^verbatim>\<open>file\<close> fields.\<close>

definition pxe_options ::
  "dhcp_server \<Rightarrow> dhcp_packet \<Rightarrow> dhcp_reservation option \<Rightarrow> pxe_config option \<Rightarrow>
   dhcp_option list \<times> ipv4 \<times> u8 list \<times> u8 list" where
  "pxe_options srv req db_res pxe =
     (let next_server = or_else (Option.bind (Option.bind db_res dr_next_server) parse_ipv4)
            (map_option px_next_server pxe);
          boot_file = or_else (Option.bind db_res dr_boot_file) (map_option px_boot_file pxe);
          boot_file_efi = or_else (Option.bind db_res dr_boot_file_efi) (Option.bind pxe px_boot_file_efi);
          ipxe_url = or_else (Option.bind db_res dr_ipxe_boot_url) (Option.bind pxe px_ipxe_boot_url);
          root_path = Option.bind (or_else (Option.bind db_res dr_root_path) (Option.bind pxe px_root_path))
            (\<lambda>rp. if rp = [] then None else Some rp);
          root = (case root_path of Some rp \<Rightarrow> [string_option OPT_ROOT_PATH rp] | None \<Rightarrow> [])
      in case (next_server, boot_file) of
           (Some next_srv, Some bf) \<Rightarrow>
             (let bfile =
                    (if is_ipxe req
                     then (if root_path \<noteq> None then bf else case ipxe_url of Some url \<Rightarrow> url | None \<Rightarrow> bf)
                     else if is_efi req then (case boot_file_efi of Some efi \<Rightarrow> efi | None \<Rightarrow> bf)
                     else bf);
                  ns = as_bytes (ipv4_str next_srv)
              in if is_ipxe req
                 then (root @ [string_option OPT_BOOTFILE bfile], sv_server_ip srv, replicate 64 0,
                       fixed_field 128 (as_bytes bfile))
                 else (root @ [string_option OPT_TFTP_SERVER (ipv4_str next_srv), string_option OPT_BOOTFILE bfile],
                       next_srv, fixed_field 64 ns, fixed_field 128 (as_bytes bfile)))
         | _ \<Rightarrow> (root, sv_server_ip srv, replicate 64 0, replicate 128 0))"

definition build_response :: "dhcp_server \<Rightarrow> dhcp_packet \<Rightarrow> ipv4 \<Rightarrow> dhcp_message_type \<Rightarrow> dhcp_packet option" where
  "build_response srv req ip t =
     (let db_res = get_dhcp_reservation (sv_db srv) (mac_address req);
          db_pools = list_dhcp_pools (sv_db srv);
          pool_idx = position (\<lambda>p. pool_contains p ip) (sv_pools srv);
          effective_pool = or_else (map_option ((!) (sv_pools srv)) pool_idx) (nth_opt (sv_pools srv) 0);
          effective_idx = (case pool_idx of Some i \<Rightarrow> i | None \<Rightarrow> 0);
          db_pool = nth_opt db_pools effective_idx;
          pxe = (case nth_opt (sv_pxe_configs srv) effective_idx of Some c \<Rightarrow> c | None \<Rightarrow> None);
          (boot, siaddr, sname, bootfile) = pxe_options srv req db_res pxe
      in map_option (\<lambda>routes.
           \<lparr>pk_op = 2, pk_htype = pk_htype req, pk_hlen = pk_hlen req, pk_hops = 0, pk_xid = pk_xid req, pk_secs = 0,
            pk_flags = (if pk_giaddr req \<noteq> 0 then pk_flags req OR 0x8000 else pk_flags req),
            pk_ciaddr = 0, pk_yiaddr = ip, pk_siaddr = siaddr, pk_giaddr = pk_giaddr req, pk_chaddr = pk_chaddr req,
            pk_sname = sname, pk_file = bootfile,
            pk_options =
              [message_type_option t, ip_option OPT_SERVER_ID (sv_server_ip srv)] @
              (case effective_pool of Some pool \<Rightarrow> pool_options db_res db_pool pool | None \<Rightarrow> []) @
              extended_options db_res db_pool @ routes @ boot @ [end_option]\<rparr>)
         (route_options srv db_res db_pool effective_pool))"

definition build_offer :: "dhcp_server \<Rightarrow> dhcp_packet \<Rightarrow> ipv4 \<Rightarrow> dhcp_packet option" where
  "build_offer srv req ip = build_response srv req ip Offer"

definition build_ack :: "dhcp_server \<Rightarrow> dhcp_packet \<Rightarrow> ipv4 \<Rightarrow> dhcp_packet option" where
  "build_ack srv req ip = build_response srv req ip Ack"

section \<open>Handlers\<close>

text \<open>\<^verbatim>\<open>iter_mut().any(allocate_specific)\<close> and \<^verbatim>\<open>iter_mut().find_map(allocate)\<close>: the first pool that succeeds.\<close>

fun allocate_specific_any :: "ipv4 \<Rightarrow> ipv4_pool list \<Rightarrow> bool \<times> ipv4_pool list" where
  "allocate_specific_any ip [] = (False, [])"
| "allocate_specific_any ip (p # ps) =
     (case allocate_specific ip p of
        (True, p') \<Rightarrow> (True, p' # ps)
      | (False, p') \<Rightarrow> (let (ok, ps') = allocate_specific_any ip ps in (ok, p' # ps')))"

fun allocate_any :: "ipv4_pool list \<Rightarrow> ipv4 option \<times> ipv4_pool list" where
  "allocate_any [] = (None, [])"
| "allocate_any (p # ps) =
     (case allocate p of
        (Some ip, p') \<Rightarrow> (Some ip, p' # ps)
      | (None, p') \<Rightarrow> (let (found, ps') = allocate_any ps in (found, p' # ps')))"

definition allocate_new :: "dhcp_server \<Rightarrow> dhcp_packet \<Rightarrow> handled \<times> dhcp_server" where
  "allocate_new srv req =
     (case allocate_any (sv_pools srv) of
        (Some ip, pools) \<Rightarrow> (let srv' = srv\<lparr>sv_pools := pools\<rparr> in (replied (build_offer srv' req ip), srv'))
      | (None, pools) \<Rightarrow> (Silent, srv\<lparr>sv_pools := pools\<rparr>))"

definition handle_discover :: "instant \<Rightarrow> dhcp_server \<Rightarrow> dhcp_packet \<Rightarrow> handled \<times> dhcp_server" where
  "handle_discover now srv req =
     (let mac = mac_address req
      in case get_reservation srv mac of
           Some (ip, _) \<Rightarrow>
             (let srv' = srv\<lparr>sv_pools := map (mark_allocated ip) (sv_pools srv)\<rparr>
              in (replied (build_offer srv' req ip), srv'))
         | None \<Rightarrow>
             (case find_lease_by_mac now (sv_db srv) mac of
                Some existing \<Rightarrow>
                  (case parse_ipv4 (l_ip_addr existing) of
                     Some ip \<Rightarrow> (replied (build_offer srv req ip), srv)
                   | None \<Rightarrow> (Failed, srv))
              | None \<Rightarrow>
                  (case requested_ip req of
                     Some requested \<Rightarrow>
                       (case allocate_specific_any requested (sv_pools srv) of
                          (True, pools) \<Rightarrow>
                            (let srv' = srv\<lparr>sv_pools := pools\<rparr> in (replied (build_offer srv' req requested), srv'))
                        | (False, pools) \<Rightarrow> allocate_new (srv\<lparr>sv_pools := pools\<rparr>) req)
                   | None \<Rightarrow> allocate_new srv req)))"

definition publish :: "event \<Rightarrow> dhcp_server \<Rightarrow> dhcp_server" where
  "publish e srv = (if sv_bus srv then srv\<lparr>sv_events := sv_events srv @ [e]\<rparr> else srv)"

definition broadcast :: "string \<Rightarrow> ipv4 \<Rightarrow> string \<Rightarrow> dhcp_server \<Rightarrow> dhcp_server" where
  "broadcast action ip mac srv =
     (if sv_lease_tx srv then srv\<lparr>sv_lease_events := sv_lease_events srv @ [(action, ipv4_str ip, mac)]\<rparr> else srv)"

definition register_host :: "fresh_ids \<Rightarrow> instant \<Rightarrow> string \<Rightarrow> string option \<Rightarrow> ipv4 \<Rightarrow> dhcp_server \<Rightarrow> dhcp_server" where
  "register_host fr now today host ip srv =
     (case (sv_registrar srv, host) of
        (Some reg, Some name) \<Rightarrow>
          srv\<lparr>sv_db := snd (register_v4 reg (fr_record fr) (fr_zone fr) (fr_ptr fr) now today name ip (sv_db srv))\<rparr>
      | _ \<Rightarrow> srv)"

text \<open>From the creation of the lease to the ACK.\<close>

definition grant ::
  "fresh_ids \<Rightarrow> instant \<Rightarrow> string \<Rightarrow> dhcp_server \<Rightarrow> dhcp_packet \<Rightarrow> ipv4 \<Rightarrow> string option \<Rightarrow> u32 \<Rightarrow> string \<Rightarrow> handled \<times> dhcp_server" where
  "grant fr now today srv req ip host secs dmn =
     (let mac = mac_address req
      in case create_lease (fr_lease fr) now (ipv4_str ip) mac host secs dmn (sv_db srv) of
           (Inl _, d) \<Rightarrow> (Failed, srv\<lparr>sv_db := d\<rparr>)
         | (Inr _, d) \<Rightarrow>
             (let srv1 = broadcast ''created'' ip mac
                    (publish (LeaseCreated (sv_instance_id srv) (ipv4_str ip) mac host dmn now) (srv\<lparr>sv_db := d\<rparr>));
                  srv2 = register_host fr now today host ip srv1
              in (replied (build_ack srv2 req ip), srv2)))"

definition handle_request :: "fresh_ids \<Rightarrow> instant \<Rightarrow> string \<Rightarrow> dhcp_server \<Rightarrow> dhcp_packet \<Rightarrow> handled \<times> dhcp_server" where
  "handle_request fr now today srv req =
     (let mac = mac_address req;
          res = get_reservation srv mac
      in case or_else (requested_ip req) (if pk_ciaddr req \<noteq> 0 then Some (pk_ciaddr req) else None) of
           None \<Rightarrow> (Reply (build_nak srv req), srv)
         | Some ip \<Rightarrow>
             if (case res of Some (reserved, _) \<Rightarrow> reserved \<noteq> ip | None \<Rightarrow> False)
             then (Reply (build_nak srv req), srv)
             else
               (let host = or_else (Option.bind res snd) (hostname req)
                in case List.find (\<lambda>p. pool_contains p ip) (sv_pools srv) of
                     Some p \<Rightarrow> grant fr now today srv req ip host (lease_time_secs p) (domain p)
                   | None \<Rightarrow>
                       if res \<noteq> None
                       then (case sv_pools srv of
                               p # _ \<Rightarrow> grant fr now today srv req ip host (lease_time_secs p) (domain p)
                             | [] \<Rightarrow> grant fr now today srv req ip host 3600 [])
                       else (Reply (build_nak srv req), srv)))"

definition handle_release :: "instant \<Rightarrow> string \<Rightarrow> dhcp_server \<Rightarrow> dhcp_packet \<Rightarrow> handled \<times> dhcp_server" where
  "handle_release now today srv req =
     (let mac = mac_address req; ip = pk_ciaddr req
      in if ip = 0 then (Silent, srv)
         else
           (let host = Option.bind (find_lease_by_mac now (sv_db srv) mac) l_hostname;
                srv1 = (case (sv_registrar srv, host) of
                          (Some reg, Some name) \<Rightarrow> srv\<lparr>sv_db := snd (unregister reg now today name (sv_db srv))\<rparr>
                        | _ \<Rightarrow> srv);
                srv2 = (if get_reservation srv1 mac = None then srv1\<lparr>sv_pools := map (release ip) (sv_pools srv1)\<rparr> else srv1)
            in case release_lease_by_mac mac (sv_db srv2) of
                 (Inl _, d) \<Rightarrow> (Failed, srv2\<lparr>sv_db := d\<rparr>)
               | (Inr _, d) \<Rightarrow>
                   (Silent, broadcast ''released'' ip mac
                      (publish (LeaseReleased (sv_instance_id srv) (ipv4_str ip) mac now) (srv2\<lparr>sv_db := d\<rparr>)))))"

definition handle_packet :: "fresh_ids \<Rightarrow> instant \<Rightarrow> string \<Rightarrow> dhcp_server \<Rightarrow> dhcp_packet \<Rightarrow> handled \<times> dhcp_server" where
  "handle_packet fr now today srv req =
     (case message_type req of
        Some Discover \<Rightarrow> handle_discover now srv req
      | Some Request \<Rightarrow> handle_request fr now today srv req
      | Some Release \<Rightarrow> handle_release now today srv req
      | _ \<Rightarrow> (Silent, srv))"

text \<open>What one datagram does in either receive loop: the address, port and bytes of the answer.\<close>

definition reply_to_normal :: "dhcp_packet \<Rightarrow> ipv4 \<times> u16" where
  "reply_to_normal req =
     (if pk_giaddr req \<noteq> 0 then (pk_giaddr req, 67)
      else if pk_ciaddr req = 0 \<or> pk_flags req AND 0x8000 \<noteq> 0 then (0xFFFFFFFF, 68)
      else (pk_ciaddr req, 68))"

definition reply_to_gateway :: "dhcp_packet \<Rightarrow> dhcp_packet \<Rightarrow> ipv4 \<times> u16" where
  "reply_to_gateway req resp =
     (if pk_giaddr req \<noteq> 0 then (pk_giaddr req, 67)
      else if pk_flags req AND 0x8000 \<noteq> 0 then (0xFFFFFFFF, 68)
      else if pk_yiaddr resp \<noteq> 0 then (pk_yiaddr resp, 68)
      else (0xFFFFFFFF, 68))"

datatype served = Sent ipv4 u16 "u8 list" | Nothing | Aborted

definition serve_normal :: "fresh_ids \<Rightarrow> instant \<Rightarrow> string \<Rightarrow> dhcp_server \<Rightarrow> u8 list \<Rightarrow> served \<times> dhcp_server" where
  "serve_normal fr now today srv buf =
     (case parse buf of
        None \<Rightarrow> (Nothing, srv)
      | Some req \<Rightarrow>
          if pk_op req \<noteq> 1 then (Nothing, srv)
          else (case handle_packet fr now today srv req of
                  (Reply resp, srv') \<Rightarrow> (let (ip, port) = reply_to_normal req in (Sent ip port (to_bytes resp), srv'))
                | (Abort, srv') \<Rightarrow> (Aborted, srv')
                | (_, srv') \<Rightarrow> (Nothing, srv')))"

definition serve_gateway :: "fresh_ids \<Rightarrow> instant \<Rightarrow> string \<Rightarrow> dhcp_server \<Rightarrow> u8 list \<Rightarrow> served \<times> dhcp_server" where
  "serve_gateway fr now today srv buf =
     (case parse buf of
        None \<Rightarrow> (Nothing, srv)
      | Some req \<Rightarrow>
          if pk_op req \<noteq> 1 then (Nothing, srv)
          else if pk_giaddr req = 0 then (Nothing, srv)
          else (case handle_packet fr now today srv req of
                  (Reply resp, srv') \<Rightarrow> (let (ip, port) = reply_to_gateway req resp in (Sent ip port (to_bytes resp), srv'))
                | (Abort, srv') \<Rightarrow> (Aborted, srv')
                | (_, srv') \<Rightarrow> (Nothing, srv')))"

section \<open>Facts\<close>

subsection \<open>Replies\<close>

lemma reply_option_codes:
  "opt \<in> set (pool_options db_res db_pool pool) \<Longrightarrow> o_code opt \<in> {1, 3, 6, 15, 51}"
  "opt \<in> set (extended_options db_res db_pool) \<Longrightarrow> o_code opt \<in> {2, 7, 26, 42, 119, 252}"
  "route_options srv db_res db_pool ep = Some os \<Longrightarrow> opt \<in> set os \<Longrightarrow> o_code opt = 121"
  "opt \<in> set (fst (pxe_options srv req db_res pxe)) \<Longrightarrow> o_code opt \<in> {17, 66, 67}"
  by (auto simp: pool_options_def extended_options_def route_options_def pxe_options_def Let_def ip_option_def
      u32_option_def ip_list_option_def string_option_def u16_option_def domain_search_option_def i32_option_def
      classless_static_routes_option_def split: if_splits option.splits)

lemma length_fixed_field [simp]: "0 < n \<Longrightarrow> length (fixed_field n bs) = n"
  by (simp add: fixed_field_def Let_def)

lemma pxe_field_lengths:
  "length (fst (snd (snd (pxe_options srv req db_res pxe)))) = 64"
  "length (snd (snd (snd (pxe_options srv req db_res pxe)))) = 128"
  by (simp_all add: pxe_options_def Let_def split: option.split)

lemma build_response_fields:
  assumes "build_response srv req ip t = Some r"
  obtains os where
    "pk_options r = message_type_option t # ip_option OPT_SERVER_ID (sv_server_ip srv) # os @ [end_option]"
    "\<forall>opt \<in> set os. o_code opt \<in> {1, 2, 3, 6, 7, 15, 17, 26, 42, 51, 66, 67, 119, 121, 252}"
    "pk_yiaddr r = ip" "pk_xid r = pk_xid req" "pk_chaddr r = pk_chaddr req" "pk_giaddr r = pk_giaddr req"
    "pk_op r = 2" "length (pk_sname r) = 64" "length (pk_file r) = 128"
proof -
  obtain db_res db_pool ep pxe routes where r:
    "route_options srv db_res db_pool ep = Some routes"
    "r = \<lparr>pk_op = 2, pk_htype = pk_htype req, pk_hlen = pk_hlen req, pk_hops = 0, pk_xid = pk_xid req, pk_secs = 0,
            pk_flags = (if pk_giaddr req \<noteq> 0 then pk_flags req OR 0x8000 else pk_flags req),
            pk_ciaddr = 0, pk_yiaddr = ip, pk_siaddr = fst (snd (pxe_options srv req db_res pxe)),
            pk_giaddr = pk_giaddr req, pk_chaddr = pk_chaddr req,
            pk_sname = fst (snd (snd (pxe_options srv req db_res pxe))),
            pk_file = snd (snd (snd (pxe_options srv req db_res pxe))),
            pk_options = [message_type_option t, ip_option OPT_SERVER_ID (sv_server_ip srv)] @
              (case ep of Some pool \<Rightarrow> pool_options db_res db_pool pool | None \<Rightarrow> []) @
              extended_options db_res db_pool @ routes @ fst (pxe_options srv req db_res pxe) @ [end_option]\<rparr>"
    using assms unfolding build_response_def Let_def split_beta by (auto split: prod.splits)
  let ?os = "(case ep of Some pool \<Rightarrow> pool_options db_res db_pool pool | None \<Rightarrow> []) @
              extended_options db_res db_pool @ routes @ fst (pxe_options srv req db_res pxe)"
  have "\<forall>opt \<in> set ?os. o_code opt \<in> {1, 2, 3, 6, 7, 15, 17, 26, 42, 51, 66, 67, 119, 121, 252}"
    using reply_option_codes(1) [of _ db_res db_pool] reply_option_codes(2) [of _ db_res db_pool]
      reply_option_codes(3) [OF r(1)] reply_option_codes(4) [of _ srv req db_res pxe]
    by (fastforce split: option.splits)
  with r(2) pxe_field_lengths [of srv req db_res pxe] show ?thesis
    by (intro that [of ?os]) simp_all
qed

lemma reply_message_type: "build_response srv req ip t = Some r \<Longrightarrow> message_type r = Some t"
  by (elim build_response_fields) (simp add: message_type_def get_option_def message_type_option_def msg_type_roundtrip)

subsection \<open>Allocation\<close>

definition apart :: "ipv4_pool \<Rightarrow> ipv4_pool \<Rightarrow> bool" where
  "apart p q \<longleftrightarrow> range_end p < range_start q \<or> range_end q < range_start p"

text \<open>One pool of the list handed out an address that was free in it.\<close>

definition took :: "ipv4_pool list \<Rightarrow> ipv4 \<Rightarrow> ipv4_pool list \<Rightarrow> bool" where
  "took ps ip ps' \<longleftrightarrow> (\<exists>i < length ps. pool_contains (ps ! i) ip \<and> ip \<notin> allocated (ps ! i) \<and>
     ps' = ps[i := (ps ! i)\<lparr>allocated := insert ip (allocated (ps ! i))\<rparr>])"

definition marked :: "ipv4 set \<Rightarrow> ipv4_pool list \<Rightarrow> bool" where
  "marked X ps \<longleftrightarrow> (\<forall>p \<in> set ps. Collect (pool_contains p) \<inter> X \<subseteq> allocated p)"

definition all_taken :: "ipv4_pool list \<Rightarrow> bool" where
  "all_taken ps \<longleftrightarrow> (\<forall>p \<in> set ps. Collect (pool_contains p) \<subseteq> allocated p)"

lemma took_Cons:
  "took ps ip ps' \<Longrightarrow> took (p # ps) ip (p # ps')"
  "pool_contains p ip \<Longrightarrow> ip \<notin> allocated p \<Longrightarrow> took (p # ps) ip (p\<lparr>allocated := insert ip (allocated p)\<rparr> # ps)"
  unfolding took_def by (metis Suc_less_eq length_Cons list_update_code(3) nth_Cons_Suc)
    (metis length_Cons list_update_code(2) nth_Cons_0 zero_less_Suc)

lemma allocate_cases:
  obtains ip where "allocate p = (Some ip, p\<lparr>allocated := insert ip (allocated p)\<rparr>)"
    "pool_contains p ip" "ip \<notin> allocated p"
  | "allocate p = (None, p)" "Collect (pool_contains p) \<subseteq> allocated p"
proof (cases "allocate p")
  case (Pair r p')
  show thesis
  proof (cases r)
    case None
    with Pair v4pool.alloc_None [of p p'] show thesis
      by (intro that(2)) simp_all
  next
    case (Some ip)
    with Pair v4pool.alloc_Some [of p ip p'] show thesis
      by (intro that(1) [of ip]) (auto simp: allocate_def split: option.splits)
  qed
qed

lemma allocate_any_result:
  "case allocate_any ps of (Some ip, ps') \<Rightarrow> took ps ip ps' | (None, ps') \<Rightarrow> ps' = ps \<and> all_taken ps"
proof (induction ps)
  case (Cons p ps)
  show ?case
    using Cons
    by (cases p rule: allocate_cases)
       (auto simp: all_taken_def intro: took_Cons split: prod.splits option.splits)
qed (simp add: all_taken_def)

lemma allocate_specific_any_result:
  "case allocate_specific_any ip ps of (True, ps') \<Rightarrow> took ps ip ps' | (False, ps') \<Rightarrow> ps' = ps"
proof (induction ps)
  case (Cons p ps)
  then show ?case
    by (auto simp: allocate_specific_def intro: took_Cons split: prod.splits bool.splits)
qed simp

lemma took_ranges: "took ps ip ps' \<Longrightarrow> sorted_wrt apart ps \<Longrightarrow> sorted_wrt apart ps'"
  unfolding took_def sorted_wrt_iff_nth_less apart_def
  by (elim exE conjE, simp only: length_list_update) (simp add: nth_list_update split: if_split)

lemma apart_contains:
  assumes "sorted_wrt apart ps" "i < length ps" "j < length ps" "pool_contains (ps ! i) ip" "pool_contains (ps ! j) ip"
  shows "i = j"
proof (rule ccontr)
  assume "i \<noteq> j"
  then have "apart (ps ! i) (ps ! j) \<or> apart (ps ! j) (ps ! i)"
    using assms(1-3) by (metis linorder_neqE_nat sorted_wrt_iff_nth_less)
  with assms(4,5) show False
    by (auto simp: apart_def pool_contains_def)
qed

lemma took_marked:
  assumes "took ps ip ps'" "marked X ps" "sorted_wrt apart ps"
  shows "ip \<notin> X" "marked (insert ip X) ps'"
proof -
  obtain i where i: "i < length ps" "pool_contains (ps ! i) ip" "ip \<notin> allocated (ps ! i)"
    "ps' = ps[i := (ps ! i)\<lparr>allocated := insert ip (allocated (ps ! i))\<rparr>]"
    using assms(1) unfolding took_def by blast
  have sub: "Collect (pool_contains (ps ! j)) \<inter> X \<subseteq> allocated (ps ! j)" if "j < length ps" for j
    using assms(2) that by (simp add: marked_def)
  show "ip \<notin> X"
    using sub [OF i(1)] i(2,3) by blast
  have "Collect (pool_contains (ps' ! j)) \<inter> insert ip X \<subseteq> allocated (ps' ! j)" if "j < length ps" for j
  proof (cases "j = i")
    case True
    then show ?thesis
      using sub [OF i(1)] i(1,4) by (auto simp: pool_contains_def)
  next
    case False
    then have "\<not> pool_contains (ps ! j) ip"
      using apart_contains [OF assms(3) that i(1) _ i(2)] by blast
    with False sub [OF that] i(4) show ?thesis
      by auto
  qed
  then show "marked (insert ip X) ps'"
    using i(4) by (simp add: marked_def all_set_conv_all_nth)
qed

lemma fold_map_each: "fold (\<lambda>x. map (f x)) xs ys = map (fold f xs) ys"
  by (induction xs arbitrary: ys) (simp_all add: comp_def)

lemma mark_all_marked: "marked (set (parse_ips ips)) (mark_all ips ps)"
proof -
  have "mark_all ips ps = map (fold mark_allocated (parse_ips ips)) ps"
    unfolding mark_all_def by (rule fold_map_each)
  then show ?thesis
    by (auto simp: marked_def v4pool.fold_mark_taken)
qed

subsection \<open>Clients without a reservation or a lease\<close>

definition new_client :: "instant \<Rightarrow> dhcp_server \<Rightarrow> dhcp_packet \<Rightarrow> bool" where
  "new_client now srv req \<longleftrightarrow> get_reservation srv (mac_address req) = None \<and>
     find_lease_by_mac now (sv_db srv) (mac_address req) = None"

lemma discover_new:
  assumes "new_client now srv req"
  obtains (offered) ip srv' where "handle_discover now srv req = (replied (build_offer srv' req ip), srv')"
      "took (sv_pools srv) ip (sv_pools srv')" "sv_db srv' = sv_db srv"
  | (refused) "handle_discover now srv req = (Silent, srv)" "all_taken (sv_pools srv)"
proof -
  have alloc: thesis if "handle_discover now srv req = allocate_new srv req"
  proof (cases "allocate_any (sv_pools srv)")
    case (Pair r ps)
    with that allocate_any_result [of "sv_pools srv"] show thesis
      by (cases r) (auto simp: allocate_new_def Let_def intro: refused offered [of "srv\<lparr>sv_pools := ps\<rparr>"])
  qed
  show thesis
  proof (cases "requested_ip req")
    case None
    with assms show thesis
      by (intro alloc) (simp add: handle_discover_def new_client_def)
  next
    case (Some ip)
    obtain ok ps where ps: "allocate_specific_any ip (sv_pools srv) = (ok, ps)"
      by fastforce
    with Some assms allocate_specific_any_result [where ip = ip and ps = "sv_pools srv"] show thesis
      by (cases ok)
         (auto simp: handle_discover_def new_client_def Let_def intro: alloc offered [of "srv\<lparr>sv_pools := ps\<rparr>"])
  qed
qed

lemma new_client_db: "sv_db srv' = sv_db srv \<Longrightarrow> new_client now srv' req = new_client now srv req"
  by (simp add: new_client_def get_reservation_def)

lemma replied_offer: "replied (build_offer srv req ip) = Reply r \<Longrightarrow> pk_yiaddr r = ip"
  by (auto simp: replied_def build_offer_def split: option.splits elim: build_response_fields)

text \<open>The addresses offered to a sequence of clients.\<close>

fun discover_all :: "instant \<Rightarrow> dhcp_server \<Rightarrow> dhcp_packet list \<Rightarrow> ipv4 list \<times> dhcp_server" where
  "discover_all now srv [] = ([], srv)"
| "discover_all now srv (req # reqs) =
     (let (h, srv1) = handle_discover now srv req; (ips, srv2) = discover_all now srv1 reqs
      in ((case h of Reply r \<Rightarrow> [pk_yiaddr r] | _ \<Rightarrow> []) @ ips, srv2))"

lemma discover_all_fresh:
  assumes "marked X (sv_pools srv)" "sorted_wrt apart (sv_pools srv)" "list_all (new_client now srv) reqs"
  shows "distinct (fst (discover_all now srv reqs)) \<and> set (fst (discover_all now srv reqs)) \<inter> X = {}"
  using assms
proof (induction reqs arbitrary: X srv)
  case (Cons req reqs)
  then have "new_client now srv req"
    by simp
  then show ?case
  proof (cases rule: discover_new)
    case (offered ip srv')
    have next_step: "marked (insert ip X) (sv_pools srv')" "sorted_wrt apart (sv_pools srv')" "ip \<notin> X"
      "list_all (new_client now srv') reqs"
      using took_marked [OF offered(2)] took_ranges [OF offered(2)] Cons.prems new_client_db [OF offered(3)]
      by (simp_all add: list_all_iff)
    with Cons.IH [OF next_step(1,2,4)] offered(1) show ?thesis
      by (auto simp: split_beta dest: replied_offer split: handled.splits)
  qed (use Cons in \<open>simp add: split_beta\<close>)
qed simp

subsection \<open>What registration leaves alone\<close>

definition dhcp_tables :: "db \<Rightarrow> _" where
  "dhcp_tables d = (leases d, mac_lease_index d, dhcp_pools d, dhcp_reservations d)"

lemma dns_op_dhcp_tables:
  "keeps (\<lambda>d. dhcp_tables d = x) (create_zone name z)"
  "keeps (\<lambda>d. dhcp_tables d = x) (create_record r)"
  "keeps (\<lambda>d. dhcp_tables d = x) (delete_record rid)"
  "keeps (\<lambda>d. dhcp_tables d = x) (increment_soa_serial today now zid)"
  by (auto simp: keeps_def dhcp_tables_def create_zone_def create_record_def insert_indexed_def delete_record_def
      increment_soa_serial_def Let_def split: option.splits)

lemma sync_ptr_dhcp_tables:
  "keeps (\<lambda>d. dhcp_tables d = x) (sync_ptr zid rid now today zn pn target ttl source)"
  "keeps (\<lambda>d. dhcp_tables d = x) (delete_ptr now today zn pn target)"
  unfolding sync_ptr_def ensure_reverse_zone_def delete_ptr_def Let_def
  by (auto intro!: keeps_returnE keeps_getE keeps_bindE keeps_thenE keeps_forE dns_op_dhcp_tables split: option.splits)

lemma register_dhcp_tables:
  "keeps (\<lambda>d. dhcp_tables d = x) (register_v4 reg rid zid prid now today host ip)"
  "keeps (\<lambda>d. dhcp_tables d = x) (unregister reg now today host)"
  unfolding register_v4_def register_addr_def sync_ptr_for_a_def unregister_def delete_reverse_record_def
    delete_ptr_for_a_def delete_ptr_for_aaaa_def Let_def
  by (auto intro!: keeps_returnE keeps_getE keeps_bindE keeps_thenE keeps_forE keeps_ignoreE dns_op_dhcp_tables sync_ptr_dhcp_tables
      split: option.splits record_data.splits)

lemmas registered_tables [simp] = register_dhcp_tables [THEN keepsD, OF refl]

lemma find_lease_tables: "dhcp_tables d' = dhcp_tables d \<Longrightarrow> find_lease_by_mac now d' = find_lease_by_mac now d"
  by (rule ext) (simp add: dhcp_tables_def find_lease_by_mac_def cong: option.case_cong)

lemma announce_fields [simp]:
  "sv_db (broadcast action ip mac srv) = sv_db srv" "sv_pools (broadcast action ip mac srv) = sv_pools srv"
  "sv_db (publish e srv) = sv_db srv" "sv_pools (publish e srv) = sv_pools srv"
  by (simp_all add: broadcast_def publish_def)

lemma register_host_fields [simp]:
  "dhcp_tables (sv_db (register_host fr now today host ip srv)) = dhcp_tables (sv_db srv)"
  "sv_pools (register_host fr now today host ip srv) = sv_pools srv"
  by (simp_all add: register_host_def split: option.split)

lemma grant_result:
  assumes "lease_inv (sv_db srv)" "tbl_get (leases (sv_db srv)) (fr_lease fr) = None"
  obtains srv' l where "grant fr now today srv req ip host secs dmn = (replied (build_ack srv' req ip), srv')"
    "sv_pools srv' = sv_pools srv" "l_ip_addr l = ipv4_str ip"
    "\<forall>t. find_lease_by_mac t (sv_db srv') (mac_address req) = (if t < now + seconds (uint secs) then Some l else None)"
    "\<forall>t m. m \<noteq> mac_address req \<longrightarrow> find_lease_by_mac t (sv_db srv') m = find_lease_by_mac t (sv_db srv) m"
proof -
  let ?mac = "mac_address req"
  obtain i d where d: "create_lease (fr_lease fr) now (ipv4_str ip) ?mac host secs dmn (sv_db srv) =
      (Inr (new_lease i now (ipv4_str ip) ?mac host secs dmn), d)"
    using create_lease_result [OF assms] by (metis prod.collapse)
  define l where "l = new_lease i now (ipv4_str ip) ?mac host secs dmn"
  define srv2 where "srv2 = register_host fr now today host ip (broadcast ''created'' ip ?mac
      (publish (LeaseCreated (sv_instance_id srv) (ipv4_str ip) ?mac host dmn now) (srv\<lparr>sv_db := d\<rparr>)))"
  have found: "find_lease_by_mac t d ?mac = (if t < now + seconds (uint secs) then Some l else None)"
    "m \<noteq> ?mac \<Longrightarrow> find_lease_by_mac t d m = find_lease_by_mac t (sv_db srv) m" for t m
    using create_lease_lookup [OF assms, of now "ipv4_str ip" ?mac host secs dmn t m] d
    by (auto simp: l_def)
  have "grant fr now today srv req ip host secs dmn = (replied (build_ack srv2 req ip), srv2)"
    using d by (simp add: grant_def Let_def srv2_def)
  moreover have "dhcp_tables (sv_db srv2) = dhcp_tables d" "sv_pools srv2 = sv_pools srv"
    by (simp_all add: srv2_def)
  ultimately show thesis
    using that [of srv2 l] found find_lease_tables [of "sv_db srv2" d] by (simp add: l_def new_lease_def)
qed

lemma handle_request_grants:
  assumes "requested_ip req = Some ip" "get_reservation srv (mac_address req) = Some (ip, h) \<or>
      get_reservation srv (mac_address req) = None \<and> (\<exists>p \<in> set (sv_pools srv). pool_contains p ip)"
  obtains host secs dmn where "handle_request fr now today srv req = grant fr now today srv req ip host secs dmn"
    "secs = 3600 \<or> secs \<in> lease_time_secs ` set (sv_pools srv)"
proof (cases "List.find (\<lambda>p. pool_contains p ip) (sv_pools srv)")
  case None
  then have "get_reservation srv (mac_address req) = Some (ip, h)"
    using assms(2) by (auto simp: find_None_iff)
  with assms(1) None show thesis
    by (cases "sv_pools srv") (auto simp: handle_request_def Let_def or_else_def intro: that)
next
  case (Some p)
  then have "p \<in> set (sv_pools srv)"
    by (auto simp: find_Some_iff)
  with assms Some show thesis
    by (intro that [of "or_else (Option.bind (get_reservation srv (mac_address req)) snd) (hostname req)"
          "lease_time_secs p" "domain p"])
       (auto simp: handle_request_def Let_def or_else_def)
qed

lemma request_leases:
  assumes "lease_inv (sv_db srv)" "tbl_get (leases (sv_db srv)) (fr_lease fr) = None" "requested_ip req = Some ip"
    and "get_reservation srv (mac_address req) = Some (ip, h) \<or>
      get_reservation srv (mac_address req) = None \<and> (\<exists>p \<in> set (sv_pools srv). pool_contains p ip)"
    and "\<forall>p \<in> set (sv_pools srv). 0 < lease_time_secs p"
  obtains srv' l where "handle_request fr now today srv req = (replied (build_ack srv' req ip), srv')"
    "sv_pools srv' = sv_pools srv" "l_ip_addr l = ipv4_str ip"
    "find_lease_by_mac now (sv_db srv') (mac_address req) = Some l"
    "\<And>m. m \<noteq> mac_address req \<Longrightarrow> find_lease_by_mac now (sv_db srv') m = find_lease_by_mac now (sv_db srv) m"
proof -
  obtain host secs dmn where g: "handle_request fr now today srv req = grant fr now today srv req ip host secs dmn"
    "secs = 3600 \<or> secs \<in> lease_time_secs ` set (sv_pools srv)"
    using handle_request_grants [OF assms(3,4)] .
  have "0 < secs"
    using g(2) assms(5) by auto
  then have pos: "now < now + seconds (uint secs)"
    by (simp add: seconds_def word_less_def)
  obtain srv' l where "grant fr now today srv req ip host secs dmn = (replied (build_ack srv' req ip), srv')"
    "sv_pools srv' = sv_pools srv" "l_ip_addr l = ipv4_str ip"
    "\<forall>t. find_lease_by_mac t (sv_db srv') (mac_address req) = (if t < now + seconds (uint secs) then Some l else None)"
    "\<forall>t m. m \<noteq> mac_address req \<longrightarrow> find_lease_by_mac t (sv_db srv') m = find_lease_by_mac t (sv_db srv) m"
    using grant_result [OF assms(1,2), where now = now and today = today and req = req and ip = ip and host = host
        and secs = secs and dmn = dmn] .
  with g(1) pos show thesis
    by (intro that [of srv' l]) simp_all
qed

subsection \<open>From the handlers to the wire\<close>

lemma handler_replies:
  "handle_discover now srv req = (Reply r, srv') \<Longrightarrow> \<exists>s ip. build_response s req ip Offer = Some r"
  "grant fr now today srv req ip host secs dmn = (Reply r, srv') \<Longrightarrow> \<exists>s. build_response s req ip Ack = Some r"
  "handle_release now today srv req \<noteq> (Reply r, srv')"
  by (auto simp: handle_discover_def allocate_new_def grant_def handle_release_def replied_def build_offer_def
      build_ack_def Let_def split: option.splits prod.splits bool.splits if_splits sum.splits)

lemma handle_packet_replies:
  assumes "handle_packet fr now today srv req = (Reply r, srv')"
  obtains s ip t where "build_response s req ip t = Some r" "t \<in> {Offer, Ack}" | "r = build_nak srv req"
proof -
  consider "handle_discover now srv req = (Reply r, srv')" | "handle_request fr now today srv req = (Reply r, srv')"
    using assms handler_replies(3)
    by (auto simp: handle_packet_def split: option.splits dhcp_message_type.splits)
  then show thesis
  proof cases
    case 1
    then show thesis
      using handler_replies(1) that(1) by blast
  next
    case 2
    then have "r = build_nak srv req \<or> (\<exists>ip host secs dmn. grant fr now today srv req ip host secs dmn = (Reply r, srv'))"
      unfolding handle_request_def Let_def
      by (auto split: option.splits prod.splits if_splits list.splits)
    then show thesis
      using handler_replies(2) that by blast
  qed
qed

lemma reply_shape:
  assumes "handle_packet fr now today srv req = (Reply r, srv')"
  shows "pk_op r = 2 \<and> pk_xid r = pk_xid req \<and> pk_chaddr r = pk_chaddr req \<and> pk_giaddr r = pk_giaddr req \<and>
    message_type r \<in> {Some Offer, Some Ack, Some Nak}"
  using assms
proof (cases rule: handle_packet_replies)
  case (1 s ip t)
  then show ?thesis
    by (auto elim: build_response_fields dest: reply_message_type)
next
  case 2
  then show ?thesis
    by (simp add: build_nak_def message_type_def get_option_def message_type_option_def msg_type_roundtrip)
qed

lemma reply_parses:
  assumes "packet_ok req" "handle_packet fr now today srv req = (Reply r, srv')"
    and "list_all (\<lambda>opt. length (o_data opt) < 256) (pk_options r)"
  shows "parse (to_bytes r) = Some r"
  using assms(2)
proof (cases rule: handle_packet_replies)
  case (1 s ip t)
  show ?thesis
  proof (rule build_response_fields [OF 1(1)])
    fix os
    assume os: "pk_options r = message_type_option t # ip_option OPT_SERVER_ID (sv_server_ip s) # os @ [end_option]"
      "\<forall>opt \<in> set os. o_code opt \<in> {1, 2, 3, 6, 7, 15, 17, 26, 42, 51, 66, 67, 119, 121, 252}"
      and r: "pk_chaddr r = pk_chaddr req" "length (pk_sname r) = 64" "length (pk_file r) = 128"
    then have "list_all option_plain (message_type_option t # ip_option OPT_SERVER_ID (sv_server_ip s) # os)"
      using assms(3) by (fastforce simp: list_all_iff option_plain_def message_type_option_def ip_option_def octets_def)
    then show ?thesis
      using os(1) r assms(1)
      by (intro wire_roundtrip_closed [of _ "message_type_option t # ip_option OPT_SERVER_ID (sv_server_ip s) # os"])
         (simp_all add: packet_ok_def)
  qed
next
  case 2
  then show ?thesis
    using assms(1)
    by (intro wire_roundtrip_closed [of _ "[message_type_option Nak, ip_option OPT_SERVER_ID (sv_server_ip srv)]"])
       (simp_all add: build_nak_def packet_ok_def option_plain_def message_type_option_def ip_option_def octets_def)
qed

section \<open>A server with one pool\<close>

definition ex_dhcp_pool :: dhcp_pool where
  "ex_dhcp_pool = \<lparr>dp_id = ''p1'', dp_name = ''lan'', dp_range_start = ''10.0.10.100'', dp_range_end = ''10.0.10.102'',
     dp_subnet = ''10.0.10.0/24'', dp_gateway = ''10.0.10.1'', dp_dns_servers = [''10.0.10.2''], dp_domain = ''g10.lo'',
     dp_lease_time_secs = 3600, dp_next_server = None, dp_boot_file = None, dp_boot_file_efi = None,
     dp_ipxe_boot_url = None, dp_root_path = None, dp_ntp_servers = None, dp_domain_search = None, dp_mtu = None,
     dp_static_routes = None, dp_log_server = None, dp_time_offset = None, dp_wpad_url = None,
     dp_created_at = 0, dp_updated_at = 0\<rparr>"

definition ex_reservation :: dhcp_reservation where
  "ex_reservation = \<lparr>dr_mac = ''02:00:00:00:00:01'', dr_ip = ''10.0.10.101'', dr_hostname = None, dr_gateway = None,
     dr_dns_servers = None, dr_domain = None, dr_ntp_servers = None, dr_domain_search = None, dr_mtu = None,
     dr_next_server = None, dr_boot_file = None, dr_boot_file_efi = None, dr_ipxe_boot_url = None, dr_root_path = None,
     dr_static_routes = None, dr_log_server = None, dr_time_offset = None, dr_wpad_url = None,
     dr_lease_time_secs = None, dr_created_at = 0, dr_updated_at = 0\<rparr>"

text \<open>\<open>ex_leases\<close> holds a lease of \<^verbatim>\<open>10.0.10.100\<close> for \<^verbatim>\<open>aa:bb:cc:dd:ee:ff\<close>.\<close>

definition ex_server :: dhcp_server where
  "ex_server = server_new Normal (Some ''10.0.10.3'')
     (snd (create_dhcp_reservation ex_reservation (snd (create_dhcp_pool ex_dhcp_pool ex_leases))))"

definition ex_request :: "u8 \<Rightarrow> dhcp_option list \<Rightarrow> dhcp_packet" where
  "ex_request n os = ex_packet\<lparr>pk_chaddr := [2, 0, 0, 0, 0, n] @ replicate 10 0, pk_options := os @ [end_option]\<rparr>"

definition ex_ids :: fresh_ids where
  "ex_ids = \<lparr>fr_lease = ''l2'', fr_record = ex_rid3, fr_zone = ex_zid2, fr_ptr = ex_rid2\<rparr>"

abbreviation "ex_asks n ip \<equiv> ex_request n [message_type_option Request, ip_option OPT_REQUESTED_IP ip]"

definition ex_server_ok :: "dhcp_server \<Rightarrow> bool" where
  "ex_server_ok srv \<longleftrightarrow>
     sorted_wrt apart (sv_pools (sync_pool 5 srv)) \<and>
     list_all (new_client 5 srv) [ex_request 2 [], ex_request 3 []] \<and>
     get_reservation srv (mac_address (ex_asks 1 0x0A000A65)) = Some (0x0A000A65, None) \<and>
     requested_ip (ex_asks 1 0x0A000A65) = Some 0x0A000A65 \<and>
     get_reservation srv (mac_address (ex_asks 2 0x0A000A64)) = None \<and>
     requested_ip (ex_asks 2 0x0A000A64) = Some 0x0A000A64 \<and>
     mac_address (ex_asks 2 0x0A000A64) \<noteq> ''aa:bb:cc:dd:ee:ff'' \<and>
     list_all (\<lambda>p. 0 < lease_time_secs p \<and> allocated p = {} \<and> pool_contains p 0x0A000A64) (sv_pools srv) \<and>
     sv_pools srv \<noteq> [] \<and>
     leases (sv_db srv) = leases ex_leases \<and> mac_lease_index (sv_db srv) = mac_lease_index ex_leases \<and>
     tbl_get (leases (sv_db srv)) (fr_lease ex_ids) = None \<and>
     map_option l_ip_addr (find_lease_by_mac 5 (sv_db srv) ''aa:bb:cc:dd:ee:ff'') = Some (ipv4_str 0x0A000A64)"

lemma ex_server_ok: "ex_server_ok ex_server"
  by code_simp

lemmas ex_server_facts = ex_server_ok [unfolded ex_server_ok_def]

lemma ex_server_lease_inv: "lease_inv (sv_db ex_server)"
  using ex_server_facts reachable_lease_inv [OF ex_leases_reachable] by (simp add: lease_inv_def)

section \<open>Properties\<close>

text \<open>
  C20. After the pools are rebuilt, the addresses offered to any sequence of clients that have
  neither a reservation nor a lease are pairwise different, and none is the address of an active
  lease or of a reservation. The pools' ranges must not overlap: an address handed out by one pool
  is not marked in another.
\<close>

theorem offers_distinct:
  assumes "sorted_wrt apart (sv_pools (sync_pool now srv))" "list_all (new_client now srv) reqs"
  shows "let ips = fst (discover_all now (sync_pool now srv) reqs)
         in distinct ips \<and> set ips \<inter> set (parse_ips (taken_ips now (sv_db srv))) = {}"
proof -
  have "marked (set (parse_ips (taken_ips now (sv_db srv)))) (sv_pools (sync_pool now srv))"
    using mark_all_marked by (simp add: sync_pool_def Let_def)
  moreover have db: "sv_db (sync_pool now srv) = sv_db srv"
    by (simp add: sync_pool_def Let_def)
  have "list_all (new_client now (sync_pool now srv)) reqs"
    using assms(2) by (simp add: list_all_iff new_client_db [OF db])
  ultimately show ?thesis
    using discover_all_fresh [OF _ assms(1)] by (simp add: Let_def)
qed

theorem offers_distinct_witness:
  "sorted_wrt apart (sv_pools (sync_pool 5 ex_server)) \<and>
   distinct (fst (discover_all 5 (sync_pool 5 ex_server) [ex_request 2 [], ex_request 3 []]))"
  using offers_distinct [of 5 ex_server "[ex_request 2 [], ex_request 3 []]"] ex_server_facts
  by (simp only: Let_def)

text \<open>
  C21. A client without a reservation or a lease is refused exactly when every address of every
  pool is taken; otherwise a free address is taken in its pool and an offer is built for it.
\<close>

theorem discover_refused_iff_full:
  assumes "new_client now srv req"
  shows "fst (handle_discover now srv req) = Silent \<longleftrightarrow> (\<forall>p \<in> set (sv_pools srv). Collect (pool_contains p) \<subseteq> allocated p)"
  using assms
proof (cases rule: discover_new)
  case (offered ip srv')
  then obtain i where "i < length (sv_pools srv)" "pool_contains (sv_pools srv ! i) ip" "ip \<notin> allocated (sv_pools srv ! i)"
    by (auto simp: took_def)
  then have "\<not> (\<forall>p \<in> set (sv_pools srv). Collect (pool_contains p) \<subseteq> allocated p)"
    using nth_mem by blast
  with offered(1) show ?thesis
    by (simp add: replied_def split: option.split)
qed (simp add: all_taken_def)

theorem discover_refused_iff_full_witness:
  "new_client 5 ex_server (ex_request 2 []) \<and> fst (handle_discover 5 ex_server (ex_request 2 [])) \<noteq> Silent"
proof -
  have new: "new_client 5 ex_server (ex_request 2 [])"
    using ex_server_facts by simp
  obtain p where "p \<in> set (sv_pools ex_server)" "allocated p = {}" "pool_contains p 0x0A000A64"
    using ex_server_facts by (cases "sv_pools ex_server") auto
  then show ?thesis
    using discover_refused_iff_full [OF new] new by blast
qed



text \<open>
  C23. A request is not checked against the leases of others: a client without a reservation that
  asks for any address of a pool is granted it, even while another client holds a lease on it, who
  keeps that lease; and the address is not marked as taken in the pool.
\<close>

theorem request_grants_leased_address:
  assumes "lease_inv (sv_db srv)" "tbl_get (leases (sv_db srv)) (fr_lease fr) = None" "requested_ip req = Some ip"
    and "get_reservation srv (mac_address req) = None" "\<exists>p \<in> set (sv_pools srv). pool_contains p ip"
    and "\<forall>p \<in> set (sv_pools srv). 0 < lease_time_secs p"
    and "find_lease_by_mac now (sv_db srv) other = Some held" "l_ip_addr held = ipv4_str ip" "other \<noteq> mac_address req"
  shows "let (h, srv') = handle_request fr now today srv req
         in (h = Abort \<or> (\<exists>r. h = Reply r \<and> message_type r = Some Ack \<and> pk_yiaddr r = ip)) \<and>
            sv_pools srv' = sv_pools srv \<and> find_lease_by_mac now (sv_db srv') other = Some held \<and>
            (\<exists>l. find_lease_by_mac now (sv_db srv') (mac_address req) = Some l \<and> l_ip_addr l = l_ip_addr held)"
proof (rule request_leases [OF assms(1-3) _ assms(6)])
  show "get_reservation srv (mac_address req) = Some (ip, h) \<or>
      get_reservation srv (mac_address req) = None \<and> (\<exists>p \<in> set (sv_pools srv). pool_contains p ip)" for h
    using assms(4,5) by blast
next
  fix srv' l
  assume res: "handle_request fr now today srv req = (replied (build_ack srv' req ip), srv')"
    "sv_pools srv' = sv_pools srv" "l_ip_addr l = ipv4_str ip"
    "find_lease_by_mac now (sv_db srv') (mac_address req) = Some l"
    "\<And>m. m \<noteq> mac_address req \<Longrightarrow> find_lease_by_mac now (sv_db srv') m = find_lease_by_mac now (sv_db srv) m"
  have "replied (build_ack srv' req ip) = Abort \<or>
      (\<exists>r. replied (build_ack srv' req ip) = Reply r \<and> message_type r = Some Ack \<and> pk_yiaddr r = ip)"
    by (auto simp: replied_def build_ack_def split: option.split elim: build_response_fields dest: reply_message_type)
  with res(2-4) res(5) [OF assms(9)] assms(7,8) show ?thesis
    by (simp add: res(1))
qed

theorem request_grants_leased_address_witness:
  "\<exists>l held. find_lease_by_mac 5 (sv_db (snd (handle_request ex_ids 5 ''20261115'' ex_server (ex_asks 2 0x0A000A64))))
              (mac_address (ex_asks 2 0x0A000A64)) = Some l \<and>
            find_lease_by_mac 5 (sv_db (snd (handle_request ex_ids 5 ''20261115'' ex_server (ex_asks 2 0x0A000A64))))
              ''aa:bb:cc:dd:ee:ff'' = Some held \<and> l_ip_addr l = l_ip_addr held"
proof -
  have facts: "tbl_get (leases (sv_db ex_server)) (fr_lease ex_ids) = None"
    "requested_ip (ex_asks 2 0x0A000A64) = Some 0x0A000A64"
    "get_reservation ex_server (mac_address (ex_asks 2 0x0A000A64)) = None"
    "\<exists>p \<in> set (sv_pools ex_server). pool_contains p 0x0A000A64"
    "\<forall>p \<in> set (sv_pools ex_server). 0 < lease_time_secs p"
    using ex_server_facts hd_in_set [of "sv_pools ex_server"] unfolding list_all_iff by blast+
  obtain held where held: "find_lease_by_mac 5 (sv_db ex_server) ''aa:bb:cc:dd:ee:ff'' = Some held"
    "l_ip_addr held = ipv4_str 0x0A000A64" "''aa:bb:cc:dd:ee:ff'' \<noteq> mac_address (ex_asks 2 0x0A000A64)"
    using ex_server_facts by (auto simp: map_option_eq_Some)
  show ?thesis
    using request_grants_leased_address [OF ex_server_lease_inv facts held, of "''20261115''"]
    unfolding split_beta Let_def by blast
qed

text \<open>
  C24. Every answer to a datagram echoes the transaction and the hardware address of the message in
  it, is an offer, an acknowledgement or a refusal, and as long as no option is longer than 255
  bytes the client parses from its bytes exactly the reply the handler built.
\<close>

theorem serve_normal_wire:
  assumes "serve_normal fr now today srv buf = (Sent ip port bs, srv')"
  shows "\<exists>req r. parse buf = Some req \<and> handle_packet fr now today srv req = (Reply r, srv') \<and>
           pk_op r = 2 \<and> pk_xid r = pk_xid req \<and> pk_chaddr r = pk_chaddr req \<and> pk_giaddr r = pk_giaddr req \<and>
           message_type r \<in> {Some Offer, Some Ack, Some Nak} \<and> (ip, port) = reply_to_normal req \<and>
           (list_all (\<lambda>opt. length (o_data opt) < 256) (pk_options r) \<longrightarrow> parse bs = Some r)"
proof -
  obtain req r where r: "parse buf = Some req" "handle_packet fr now today srv req = (Reply r, srv')"
    "bs = to_bytes r" "(ip, port) = reply_to_normal req"
    using assms by (auto simp: serve_normal_def split: option.splits if_splits prod.splits handled.splits)
  with reply_shape [OF r(2)] reply_parses [OF parse_packet_ok [OF r(1)] r(2)] show ?thesis
    by blast
qed

theorem serve_normal_wire_witness:
  "\<exists>ip port bs srv' req r.
     serve_normal ex_ids 5 ''20261115'' ex_server (to_bytes (ex_request 2 [message_type_option Request])) =
       (Sent ip port bs, srv') \<and>
     handle_packet ex_ids 5 ''20261115'' ex_server req = (Reply r, srv') \<and> pk_xid r = pk_xid req"
proof -
  let ?bs = "to_bytes (ex_request 2 [message_type_option Request])"
  have "case fst (serve_normal ex_ids 5 ''20261115'' ex_server ?bs) of Sent _ _ _ \<Rightarrow> True | _ \<Rightarrow> False"
    by code_simp
  then obtain ip port bs srv' where sent: "serve_normal ex_ids 5 ''20261115'' ex_server ?bs = (Sent ip port bs, srv')"
    by (cases "serve_normal ex_ids 5 ''20261115'' ex_server ?bs") (auto split: served.splits)
  show ?thesis
    using serve_normal_wire [OF sent] sent by blast
qed

end
