(* ===== verification/Lb_State.thy ===== *)
theory Lb_State
  imports Addr "HOL-Library.Option_ord" "HOL-Library.Sublist"
begin

text \<open>
  The health state of the load balancer, \<^verbatim>\<open>crates/microdns-lb/src/state.rs\<close>: the tri-state
  status of a monitored record, and the map of all of them. The map is an association list; the
  order of the list stands for the order in which the hash map is iterated.
\<close>

section \<open>One record\<close>

record record_health =
  rh_status :: health_status
  rh_success_count :: u32
  rh_failure_count :: u32
  rh_healthy_threshold :: u32
  rh_unhealthy_threshold :: u32
  rh_zone_id :: uuid
  rh_record_name :: string
  rh_record_type :: string
  rh_last_checked_at :: "instant option"
  rh_last_state_change_at :: "instant option"
  rh_last_healthy_at :: "instant option"
  rh_last_probe_detail :: string
  rh_last_probe_type :: probe_type

definition health_new :: "u32 \<Rightarrow> u32 \<Rightarrow> uuid \<Rightarrow> string \<Rightarrow> string \<Rightarrow> record_health" where
  "health_new hth uth zid name rtype =
     \<lparr>rh_status = Unknown, rh_success_count = 0, rh_failure_count = 0, rh_healthy_threshold = hth,
      rh_unhealthy_threshold = uth, rh_zone_id = zid, rh_record_name = name, rh_record_type = rtype,
      rh_last_checked_at = None, rh_last_state_change_at = None, rh_last_healthy_at = None,
      rh_last_probe_detail = [], rh_last_probe_type = Ping\<rparr>"

definition from_persisted :: "persisted_health \<Rightarrow> u32 \<Rightarrow> u32 \<Rightarrow> uuid \<Rightarrow> string \<Rightarrow> string \<Rightarrow> record_health" where
  "from_persisted p hth uth zid name rtype =
     \<lparr>rh_status = ph_status p, rh_success_count = ph_consecutive_successes p,
      rh_failure_count = ph_consecutive_failures p, rh_healthy_threshold = hth,
      rh_unhealthy_threshold = uth, rh_zone_id = zid, rh_record_name = name, rh_record_type = rtype,
      rh_last_checked_at = Some (ph_last_checked_at p), rh_last_state_change_at = Some (ph_last_state_change_at p),
      rh_last_healthy_at = ph_last_healthy_at p, rh_last_probe_detail = ph_last_probe_detail p,
      rh_last_probe_type = ph_last_probe_type p\<rparr>"

definition record_result ::
  "bool \<Rightarrow> instant \<Rightarrow> probe_type \<Rightarrow> string \<Rightarrow> record_health \<Rightarrow> health_status option \<times> record_health" where
  "record_result success now ptype detail h =
     (let prev = rh_status h;
          h1 = (if success
                then (let h0 = h\<lparr>rh_success_count := saturating_add (rh_success_count h) 1, rh_failure_count := 0,
                                 rh_last_healthy_at := Some now\<rparr>
                      in case rh_status h0 of
                           Unknown \<Rightarrow> h0\<lparr>rh_status := Healthy\<rparr>
                         | Unhealthy \<Rightarrow> if rh_success_count h0 \<ge> rh_healthy_threshold h0
                                        then h0\<lparr>rh_status := Healthy\<rparr> else h0
                         | Healthy \<Rightarrow> h0)
                else (let h0 = h\<lparr>rh_failure_count := saturating_add (rh_failure_count h) 1, rh_success_count := 0\<rparr>
                      in if rh_failure_count h0 \<ge> rh_unhealthy_threshold h0 \<and> rh_status h0 \<noteq> Unhealthy
                         then h0\<lparr>rh_status := Unhealthy\<rparr> else h0));
          h2 = h1\<lparr>rh_last_checked_at := Some now, rh_last_probe_detail := detail, rh_last_probe_type := ptype\<rparr>
      in if prev \<noteq> rh_status h2 then (Some (rh_status h2), h2\<lparr>rh_last_state_change_at := Some now\<rparr>)
         else (None, h2))"

definition should_be_enabled :: "record_health \<Rightarrow> bool" where
  "should_be_enabled h = (case rh_status h of Healthy \<Rightarrow> True | Unknown \<Rightarrow> True | Unhealthy \<Rightarrow> False)"

definition to_persisted :: "uuid \<Rightarrow> record_health \<Rightarrow> persisted_health option" where
  "to_persisted rid h =
     (case rh_last_checked_at h of
        None \<Rightarrow> None
      | Some checked \<Rightarrow>
          Some \<lparr>ph_record_id = rid, ph_status = rh_status h, ph_last_checked_at = checked,
                ph_last_state_change_at = (case rh_last_state_change_at h of Some t \<Rightarrow> t | None \<Rightarrow> checked),
                ph_last_healthy_at = rh_last_healthy_at h, ph_last_probe_detail = rh_last_probe_detail h,
                ph_last_probe_type = rh_last_probe_type h, ph_consecutive_successes = rh_success_count h,
                ph_consecutive_failures = rh_failure_count h\<rparr>)"

section \<open>All records\<close>

type_synonym health_state = "(uuid \<times> record_health) list"

definition state_new :: health_state where
  "state_new = []"

definition state_get :: "health_state \<Rightarrow> uuid \<Rightarrow> record_health option" where
  "state_get hs rid = map_of hs rid"

text \<open>\<^verbatim>\<open>HashMap::insert\<close>: a new key goes to the end, a known one keeps its place.\<close>

fun hydrate :: "uuid \<Rightarrow> record_health \<Rightarrow> health_state \<Rightarrow> health_state" where
  "hydrate rid h [] = [(rid, h)]"
| "hydrate rid h ((k, v) # hs) = (if k = rid then (k, h) # hs else (k, v) # hydrate rid h hs)"

definition register :: "uuid \<Rightarrow> u32 \<Rightarrow> u32 \<Rightarrow> uuid \<Rightarrow> string \<Rightarrow> string \<Rightarrow> health_state \<Rightarrow> health_state" where
  "register rid hth uth zid name rtype hs =
     (if state_get hs rid = None then hydrate rid (health_new hth uth zid name rtype) hs else hs)"

definition unregister_health :: "uuid \<Rightarrow> health_state \<Rightarrow> health_state" where
  "unregister_health rid hs = filter (\<lambda>e. fst e \<noteq> rid) hs"

definition retain_only :: "uuid set \<Rightarrow> health_state \<Rightarrow> uuid list \<times> health_state" where
  "retain_only live hs =
     (let dropped = filter (\<lambda>k. k \<notin> live) (map fst hs) in (dropped, fold unregister_health dropped hs))"

definition record_probe_result_with_prev ::
  "uuid \<Rightarrow> bool \<Rightarrow> instant \<Rightarrow> probe_type \<Rightarrow> string \<Rightarrow> health_state \<Rightarrow>
   (health_status \<times> health_status option) option \<times> health_state" where
  "record_probe_result_with_prev rid success now ptype detail hs =
     (case state_get hs rid of
        None \<Rightarrow> (None, hs)
      | Some h \<Rightarrow> (let (change, h') = record_result success now ptype detail h
                   in (Some (rh_status h, change), hydrate rid h' hs)))"

definition record_probe_result ::
  "uuid \<Rightarrow> bool \<Rightarrow> instant \<Rightarrow> probe_type \<Rightarrow> string \<Rightarrow> health_state \<Rightarrow> health_status option \<times> health_state" where
  "record_probe_result rid success now ptype detail hs =
     (case state_get hs rid of
        None \<Rightarrow> (None, hs)
      | Some h \<Rightarrow> (let (change, h') = record_result success now ptype detail h in (change, hydrate rid h' hs)))"

text \<open>\<^verbatim>\<open>Iterator::max_by_key\<close>: the last of the greatest elements.\<close>

fun max_by_key :: "('a \<Rightarrow> 'k::linorder) \<Rightarrow> 'a list \<Rightarrow> 'a option" where
  "max_by_key f [] = None"
| "max_by_key f (x # xs) =
     (case max_by_key f xs of
        None \<Rightarrow> Some x
      | Some y \<Rightarrow> if f x \<le> f y then Some y else Some x)"

definition group_key :: "record_health \<Rightarrow> uuid \<times> string \<times> string" where
  "group_key h = (rh_zone_id h, rh_record_name h, rh_record_type h)"

definition group_members :: "health_state \<Rightarrow> uuid \<times> string \<times> string \<Rightarrow> health_state" where
  "group_members hs k = filter (\<lambda>e. group_key (snd e) = k) hs"

definition group_pick :: "health_state \<Rightarrow> uuid option" where
  "group_pick members =
     (if length members < 2 then None
      else if \<not> list_all (\<lambda>e. rh_status (snd e) = Unhealthy) members then None
      else case max_by_key (\<lambda>e. rh_last_healthy_at (snd e)) members of
             Some (rid, h) \<Rightarrow> map_option (\<lambda>_. rid) (rh_last_healthy_at h)
           | None \<Rightarrow> None)"

definition failsafe_records :: "health_state \<Rightarrow> uuid list" where
  "failsafe_records hs =
     List.map_filter (\<lambda>k. group_pick (group_members hs k)) (remdups (map (group_key \<circ> snd) hs))"

definition snapshot_persisted :: "health_state \<Rightarrow> persisted_health list" where
  "snapshot_persisted hs = List.map_filter (\<lambda>(rid, h). to_persisted rid h) hs"

record health_aggregate =
  ha_total :: nat
  ha_healthy :: nat
  ha_unhealthy :: nat
  ha_unknown :: nat
  ha_groups :: nat

definition aggregate :: "health_state \<Rightarrow> health_aggregate" where
  "aggregate hs =
     (let count = (\<lambda>s. length (filter (\<lambda>e. rh_status (snd e) = s) hs))
      in \<lparr>ha_total = length hs, ha_healthy = count Healthy, ha_unhealthy = count Unhealthy,
          ha_unknown = count Unknown, ha_groups = card (set (map (group_key \<circ> snd) hs))\<rparr>)"

section \<open>The status is a function of the history\<close>

text \<open>How many of the last results are equal to \<open>b\<close>.\<close>

definition trail :: "bool \<Rightarrow> bool list \<Rightarrow> nat" where
  "trail b bs = length (takeWhile (\<lambda>x. x = b) (rev bs))"

lemma trail_simps [simp]:
  "trail b [] = 0" "trail b (bs @ [x]) = (if x = b then Suc (trail b bs) else 0)"
  by (simp_all add: trail_def)

lemma trail_replicate [simp]: "trail b (replicate n b) = n"
proof -
  have "takeWhile (\<lambda>x. x = b) (replicate n b) = replicate n b"
    by (simp add: takeWhile_eq_all_conv)
  then show ?thesis
    by (simp add: trail_def)
qed

lemma suffix_replicate_snoc:
  "suffix (replicate (Suc n) b) (bs @ [x]) \<longleftrightarrow> x = b \<and> suffix (replicate n b) bs"
  by (metis replicate_Suc replicate_append_same snoc_suffix_snoc)

lemma trail_suffix: "n \<le> trail b bs \<longleftrightarrow> suffix (replicate n b) bs"
proof (induction bs arbitrary: n rule: rev_induct)
  case (snoc x bs)
  then show ?case
    by (cases n) (simp_all add: suffix_replicate_snoc del: replicate_Suc suffix_snoc)
qed simp

lemma trail_pos:
  assumes "0 < n"
  shows "suffix (replicate n b) (bs @ [x]) \<longleftrightarrow> x = b \<and> n \<le> trail b (bs @ [x])"
  unfolding trail_suffix [symmetric] using assms by auto

text \<open>The backend went down and did not come back: enough failures in a row, no recovery after them.\<close>

definition went_down :: "nat \<Rightarrow> nat \<Rightarrow> bool list \<Rightarrow> bool" where
  "went_down h u bs \<longleftrightarrow> (\<exists>xs ys. bs = xs @ replicate u False @ ys \<and> \<not> sublist (replicate h True) ys)"

definition never_settled :: "nat \<Rightarrow> bool list \<Rightarrow> bool" where
  "never_settled u bs \<longleftrightarrow> (\<exists>n < u. bs = replicate n False)"

definition history_status :: "nat \<Rightarrow> nat \<Rightarrow> bool list \<Rightarrow> health_status" where
  "history_status h u bs =
     (if never_settled u bs then Unknown else if went_down h u bs then Unhealthy else Healthy)"

lemma went_down_Nil: "0 < u \<Longrightarrow> \<not> went_down h u []"
  by (simp add: went_down_def)

lemma went_down_failure:
  assumes "0 < h" "0 < u"
  shows "went_down h u (bs @ [False]) \<longleftrightarrow> went_down h u bs \<or> u \<le> trail False (bs @ [False])"
proof
  assume "went_down h u (bs @ [False])"
  then obtain xs ys where w: "bs @ [False] = xs @ replicate u False @ ys" "\<not> sublist (replicate h True) ys"
    unfolding went_down_def by blast
  show "went_down h u bs \<or> u \<le> trail False (bs @ [False])"
  proof (cases ys rule: rev_cases)
    case Nil
    with w(1) show ?thesis
      unfolding trail_suffix by (auto simp: suffix_def)
  next
    case (snoc ys' y)
    with w have "bs = xs @ replicate u False @ ys'" "\<not> sublist (replicate h True) ys'"
      by (auto simp: sublist_snoc)
    then show ?thesis
      unfolding went_down_def by blast
  qed
next
  assume "went_down h u bs \<or> u \<le> trail False (bs @ [False])"
  then show "went_down h u (bs @ [False])"
  proof
    assume "went_down h u bs"
    then obtain xs ys where "bs = xs @ replicate u False @ ys" "\<not> sublist (replicate h True) ys"
      unfolding went_down_def by blast
    with assms(1) have "bs @ [False] = xs @ replicate u False @ (ys @ [False])" "\<not> sublist (replicate h True) (ys @ [False])"
      by (simp_all add: sublist_snoc trail_pos del: suffix_snoc)
    then show ?thesis
      unfolding went_down_def by blast
  next
    assume "u \<le> trail False (bs @ [False])"
    then obtain xs where "bs @ [False] = xs @ replicate u False @ []"
      unfolding trail_suffix suffix_def by auto
    with assms(1) show ?thesis
      unfolding went_down_def by (intro exI [of _ xs] exI [of _ "[]"]) simp
  qed
qed

lemma suffix_after_False:
  assumes "suffix (replicate n True) (as @ ys)" "suffix [False] as"
  shows "suffix (replicate n True) ys"
  using assms(1)
proof (induction ys arbitrary: n rule: rev_induct)
  case Nil
  obtain zs where "as = zs @ [False]"
    using assms(2) by (auto simp: suffix_def)
  with Nil show ?case
    by (cases n) (simp_all add: suffix_replicate_snoc del: replicate_Suc suffix_snoc)
next
  case (snoc y ys)
  then show ?case
    by (cases n) (simp_all add: suffix_replicate_snoc append_assoc [symmetric] del: replicate_Suc suffix_snoc append_assoc)
qed

lemma went_down_success:
  assumes "0 < h" "0 < u"
  shows "went_down h u (bs @ [True]) \<longleftrightarrow> went_down h u bs \<and> trail True (bs @ [True]) < h"
proof
  assume "went_down h u (bs @ [True])"
  then obtain xs ys where w: "bs @ [True] = xs @ replicate u False @ ys" "\<not> sublist (replicate h True) ys"
    unfolding went_down_def by blast
  obtain u' where u': "replicate u False = replicate u' False @ [False]"
    using assms(2) by (cases u) (auto simp: replicate_append_same)
  obtain ys' where ys: "ys = ys' @ [True]"
    using w(1) by (cases ys rule: rev_cases) (simp_all add: u')
  with w have "went_down h u bs"
    unfolding went_down_def by (auto simp: sublist_snoc)
  moreover have "\<not> suffix (replicate h True) (bs @ [True])"
  proof
    assume "suffix (replicate h True) (bs @ [True])"
    then have "suffix (replicate h True) ((xs @ replicate u False) @ ys)"
      by (simp add: w(1))
    then have "suffix (replicate h True) ys"
    proof (rule suffix_after_False)
      show "suffix [False] (xs @ replicate u False)"
        by (simp add: u' suffix_def)
    qed
    with w(2) show False
      by (simp add: suffix_imp_sublist)
  qed
  ultimately show "went_down h u bs \<and> trail True (bs @ [True]) < h"
    unfolding trail_suffix [symmetric] by simp
next
  assume r: "went_down h u bs \<and> trail True (bs @ [True]) < h"
  then obtain xs ys where w: "bs = xs @ replicate u False @ ys" "\<not> sublist (replicate h True) ys"
    unfolding went_down_def by blast
  have "\<not> suffix (replicate h True) (ys @ [True])"
  proof
    assume "suffix (replicate h True) (ys @ [True])"
    then have "suffix (replicate h True) (bs @ [True])"
      using w(1) by (metis append.assoc suffix_append suffix_order.trans)
    with r show False
      unfolding trail_suffix [symmetric] by simp
  qed
  with w show "went_down h u (bs @ [True])"
    unfolding went_down_def by (intro exI [of _ xs] exI [of _ "ys @ [True]"]) (simp add: sublist_snoc del: suffix_snoc)
qed

lemma never_settled_not_down: "never_settled u bs \<Longrightarrow> \<not> went_down h u bs"
proof
  assume "never_settled u bs" "went_down h u bs"
  then obtain n xs ys where "n < u" "replicate n False = xs @ replicate u False @ ys"
    unfolding never_settled_def went_down_def by blast
  then have "length (replicate n False) \<ge> u"
    by simp
  with \<open>n < u\<close> show False
    by simp
qed

lemma never_settled_snoc:
  assumes "0 < u"
  shows "never_settled u (bs @ [b]) \<longleftrightarrow> \<not> b \<and> never_settled u bs \<and> trail False (bs @ [b]) < u"
proof
  assume "never_settled u (bs @ [b])"
  then obtain n where n: "n < u" "bs @ [b] = replicate n False"
    unfolding never_settled_def by blast
  then obtain m where m: "n = Suc m"
    by (cases n) auto
  with n(2) have "bs = replicate m False" "\<not> b"
    by (simp_all add: replicate_append_same [symmetric])
  moreover have "trail False (bs @ [b]) = n"
    unfolding n(2) by simp
  ultimately show "\<not> b \<and> never_settled u bs \<and> trail False (bs @ [b]) < u"
    using n(1) m unfolding never_settled_def by auto
next
  assume r: "\<not> b \<and> never_settled u bs \<and> trail False (bs @ [b]) < u"
  then obtain n where "bs = replicate n False"
    unfolding never_settled_def by blast
  with r have "bs @ [b] = replicate (Suc n) False" "Suc n < u"
    by (auto simp: replicate_append_same)
  then show "never_settled u (bs @ [b])"
    unfolding never_settled_def by blast
qed

lemma history_status_snoc:
  assumes "0 < h" "0 < u"
  shows "history_status h u (bs @ [True]) =
      (if history_status h u bs = Unknown \<or> history_status h u bs = Unhealthy \<and> h \<le> trail True (bs @ [True])
       then Healthy else history_status h u bs)"
    and "history_status h u (bs @ [False]) =
      (if u \<le> trail False (bs @ [False]) then Unhealthy else history_status h u bs)"
  using never_settled_not_down [of u bs h]
  by (auto simp: history_status_def never_settled_snoc [OF assms(2)] went_down_success [OF assms]
      went_down_failure [OF assms] simp del: trail_simps(2))

text \<open>The effect of a sequence of probe results.\<close>

definition probe_run :: "(bool \<times> instant \<times> probe_type \<times> string) list \<Rightarrow> record_health \<Rightarrow> record_health" where
  "probe_run ps h = fold (\<lambda>(b, t, p, s) h. snd (record_result b t p s h)) ps h"

lemma record_result_fields:
  "rh_status (snd (record_result b t p s h)) =
     (if b then (if rh_status h = Unknown \<or>
                    rh_status h = Unhealthy \<and> rh_healthy_threshold h \<le> saturating_add (rh_success_count h) 1
                 then Healthy else rh_status h)
      else if rh_unhealthy_threshold h \<le> saturating_add (rh_failure_count h) 1 then Unhealthy else rh_status h)"
  "rh_success_count (snd (record_result b t p s h)) = (if b then saturating_add (rh_success_count h) 1 else 0)"
  "rh_failure_count (snd (record_result b t p s h)) = (if b then 0 else saturating_add (rh_failure_count h) 1)"
  "rh_healthy_threshold (snd (record_result b t p s h)) = rh_healthy_threshold h"
  "rh_unhealthy_threshold (snd (record_result b t p s h)) = rh_unhealthy_threshold h"
  "rh_last_healthy_at (snd (record_result b t p s h)) = (if b then Some t else rh_last_healthy_at h)"
  "group_key (snd (record_result b t p s h)) = group_key h"
  "fst (record_result b t p s h) =
     (if rh_status (snd (record_result b t p s h)) = rh_status h then None
      else Some (rh_status (snd (record_result b t p s h))))"
  by (cases "rh_status h"; simp add: record_result_def Let_def group_key_def)+

lemma threshold_le:
  fixes c th :: u32
  assumes "unat c = min n (2 ^ 32 - 1)"
  shows "th \<le> saturating_add c 1 \<longleftrightarrow> max 1 (unat th) \<le> Suc n"
  using unat_bounds(3) [of th] assms by (auto simp: word_le_nat_alt unat_saturating_add)

lemma probe_run_history:
  fixes hth uth :: u32 and zid name rtype :: string
  defines "h ps \<equiv> probe_run ps (health_new hth uth zid name rtype)"
  shows "unat (rh_success_count (h ps)) = min (trail True (map fst ps)) (2 ^ 32 - 1) \<and>
    unat (rh_failure_count (h ps)) = min (trail False (map fst ps)) (2 ^ 32 - 1) \<and>
    rh_healthy_threshold (h ps) = hth \<and> rh_unhealthy_threshold (h ps) = uth \<and>
    rh_status (h ps) = history_status (max 1 (unat hth)) (max 1 (unat uth)) (map fst ps)"
proof (induction ps rule: rev_induct)
  case Nil
  then show ?case
    by (simp add: h_def probe_run_def health_new_def history_status_def never_settled_def)
next
  case (snoc r ps)
  obtain b t p s where r: "r = (b, t, p, s)"
    by (cases r)
  have step: "h (ps @ [r]) = snd (record_result b t p s (h ps))"
    by (simp add: h_def probe_run_def r)
  have counts: "unat (rh_success_count (h ps)) = min (trail True (map fst ps)) (2 ^ 32 - 1)"
    "unat (rh_failure_count (h ps)) = min (trail False (map fst ps)) (2 ^ 32 - 1)"
    and rest: "rh_healthy_threshold (h ps) = hth" "rh_unhealthy_threshold (h ps) = uth"
    "rh_status (h ps) = history_status (max 1 (unat hth)) (max 1 (unat uth)) (map fst ps)"
    using snoc.IH by blast+
  have pos: "0 < max 1 (unat hth)" "0 < max 1 (unat uth)" and bs: "map fst (ps @ [r]) = map fst ps @ [b]"
    by (simp_all add: r)
  have "rh_status (h (ps @ [r])) = history_status (max 1 (unat hth)) (max 1 (unat uth)) (map fst (ps @ [r]))"
    by (cases b) (simp_all only: step record_result_fields rest threshold_le [OF counts(1)] threshold_le [OF counts(2)]
        bs history_status_snoc [OF pos] trail_simps if_True if_False simp_thms)
  moreover have "unat (rh_success_count (h (ps @ [r]))) = min (trail True (map fst ps @ [b])) (2 ^ 32 - 1)"
    "unat (rh_failure_count (h (ps @ [r]))) = min (trail False (map fst ps @ [b])) (2 ^ 32 - 1)"
    by (cases b; simp add: step record_result_fields unat_saturating_add counts min_def)+
  moreover have "rh_healthy_threshold (h (ps @ [r])) = hth" "rh_unhealthy_threshold (h (ps @ [r])) = uth"
    by (simp_all add: step record_result_fields rest)
  ultimately show ?case
    unfolding bs by blast
qed

section \<open>Failsafe\<close>

lemma max_by_key_None: "max_by_key f xs = None \<longleftrightarrow> xs = []"
  by (cases xs) (auto split: option.splits)

lemma max_by_key_Some:
  "max_by_key f xs = Some x \<Longrightarrow> x \<in> set xs \<and> (\<forall>y \<in> set xs. f y \<le> f x)"
proof (induction xs arbitrary: x)
  case (Cons a xs)
  then show ?case
    by (cases "max_by_key f xs") (auto simp: max_by_key_None split: if_splits intro: order_trans dest: le_cases)
qed simp

lemma group_pickD:
  assumes "group_pick ms = Some rid"
  obtains h where "(rid, h) \<in> set ms" "rh_last_healthy_at h \<noteq> None" "2 \<le> length ms"
    "\<forall>e \<in> set ms. rh_status (snd e) = Unhealthy" "\<forall>e \<in> set ms. rh_last_healthy_at (snd e) \<le> rh_last_healthy_at h"
  using assms
  by (auto simp: group_pick_def list_all_iff split: if_splits option.splits dest!: max_by_key_Some)

lemma group_pickI:
  assumes "2 \<le> length ms" "\<forall>e \<in> set ms. rh_status (snd e) = Unhealthy" "\<exists>e \<in> set ms. rh_last_healthy_at (snd e) \<noteq> None"
  shows "\<exists>rid. group_pick ms = Some rid"
proof -
  have "ms \<noteq> []"
    using assms(1) by auto
  then obtain rid h where m: "max_by_key (\<lambda>e. rh_last_healthy_at (snd e)) ms = Some (rid, h)"
    using max_by_key_None by (metis not_None_eq surj_pair)
  obtain e t where e: "e \<in> set ms" "rh_last_healthy_at (snd e) = Some t"
    using assms(3) by auto
  with max_by_key_Some [OF m] have "Some t \<le> rh_last_healthy_at h"
    by auto
  then obtain t' where "rh_last_healthy_at h = Some t'"
    by (cases "rh_last_healthy_at h") simp_all
  with m assms(1,2) show ?thesis
    by (simp add: group_pick_def list_all_iff)
qed

lemma failsafe_iff:
  "rid \<in> set (failsafe_records hs) \<longleftrightarrow> (\<exists>k. group_pick (group_members hs k) = Some rid)"
proof -
  have "k \<in> set (map (group_key \<circ> snd) hs)" if pick: "group_pick (group_members hs k) = Some rid" for k
  proof (rule group_pickD [OF pick])
    fix h
    assume "(rid, h) \<in> set (group_members hs k)"
    then show ?thesis
      by (force simp: group_members_def)
  qed
  then show ?thesis
    unfolding failsafe_records_def in_map_filter set_remdups by blast
qed

section \<open>The map\<close>

lemma hydrate_get [simp]: "state_get (hydrate rid h hs) = (state_get hs)(rid \<mapsto> h)"
  by (induction hs) (auto simp: state_get_def)

lemma state_dom: "dom (state_get hs) = fst ` set hs"
  by (simp add: dom_map_of_conv_image_fst state_get_def [abs_def])

lemma hydrate_dom [simp]: "fst ` set (hydrate rid h hs) = insert rid (fst ` set hs)"
  unfolding state_dom [symmetric] by simp

lemma hydrate_keys: "distinct (map fst hs) \<Longrightarrow> distinct (map fst (hydrate rid h hs))"
proof (induction hs)
  case (Cons e hs)
  then show ?case
    by (cases e) auto
qed simp

lemma unregister_all: "fold unregister_health ids hs = filter (\<lambda>e. fst e \<notin> set ids) hs"
  by (induction ids arbitrary: hs) (auto simp: unregister_health_def conj_commute intro!: filter_cong)

lemma retain_only_result:
  "snd (retain_only live hs) = filter (\<lambda>e. fst e \<in> live) hs"
  "set (fst (retain_only live hs)) = fst ` set hs - live"
  by (auto simp: retain_only_def unregister_all Let_def intro!: filter_cong)

lemma retain_only_get: "state_get (snd (retain_only live hs)) rid = (if rid \<in> live then state_get hs rid else None)"
  unfolding retain_only_result state_get_def by (induction hs) auto

lemma persisted_roundtrip:
  assumes "to_persisted rid h = Some p" "rh_last_state_change_at h \<noteq> None"
  shows "from_persisted p (rh_healthy_threshold h) (rh_unhealthy_threshold h) (rh_zone_id h) (rh_record_name h)
           (rh_record_type h) = h"
  using assms by (cases h) (auto simp: to_persisted_def from_persisted_def split: option.splits)

lemma aggregate_total:
  "ha_total (aggregate hs) = ha_healthy (aggregate hs) + ha_unhealthy (aggregate hs) + ha_unknown (aggregate hs)"
proof (induction hs)
  case (Cons e hs)
  then show ?case
    by (cases "rh_status (snd e)") (auto simp: aggregate_def Let_def)
qed (simp add: aggregate_def)

section \<open>Properties\<close>

text \<open>
  C25. The status that the counters of a record compute is the one its whole history of probe
  results determines: unknown as long as there was no success and too few failures, unhealthy when
  enough failures in a row were not followed by enough successes in a row, healthy otherwise. A
  threshold of zero counts as one, and the saturation of the counters never shows.
\<close>

theorem status_by_history:
  "rh_status (probe_run ps (health_new hth uth zid name rtype)) =
     (if \<exists>n < max 1 (unat uth). map fst ps = replicate n False then Unknown
      else if \<exists>xs ys. map fst ps = xs @ replicate (max 1 (unat uth)) False @ ys \<and>
                       \<not> sublist (replicate (max 1 (unat hth)) True) ys then Unhealthy
      else Healthy)"
  using probe_run_history [of ps hth uth zid name rtype]
  unfolding history_status_def never_settled_def went_down_def by blast

end
