(* ===== verification/Addr6.thy ===== *)
theory Addr6
  imports Reverse
begin

text \<open>
  The text form of addresses of either family, as the standard library's \<^verbatim>\<open>Display\<close> of
  \<^verbatim>\<open>IpAddr\<close> writes it: IPv6 with the first longest run of zero segments compressed and with
  mapped IPv4 addresses in dotted form.
\<close>

datatype ip_addr = V4 ipv4 | V6 ipv6

fun hex_nat :: "nat \<Rightarrow> string" where
  "hex_nat n = (if n < 16 then [hex_digit n] else hex_nat (n div 16) @ [hex_digit (n mod 16)])"

declare hex_nat.simps [simp del]

text \<open>The scan keeps the current and the longest span of zeros, each as start and length.\<close>

fun zero_span :: "nat \<Rightarrow> nat \<times> nat \<Rightarrow> nat \<times> nat \<Rightarrow> u16 list \<Rightarrow> nat \<times> nat" where
  "zero_span i cur longest [] = longest"
| "zero_span i (cs, cl) (ls, ll) (s # ss) =
     (if s = 0
      then (let cur = (if cl = 0 then i else cs, cl + 1)
            in zero_span (i + 1) cur (if snd cur > ll then cur else (ls, ll)) ss)
      else zero_span (i + 1) (0, 0) (ls, ll) ss)"

definition fmt_segments :: "u16 list \<Rightarrow> string" where
  "fmt_segments ss = join_char CHR '':'' (map (\<lambda>s. hex_nat (unat s)) ss)"

definition ipv6_str :: "ipv6 \<Rightarrow> string" where
  "ipv6_str ip =
     (let ss = segments ip
      in if take 6 ss = [0, 0, 0, 0, 0, 0xffff] then ''::ffff:'' @ ipv4_str (ucast ip)
         else (let (st, len) = zero_span 0 (0, 0) (0, 0) ss
               in if len > 1 then fmt_segments (take st ss) @ ''::'' @ fmt_segments (drop (st + len) ss)
                  else fmt_segments ss))"

fun ip_str :: "ip_addr \<Rightarrow> string" where
  "ip_str (V4 a) = ipv4_str a"
| "ip_str (V6 a) = ipv6_str a"

lemma ipv6_str_loopback: "ipv6_str 1 = ''::1''"
  by code_simp

end
