(* ===== verification/Lb_Monitor.thy ===== *)
theory Lb_Monitor
  imports Lb_State Addr6 Db_Config "HOL-Library.Multiset"
begin

text \<open>
  The health monitor, \<^verbatim>\<open>crates/microdns-lb/src/monitor.rs\<close>, with the watchers of half-open
  connections, \<^verbatim>\<open>halfopen.rs\<close>. One probe cycle is a function of the database, the health state
  and the results of the probes, which arrive in any order; what a probe does on the network is a
  parameter. A watcher is what it is connected to; the task behind it is not modelled, only what it
  publishes.
\<close>

section \<open>State changes and their log\<close>

record state_change =
  sc_record_id :: uuid
  sc_zone_id :: uuid
  sc_zone_name :: string
  sc_name :: string
  sc_ip :: string
  sc_record_type :: string
  sc_status :: health_status
  sc_previous_status :: "health_status option"
  sc_failsafe :: bool
  sc_probe_type :: probe_type
  sc_detail :: string
  sc_at :: instant

definition STATE_LOG_CAPACITY :: nat where
  "STATE_LOG_CAPACITY = 200"

definition log_push :: "state_change \<Rightarrow> state_change list \<Rightarrow> state_change list" where
  "log_push change entries =
     (if length entries = STATE_LOG_CAPACITY then tl entries else entries) @ [change]"

definition log_snapshot :: "state_change list \<Rightarrow> state_change list" where
  "log_snapshot entries = rev entries"

section \<open>Watchers\<close>

record watcher_spec =
  ws_record_id :: uuid
  ws_zone_id :: uuid
  ws_zone_name :: string
  ws_name :: string
  ws_record_type :: string
  ws_target :: "ip_addr \<times> u16"
  ws_keepalive_secs :: nat
  ws_reconnect_secs :: nat

text \<open>The watchers by record: target and keepalive interval.\<close>

type_synonym watchers = "uuid \<rightharpoonup> (ip_addr \<times> u16) \<times> nat"

definition ensure_watcher :: "watcher_spec \<Rightarrow> watchers \<Rightarrow> watchers" where
  "ensure_watcher spec ws =
     (if ws (ws_record_id spec) = Some (ws_target spec, ws_keepalive_secs spec) then ws
      else ws(ws_record_id spec \<mapsto> (ws_target spec, max (ws_keepalive_secs spec) 1)))"

definition retain_watchers :: "uuid set \<Rightarrow> watchers \<Rightarrow> watchers" where
  "retain_watchers live ws = ws |` live"

text \<open>What a watcher publishes when its connection is made or breaks.\<close>

definition publish_status ::
  "watcher_spec \<Rightarrow> instant \<Rightarrow> health_status \<Rightarrow> string \<Rightarrow> health_state \<Rightarrow> state_change list \<times> health_state" where
  "publish_status spec now status detail hs =
     (let hs1 = register (ws_record_id spec) 1 1 (ws_zone_id spec) (ws_name spec) (ws_record_type spec) hs;
          (result, hs2) = record_probe_result_with_prev (ws_record_id spec) (status = Healthy) now TcpHalfOpen detail hs1
      in case result of
           Some (prev, Some new_status) \<Rightarrow>
             ([\<lparr>sc_record_id = ws_record_id spec, sc_zone_id = ws_zone_id spec, sc_zone_name = ws_zone_name spec,
                sc_name = ws_name spec, sc_ip = ip_str (fst (ws_target spec)), sc_record_type = ws_record_type spec,
                sc_status = new_status, sc_previous_status = Some prev, sc_failsafe = False,
                sc_probe_type = TcpHalfOpen, sc_detail = detail, sc_at = now\<rparr>], hs2)
         | _ \<Rightarrow> ([], hs2))"

section \<open>Monitor\<close>

record monitor_config =
  mc_check_interval :: instant
  mc_default_probe :: probe_type
  mc_default_timeout :: instant
  mc_probe_concurrency :: nat
  mc_ping_packet_count :: u8

definition default_for :: "probe_type \<Rightarrow> monitor_config" where
  "default_for probe = \<lparr>mc_check_interval = seconds 10, mc_default_probe = probe, mc_default_timeout = seconds 5,
     mc_probe_concurrency = 32, mc_ping_packet_count = 3\<rparr>"

record health_monitor =
  hm_db :: db
  hm_config :: monitor_config
  hm_state :: health_state
  hm_events :: "state_change list"
  hm_watchers :: watchers

definition monitor_new :: "monitor_config \<Rightarrow> db \<Rightarrow> health_monitor" where
  "monitor_new config d =
     \<lparr>hm_db = d, hm_config = config, hm_state = state_new, hm_events = [], hm_watchers = Map.empty\<rparr>"

definition hydrate_row :: "db \<Rightarrow> persisted_health \<Rightarrow> uuid list \<times> health_state \<Rightarrow> uuid list \<times> health_state" where
  "hydrate_row d row acc =
     (let (orphaned, hs) = acc
      in case get_record d (ph_record_id row) of
           None \<Rightarrow> (orphaned @ [ph_record_id row], hs)
         | Some r \<Rightarrow>
             (case r_health_check r of
                None \<Rightarrow> (orphaned @ [ph_record_id row], hs)
              | Some hc \<Rightarrow>
                  (orphaned, hydrate (ph_record_id row)
                     (from_persisted row (hc_healthy_threshold hc) (hc_unhealthy_threshold hc) (r_zone_id r) (r_name r)
                        (record_type_str (rd_type (r_data r)))) hs)))"

definition hydrate_all :: "health_monitor \<Rightarrow> health_monitor" where
  "hydrate_all m =
     (let (orphaned, hs) = fold (hydrate_row (hm_db m)) (list_lb_health (hm_db m)) ([], hm_state m)
      in m\<lparr>hm_state := hs, hm_db := fold (\<lambda>rid d. snd (delete_lb_health rid d)) orphaned (hm_db m)\<rparr>)"

text \<open>\<^verbatim>\<open>:port\<close> or \<^verbatim>\<open>:port/path\<close>.\<close>

definition parse_port :: "string option \<Rightarrow> u16 option" where
  "parse_port endpoint =
     (case endpoint of
        None \<Rightarrow> None
      | Some ep \<Rightarrow>
          (let rest = (case ep of c # cs \<Rightarrow> if c = CHR '':'' then cs else ep | [] \<Rightarrow> []);
               port_str = (case split_once CHR ''/'' rest of Some (a, _) \<Rightarrow> a | None \<Rightarrow> rest)
           in map_option of_nat (parse_uint (2 ^ 16) port_str)))"

record probe_target =
  pt_record_id :: uuid
  pt_zone_id :: uuid
  pt_name :: string
  pt_rtype :: string
  pt_target_ip :: ip_addr
  pt_probe_type :: probe_type
  pt_timeout :: instant
  pt_endpoint :: "string option"
  pt_enabled_in_db :: bool

record probe_result =
  pr_success :: bool
  pr_detail :: string

section \<open>Collecting the targets\<close>

record collected =
  co_targets :: "probe_target list"
  co_halfopen :: "uuid list"
  co_state :: health_state
  co_watchers :: watchers

fun target_ip :: "record_data \<Rightarrow> ip_addr option" where
  "target_ip (RD_A a) = Some (V4 a)"
| "target_ip (RD_AAAA a) = Some (V6 a)"
| "target_ip _ = None"

definition probe_timeout :: "monitor_config \<Rightarrow> health_check \<Rightarrow> instant" where
  "probe_timeout config hc = (if hc_timeout_secs hc > 0 then seconds (uint (hc_timeout_secs hc)) else mc_default_timeout config)"

definition collect_record :: "monitor_config \<Rightarrow> zone \<Rightarrow> dns_record \<Rightarrow> collected \<Rightarrow> collected" where
  "collect_record config z r acc =
     (case (r_health_check r, target_ip (r_data r)) of
        (Some hc, Some ip) \<Rightarrow>
          (let rtype = record_type_str (rd_type (r_data r));
               acc1 = acc\<lparr>co_state := register (r_id r) (max (hc_healthy_threshold hc) 1) (max (hc_unhealthy_threshold hc) 1)
                            (r_zone_id r) (r_name r) rtype (co_state acc)\<rparr>;
               timeout = probe_timeout config hc
           in if hc_probe_type hc = TcpHalfOpen
              then (let port = (case parse_port (hc_endpoint hc) of Some p \<Rightarrow> p | None \<Rightarrow> 80);
                        secs = nat (timeout div seconds 1);
                        spec = \<lparr>ws_record_id = r_id r, ws_zone_id = r_zone_id r, ws_zone_name = z_name z,
                                ws_name = r_name r, ws_record_type = rtype, ws_target = (ip, port),
                                ws_keepalive_secs = secs, ws_reconnect_secs = secs\<rparr>
                    in acc1\<lparr>co_watchers := ensure_watcher spec (co_watchers acc1),
                            co_halfopen := co_halfopen acc1 @ [r_id r]\<rparr>)
              else acc1\<lparr>co_targets := co_targets acc1 @
                     [\<lparr>pt_record_id = r_id r, pt_zone_id = r_zone_id r, pt_name = r_name r, pt_rtype = rtype,
                       pt_target_ip = ip, pt_probe_type = hc_probe_type hc, pt_timeout = timeout,
                       pt_endpoint = hc_endpoint hc, pt_enabled_in_db = r_enabled r\<rparr>]\<rparr>)
      | _ \<Rightarrow> acc)"

definition collect_zone :: "monitor_config \<Rightarrow> db \<Rightarrow> zone \<Rightarrow> collected \<Rightarrow> collected" where
  "collect_zone config d z acc = fold (collect_record config z) (list_records d (z_id z)) acc"

definition collect :: "health_monitor \<Rightarrow> collected" where
  "collect m =
     fold (collect_zone (hm_config m) (hm_db m)) (list_zones (hm_db m))
       \<lparr>co_targets = [], co_halfopen = [], co_state = hm_state m, co_watchers = hm_watchers m\<rparr>"

definition live_ids :: "collected \<Rightarrow> uuid set" where
  "live_ids c = set (map pt_record_id (co_targets c)) \<union> set (co_halfopen c)"

section \<open>Deciding\<close>

definition zone_name_of :: "zone list \<Rightarrow> uuid \<Rightarrow> string" where
  "zone_name_of zs zid = (case List.find (\<lambda>z. z_id z = zid) (rev zs) of Some z \<Rightarrow> z_name z | None \<Rightarrow> [])"

record decisions =
  de_state :: health_state
  de_updates :: "(uuid \<times> bool) list"
  de_transitions :: "state_change list"

definition decide :: "zone list \<Rightarrow> instant \<Rightarrow> probe_target \<times> probe_result \<Rightarrow> decisions \<Rightarrow> decisions" where
  "decide zs now tr acc =
     (let (t, res) = tr;
          (result, hs) = record_probe_result_with_prev (pt_record_id t) (pr_success res) now (pt_probe_type t)
            (pr_detail res) (de_state acc);
          enabled = (case state_get hs (pt_record_id t) of Some h \<Rightarrow> should_be_enabled h | None \<Rightarrow> True);
          changes = (case result of
             Some (prev, Some new_status) \<Rightarrow>
               [\<lparr>sc_record_id = pt_record_id t, sc_zone_id = pt_zone_id t, sc_zone_name = zone_name_of zs (pt_zone_id t),
                 sc_name = pt_name t, sc_ip = ip_str (pt_target_ip t), sc_record_type = pt_rtype t,
                 sc_status = new_status, sc_previous_status = Some prev, sc_failsafe = False,
                 sc_probe_type = pt_probe_type t, sc_detail = pr_detail res, sc_at = now\<rparr>]
           | _ \<Rightarrow> [])
      in \<lparr>de_state = hs,
          de_updates = de_updates acc @ (if enabled \<noteq> pt_enabled_in_db t then [(pt_record_id t, enabled)] else []),
          de_transitions = de_transitions acc @ changes\<rparr>)"

definition record_ip :: "db \<Rightarrow> uuid \<Rightarrow> string" where
  "record_ip d rid =
     (case get_record d rid of
        Some r \<Rightarrow> (case target_ip (r_data r) of Some ip \<Rightarrow> ip_str ip | None \<Rightarrow> [])
      | None \<Rightarrow> [])"

definition keep_failsafe :: "db \<Rightarrow> zone list \<Rightarrow> instant \<Rightarrow> uuid \<Rightarrow> decisions \<Rightarrow> decisions" where
  "keep_failsafe d zs now rid acc =
     acc\<lparr>de_updates := filter (\<lambda>u. fst u \<noteq> rid) (de_updates acc) @ [(rid, True)],
         de_transitions := de_transitions acc @
           (case state_get (de_state acc) rid of
              Some h \<Rightarrow>
                [\<lparr>sc_record_id = rid, sc_zone_id = rh_zone_id h, sc_zone_name = zone_name_of zs (rh_zone_id h),
                  sc_name = rh_record_name h, sc_ip = record_ip d rid, sc_record_type = rh_record_type h,
                  sc_status = Unhealthy, sc_previous_status = Some Unhealthy, sc_failsafe = True,
                  sc_probe_type = rh_last_probe_type h, sc_detail = rh_last_probe_detail h, sc_at = now\<rparr>]
            | None \<Rightarrow> [])\<rparr>"

definition apply_update :: "uuid \<times> bool \<Rightarrow> db \<Rightarrow> db" where
  "apply_update u d =
     (case get_record d (fst u) of
        Some r \<Rightarrow> if r_enabled r \<noteq> snd u then snd (update_record (r\<lparr>r_enabled := snd u\<rparr>) d) else d
      | None \<Rightarrow> d)"

text \<open>
  One cycle. \<open>probes\<close> runs the probes of the targets and lists their results in the order in which
  they complete.
\<close>

definition run_check_cycle ::
  "(probe_target list \<Rightarrow> (probe_target \<times> probe_result) list) \<Rightarrow> instant \<Rightarrow> health_monitor \<Rightarrow> nat \<times> health_monitor" where
  "run_check_cycle probes now m =
     (let zs = list_zones (hm_db m);
          c = collect m;
          (dropped, hs) = retain_only (live_ids c) (co_state c);
          d1 = fold (\<lambda>rid d. snd (delete_lb_health rid d)) dropped (hm_db m);
          m1 = m\<lparr>hm_db := d1, hm_state := hs, hm_watchers := retain_watchers (live_ids c) (co_watchers c)\<rparr>
      in if co_targets c = []
         then (0, m1\<lparr>hm_db := snd (upsert_lb_health_batch (snapshot_persisted hs) d1)\<rparr>)
         else
           (let results = probes (co_targets c);
                de1 = fold (decide zs now) results \<lparr>de_state = hs, de_updates = [], de_transitions = []\<rparr>;
                de2 = fold (keep_failsafe d1 zs now) (failsafe_records (de_state de1)) de1;
                d2 = fold apply_update (de_updates de2) d1;
                d3 = snd (upsert_lb_health_batch (snapshot_persisted (de_state de2)) d2)
            in (length results,
                m1\<lparr>hm_db := d3, hm_state := de_state de2, hm_events := hm_events m1 @ de_transitions de2\<rparr>)))"

section \<open>Facts\<close>

subsection \<open>Writing the enabled flags\<close>

lemma apply_update_result:
  assumes "db_reachable d"
  shows "db_reachable (apply_update u d)"
    and "get_record (apply_update u d) rid =
      (if rid = fst u then map_option (\<lambda>r. r\<lparr>r_enabled := snd u\<rparr>) (get_record d rid) else get_record d rid)"
proof -
  have own: "r_id r = fst u" if "get_record d (fst u) = Some r" for r
    using that rows_get [OF assms] by blast
  show "db_reachable (apply_update u d)"
    using assms own
    by (auto simp: apply_update_def split: option.split intro!: next_step [OF assms record_updated])
  show "get_record (apply_update u d) rid =
      (if rid = fst u then map_option (\<lambda>r. r\<lparr>r_enabled := snd u\<rparr>) (get_record d rid) else get_record d rid)"
    using own by (auto simp: apply_update_def get_record_def update_record_def split: option.split)
qed

lemma apply_updates_result:
  assumes "db_reachable d" "distinct (map fst us)"
  shows "db_reachable (fold apply_update us d) \<and>
    get_record (fold apply_update us d) rid =
      (case map_of us rid of
         Some e \<Rightarrow> map_option (\<lambda>r. r\<lparr>r_enabled := e\<rparr>) (get_record d rid)
       | None \<Rightarrow> get_record d rid)"
  using assms
proof (induction us arbitrary: d)
  case (Cons u us)
  then have "map_of us (fst u) = None"
    by (simp add: map_of_eq_None_iff)
  with Cons.IH [OF apply_update_result(1) [OF Cons.prems(1), of u]] Cons.prems show ?case
    by (cases u) (simp add: apply_update_result(2) split: option.split)
qed simp

lemma health_write_reachable:
  assumes "db_reachable d"
  shows "db_reachable (snd (upsert_lb_health_batch ps d))" "db_reachable (snd (delete_lb_health rid d))"
  by (rule next_step [OF assms other_table]; simp add: upsert_lb_health_batch_def delete_lb_health_def)+

lemma get_record_health [simp]:
  "get_record (snd (upsert_lb_health_batch ps d)) rid = get_record d rid"
  "get_record (snd (delete_lb_health hid d)) rid = get_record d rid"
  by (simp_all add: upsert_lb_health_batch_def delete_lb_health_def get_record_def)

lemma health_deletes:
  "db_reachable d \<Longrightarrow> db_reachable (fold (\<lambda>rid d. snd (delete_lb_health rid d)) ids d)"
  "get_record (fold (\<lambda>rid d. snd (delete_lb_health rid d)) ids d) rid = get_record d rid"
  by (induction ids arbitrary: d) (simp_all add: health_write_reachable)

subsection \<open>Decisions\<close>

definition enabled_of :: "health_state \<Rightarrow> uuid \<Rightarrow> bool" where
  "enabled_of hs rid = (case state_get hs rid of Some h \<Rightarrow> should_be_enabled h | None \<Rightarrow> True)"

lemma probe_result_frame:
  assumes "record_probe_result_with_prev rid b now p s hs = (res, hs')"
  shows "fst ` set hs' = fst ` set hs" "distinct (map fst hs) \<Longrightarrow> distinct (map fst hs')"
    "k \<noteq> rid \<Longrightarrow> state_get hs' k = state_get hs k"
  using assms
  by (auto simp: record_probe_result_with_prev_def hydrate_keys split_beta split: option.splits if_splits
      simp: state_dom [symmetric] domIff)

lemma decide_fields:
  "de_state (decide zs now (t, res) acc) =
     snd (record_probe_result_with_prev (pt_record_id t) (pr_success res) now (pt_probe_type t) (pr_detail res) (de_state acc))"
  "de_updates (decide zs now (t, res) acc) = de_updates acc @
     (let e = enabled_of (de_state (decide zs now (t, res) acc)) (pt_record_id t)
      in if e \<noteq> pt_enabled_in_db t then [(pt_record_id t, e)] else [])"
  by (simp_all add: decide_def enabled_of_def split_beta Let_def)

lemma decide_all:
  fixes zs :: "zone list" and now :: instant
  assumes "distinct (map (pt_record_id \<circ> fst) trs)" "distinct (map fst (de_state acc))" "de_updates acc = []"
  defines "de \<equiv> fold (decide zs now) trs acc"
  shows "fst ` set (de_state de) = fst ` set (de_state acc) \<and> distinct (map fst (de_state de)) \<and>
    distinct (map fst (de_updates de)) \<and>
    (\<forall>rid. map_of (de_updates de) rid =
       (if \<exists>t \<in> fst ` set trs. pt_record_id t = rid \<and> enabled_of (de_state de) rid \<noteq> pt_enabled_in_db t
        then Some (enabled_of (de_state de) rid) else None))"
  using assms(1) unfolding de_def
proof (induction trs rule: rev_induct)
  case Nil
  then show ?case
    using assms(2,3) by simp
next
  case (snoc tr trs)
  obtain t res where tr: "tr = (t, res)"
    by (cases tr)
  define a where "a = fold (decide zs now) trs acc"
  define b where "b = fold (decide zs now) (trs @ [tr]) acc"
  have b: "b = decide zs now (t, res) a"
    by (simp add: a_def b_def tr)
  have new: "pt_record_id t' \<noteq> pt_record_id t" if "t' \<in> fst ` set trs" for t'
    using snoc.prems that by (force simp: tr)
  obtain out where out: "record_probe_result_with_prev (pt_record_id t) (pr_success res) now (pt_probe_type t)
      (pr_detail res) (de_state a) = (out, de_state b)"
    unfolding b decide_fields by (metis prod.collapse)
  note frame = probe_result_frame [OF out]
  have IH: "fst ` set (de_state a) = fst ` set (de_state acc)" "distinct (map fst (de_state a))"
    "distinct (map fst (de_updates a))"
    "map_of (de_updates a) rid =
       (if \<exists>t \<in> fst ` set trs. pt_record_id t = rid \<and> enabled_of (de_state a) rid \<noteq> pt_enabled_in_db t
        then Some (enabled_of (de_state a) rid) else None)" for rid
    using snoc by (simp_all add: a_def)
  let ?e = "enabled_of (de_state b) (pt_record_id t)"
  have upd: "de_updates b = de_updates a @ (if ?e \<noteq> pt_enabled_in_db t then [(pt_record_id t, ?e)] else [])"
    using decide_fields(2) [of zs now t res a] by (simp only: b Let_def)
  have none: "map_of (de_updates a) (pt_record_id t) = None"
    using new by (simp add: IH(4))
  then have dist: "distinct (map fst (de_updates b))"
    using IH(3) by (auto simp: upd map_of_eq_None_iff)
  have maps: "map_of (de_updates b) rid =
       (if \<exists>t \<in> fst ` set (trs @ [tr]). pt_record_id t = rid \<and> enabled_of (de_state b) rid \<noteq> pt_enabled_in_db t
        then Some (enabled_of (de_state b) rid) else None)" for rid
  proof (cases "rid = pt_record_id t")
    case True
    with none new show ?thesis
      by (auto simp: upd map_add_def tr)
  next
    case False
    then have "enabled_of (de_state b) rid = enabled_of (de_state a) rid"
      using frame(3) [OF False] by (simp add: enabled_of_def)
    with False IH(4) [of rid] show ?thesis
      by (auto simp: upd map_add_def tr)
  qed
  have keys: "fst ` set (de_state b) = fst ` set (de_state acc)"
    using frame(1) IH(1) by simp
  show ?case
    unfolding b_def [symmetric] by (intro conjI allI keys frame(2) [OF IH(2)] dist maps)
qed

lemma map_of_filter_ne: "map_of (filter (\<lambda>u. fst u \<noteq> k) us) rid = (if rid = k then None else map_of us rid)"
  by (induction us) auto

lemma keep_failsafe_all:
  fixes zs :: "zone list" and now :: instant and d :: db
  defines "de F acc \<equiv> fold (keep_failsafe d zs now) F acc"
  shows "de_state (de F acc) = de_state acc \<and>
    (distinct (map fst (de_updates acc)) \<longrightarrow> distinct (map fst (de_updates (de F acc)))) \<and>
    map_of (de_updates (de F acc)) rid = (if rid \<in> set F then Some True else map_of (de_updates acc) rid)"
  unfolding de_def
proof (induction F arbitrary: acc)
  case (Cons x F)
  let ?acc = "keep_failsafe d zs now x acc"
  have "distinct (map fst (de_updates acc)) \<longrightarrow> distinct (map fst (de_updates ?acc))"
    by (auto simp: keep_failsafe_def distinct_map_filter)
  moreover have "map_of (de_updates ?acc) rid = (if rid = x then Some True else map_of (de_updates acc) rid)"
    by (simp add: keep_failsafe_def map_add_def map_of_filter_ne split: option.split)
  moreover have "de_state ?acc = de_state acc"
    by (simp add: keep_failsafe_def)
  ultimately show ?case
    using Cons [of ?acc] by auto
qed simp

subsection \<open>Targets\<close>

definition monitored :: "dns_record \<Rightarrow> bool" where
  "monitored r \<longleftrightarrow> r_health_check r \<noteq> None \<and> target_ip (r_data r) \<noteq> None"

definition is_halfopen :: "dns_record \<Rightarrow> bool" where
  "is_halfopen r \<longleftrightarrow> (\<exists>hc. r_health_check r = Some hc \<and> hc_probe_type hc = TcpHalfOpen)"

text \<open>The records of all zones, in the order of the cycle.\<close>

definition all_records :: "db \<Rightarrow> dns_record list" where
  "all_records d = concat (map (\<lambda>z. list_records d (z_id z)) (list_zones d))"

lemma collect_record_fields:
  "map pt_record_id (co_targets (collect_record config z r acc)) =
     map pt_record_id (co_targets acc) @ (if monitored r \<and> \<not> is_halfopen r then [r_id r] else [])"
  "map pt_enabled_in_db (co_targets (collect_record config z r acc)) =
     map pt_enabled_in_db (co_targets acc) @ (if monitored r \<and> \<not> is_halfopen r then [r_enabled r] else [])"
  "co_halfopen (collect_record config z r acc) =
     co_halfopen acc @ (if monitored r \<and> is_halfopen r then [r_id r] else [])"
  "fst ` set (co_state (collect_record config z r acc)) =
     fst ` set (co_state acc) \<union> (if monitored r then {r_id r} else {})"
  "distinct (map fst (co_state acc)) \<Longrightarrow> distinct (map fst (co_state (collect_record config z r acc)))"
  by (auto simp: collect_record_def monitored_def is_halfopen_def register_def Let_def hydrate_keys state_dom [symmetric]
      split: option.splits)

definition collect_all :: "monitor_config \<Rightarrow> (zone \<times> dns_record) list \<Rightarrow> collected \<Rightarrow> collected" where
  "collect_all config ps acc = fold (\<lambda>(z, r). collect_record config z r) ps acc"

lemma collect_all_fields:
  "map pt_record_id (co_targets (collect_all config ps acc)) =
     map pt_record_id (co_targets acc) @ map r_id (filter (\<lambda>r. monitored r \<and> \<not> is_halfopen r) (map snd ps))"
  "map pt_enabled_in_db (co_targets (collect_all config ps acc)) =
     map pt_enabled_in_db (co_targets acc) @ map r_enabled (filter (\<lambda>r. monitored r \<and> \<not> is_halfopen r) (map snd ps))"
  "co_halfopen (collect_all config ps acc) =
     co_halfopen acc @ map r_id (filter (\<lambda>r. monitored r \<and> is_halfopen r) (map snd ps))"
  "fst ` set (co_state (collect_all config ps acc)) =
     fst ` set (co_state acc) \<union> r_id ` {r \<in> set (map snd ps). monitored r}"
  "distinct (map fst (co_state acc)) \<Longrightarrow> distinct (map fst (co_state (collect_all config ps acc)))"
proof (induction ps arbitrary: acc)
  case (Cons p ps)
  obtain z r where p: "p = (z, r)"
    by (cases p)
  have step: "collect_all config (p # ps) acc = collect_all config ps (collect_record config z r acc)" for acc
    by (simp add: collect_all_def p)
  {
    case 1
    show ?case unfolding step Cons.IH(1) collect_record_fields by (simp add: p)
  next
    case 2
    show ?case unfolding step Cons.IH(2) collect_record_fields by (simp add: p)
  next
    case 3
    show ?case unfolding step Cons.IH(3) collect_record_fields by (simp add: p)
  next
    case 4
    show ?case unfolding step Cons.IH(4) collect_record_fields by (auto simp: p)
  next
    case 5
    then show ?case unfolding step by (intro Cons.IH(5) collect_record_fields(5))
  }
qed (simp_all add: collect_all_def)

lemma collect_pairs:
  "collect m = collect_all (hm_config m)
     (concat (map (\<lambda>z. map (Pair z) (list_records (hm_db m) (z_id z))) (list_zones (hm_db m))))
     \<lparr>co_targets = [], co_halfopen = [], co_state = hm_state m, co_watchers = hm_watchers m\<rparr>"
proof -
  have "fold (collect_zone config d) zs acc =
      collect_all config (concat (map (\<lambda>z. map (Pair z) (list_records d (z_id z))) zs)) acc" for config d zs acc
  proof (induction zs arbitrary: acc)
    case (Cons z zs)
    have "collect_zone config d z acc = collect_all config (map (Pair z) (list_records d (z_id z))) acc"
      by (simp add: collect_zone_def collect_all_def fold_map comp_def)
    with Cons show ?case
      by (simp add: collect_all_def)
  qed (simp add: collect_all_def)
  then show ?thesis
    by (simp add: collect_def)
qed

lemma collect_fields:
  "map pt_record_id (co_targets (collect m)) =
     map r_id (filter (\<lambda>r. monitored r \<and> \<not> is_halfopen r) (all_records (hm_db m)))"
  "map pt_enabled_in_db (co_targets (collect m)) =
     map r_enabled (filter (\<lambda>r. monitored r \<and> \<not> is_halfopen r) (all_records (hm_db m)))"
  "live_ids (collect m) = r_id ` {r \<in> set (all_records (hm_db m)). monitored r}"
  "fst ` set (co_state (collect m)) = fst ` set (hm_state m) \<union> live_ids (collect m)"
  "distinct (map fst (hm_state m)) \<Longrightarrow> distinct (map fst (co_state (collect m)))"
proof -
  let ?ps = "concat (map (\<lambda>z. map (Pair z) (list_records (hm_db m) (z_id z))) (list_zones (hm_db m)))"
  have snd: "map snd ?ps = all_records (hm_db m)"
    by (simp add: all_records_def map_concat comp_def)
  show ids: "map pt_record_id (co_targets (collect m)) =
     map r_id (filter (\<lambda>r. monitored r \<and> \<not> is_halfopen r) (all_records (hm_db m)))"
    unfolding collect_pairs collect_all_fields snd by simp
  show "map pt_enabled_in_db (co_targets (collect m)) =
     map r_enabled (filter (\<lambda>r. monitored r \<and> \<not> is_halfopen r) (all_records (hm_db m)))"
    unfolding collect_pairs collect_all_fields snd by simp
  have half: "co_halfopen (collect m) = map r_id (filter (\<lambda>r. monitored r \<and> is_halfopen r) (all_records (hm_db m)))"
    unfolding collect_pairs collect_all_fields snd by simp
  show live: "live_ids (collect m) = r_id ` {r \<in> set (all_records (hm_db m)). monitored r}"
    unfolding live_ids_def ids half by auto
  show "fst ` set (co_state (collect m)) = fst ` set (hm_state m) \<union> live_ids (collect m)"
    unfolding live unfolding collect_pairs collect_all_fields snd by simp
  show "distinct (map fst (hm_state m)) \<Longrightarrow> distinct (map fst (co_state (collect m)))"
    unfolding collect_pairs by (rule collect_all_fields(5)) simp
qed

lemma distinct_by_zone:
  assumes "distinct (map z_id zs)" "\<And>z. z \<in> set zs \<Longrightarrow> distinct (f z) \<and> (\<forall>r \<in> set (f z). r_zone_id r = z_id z)"
  shows "distinct (concat (map f zs))"
  using assms
proof (induction zs)
  case (Cons z zs)
  have "set (f z) \<inter> set (concat (map f zs)) = {}"
  proof (rule ccontr)
    assume "set (f z) \<inter> set (concat (map f zs)) \<noteq> {}"
    then obtain r z' where "r \<in> set (f z)" "z' \<in> set zs" "r \<in> set (f z')"
      by auto
    with Cons.prems(2) [of z] Cons.prems(2) [of z'] have "z_id z = z_id z'"
      by force
    with Cons.prems(1) \<open>z' \<in> set zs\<close> show False
      by auto
  qed
  with Cons show ?case
    by simp
qed simp

lemma all_records_facts:
  assumes "db_reachable d"
  shows "r \<in> set (all_records d) \<Longrightarrow> get_record d (r_id r) = Some r"
    and "distinct (map r_id (all_records d))"
proof -
  note zones = list_zones_facts [OF assms]
  have listed: "r \<in> s_rows (abs_db d) \<and> r_zone_id r = z_id z" if "z \<in> set (list_zones d)" "r \<in> set (list_records d (z_id z))" for z r
    using list_records_iff [OF reachable_rec_inv [OF assms] zones(2) [OF that(1)], of r] that(2) by (simp add: abs_db_def)
  have rows: "set (all_records d) \<subseteq> s_rows (abs_db d)"
    unfolding all_records_def using listed by auto
  then show "r \<in> set (all_records d) \<Longrightarrow> get_record d (r_id r) = Some r"
    using rows_get [OF assms] by blast
  have "distinct (all_records d)"
    unfolding all_records_def
    by (rule distinct_by_zone [OF zones(1)]) (use listed list_records_distinct [OF assms] in blast)
  with rows show "distinct (map r_id (all_records d))"
    using inj_on_subset [OF rows_inj [OF assms] rows] by (simp add: distinct_map)
qed

subsection \<open>One cycle\<close>

text \<open>All targets are probed once, in some order.\<close>

definition probes_all :: "(probe_target list \<Rightarrow> (probe_target \<times> probe_result) list) \<Rightarrow> probe_target list \<Rightarrow> bool" where
  "probes_all probes ts \<longleftrightarrow> mset (map fst (probes ts)) = mset ts"

lemma probes_all_ids:
  assumes "probes_all probes ts"
  shows "fst ` set (probes ts) = set ts" "distinct (map (pt_record_id \<circ> fst) (probes ts)) \<longleftrightarrow> distinct (map pt_record_id ts)"
    "length (probes ts) = length ts"
proof -
  show "fst ` set (probes ts) = set ts"
    using assms unfolding probes_all_def by (metis list.set_map mset_eq_setD)
  have "mset (map (pt_record_id \<circ> fst) (probes ts)) = mset (map pt_record_id ts)"
    using assms unfolding probes_all_def by (metis map_map mset_map)
  then show "distinct (map (pt_record_id \<circ> fst) (probes ts)) \<longleftrightarrow> distinct (map pt_record_id ts)"
    by (rule mset_eq_imp_distinct_iff)
  show "length (probes ts) = length ts"
    using assms unfolding probes_all_def by (metis length_map mset_eq_length)
qed

lemma target_record:
  assumes "t \<in> set (co_targets (collect m))"
  obtains r where "r \<in> set (all_records (hm_db m))" "monitored r" "\<not> is_halfopen r"
    "r_id r = pt_record_id t" "r_enabled r = pt_enabled_in_db t"
proof -
  let ?ts = "co_targets (collect m)" and ?rs = "filter (\<lambda>r. monitored r \<and> \<not> is_halfopen r) (all_records (hm_db m))"
  obtain i where i: "i < length ?ts" "t = ?ts ! i"
    using assms by (auto simp: in_set_conv_nth)
  have len: "length ?rs = length ?ts"
    using arg_cong [OF collect_fields(1) [of m], of length] by simp
  have "r_id (?rs ! i) = pt_record_id t" "r_enabled (?rs ! i) = pt_enabled_in_db t"
    using arg_cong [OF collect_fields(1) [of m], of "\<lambda>xs. xs ! i"] arg_cong [OF collect_fields(2) [of m], of "\<lambda>xs. xs ! i"]
      i len by simp_all
  moreover have "?rs ! i \<in> set ?rs"
    by (rule nth_mem) (simp only: len i(1))
  ultimately show thesis
    using that by auto
qed

lemma record_enabled_same: "r_enabled r = e \<Longrightarrow> r\<lparr>r_enabled := e\<rparr> = r"
  by (cases r) simp

lemma cycle_result:
  fixes now :: instant
  assumes "db_reachable (hm_db m)" "distinct (map fst (hm_state m))" "co_targets (collect m) \<noteq> []"
    and "probes_all probes (co_targets (collect m))"
  defines "m' \<equiv> snd (run_check_cycle probes now m)"
  shows "db_reachable (hm_db m') \<and> fst ` set (hm_state m') = live_ids (collect m) \<and> distinct (map fst (hm_state m')) \<and>
    (\<forall>rid. get_record (hm_db m') rid =
      (if rid \<in> set (failsafe_records (hm_state m'))
       then map_option (\<lambda>r. r\<lparr>r_enabled := True\<rparr>) (get_record (hm_db m) rid)
       else if rid \<in> pt_record_id ` set (co_targets (collect m))
       then map_option (\<lambda>r. r\<lparr>r_enabled := enabled_of (hm_state m') rid\<rparr>) (get_record (hm_db m) rid)
       else get_record (hm_db m) rid))"
proof -
  define c where "c = collect m"
  define hs where "hs = snd (retain_only (live_ids c) (co_state c))"
  define d1 where "d1 = fold (\<lambda>rid d. snd (delete_lb_health rid d)) (fst (retain_only (live_ids c) (co_state c))) (hm_db m)"
  define zs where "zs = list_zones (hm_db m)"
  define de1 where "de1 = fold (decide zs now) (probes (co_targets c)) \<lparr>de_state = hs, de_updates = [], de_transitions = []\<rparr>"
  define de2 where "de2 = fold (keep_failsafe d1 zs now) (failsafe_records (de_state de1)) de1"
  have m': "hm_state m' = de_state de2"
    "hm_db m' = snd (upsert_lb_health_batch (snapshot_persisted (de_state de2)) (fold apply_update (de_updates de2) d1))"
    using assms(3) unfolding m'_def run_check_cycle_def Let_def split_beta
    by (simp_all add: c_def hs_def d1_def zs_def de1_def de2_def)
  have ids: "distinct (map pt_record_id (co_targets c))"
    unfolding c_def collect_fields using all_records_facts(2) [OF assms(1)] by (rule distinct_map_filter)
  have hs: "distinct (map fst hs)" "fst ` set hs = live_ids c"
    using collect_fields(5) [OF assms(2)] collect_fields(4) [of m]
    unfolding hs_def retain_only_result c_def by (auto simp: distinct_map_filter)
  have trs: "distinct (map (pt_record_id \<circ> fst) (probes (co_targets c)))" "fst ` set (probes (co_targets c)) = set (co_targets c)"
    using probes_all_ids [OF assms(4)] ids by (simp_all add: c_def)
  have de1: "fst ` set (de_state de1) = fst ` set hs \<and> distinct (map fst (de_state de1)) \<and>
    distinct (map fst (de_updates de1)) \<and>
    (\<forall>rid. map_of (de_updates de1) rid =
       (if \<exists>t \<in> set (co_targets c). pt_record_id t = rid \<and> enabled_of (de_state de1) rid \<noteq> pt_enabled_in_db t
        then Some (enabled_of (de_state de1) rid) else None))"
    using decide_all [OF trs(1), of "\<lparr>de_state = hs, de_updates = [], de_transitions = []\<rparr>" zs now] hs(1)
    unfolding trs(2) de1_def by simp
  have de2: "de_state de2 = de_state de1" "distinct (map fst (de_updates de2))"
    "map_of (de_updates de2) rid = (if rid \<in> set (failsafe_records (de_state de1)) then Some True
      else map_of (de_updates de1) rid)" for rid
    using keep_failsafe_all [of d1 zs now "failsafe_records (de_state de1)" de1 rid] de1 unfolding de2_def by blast+
  have d1: "db_reachable d1" "get_record d1 rid = get_record (hm_db m) rid" for rid
    unfolding d1_def using health_deletes assms(1) by blast+
  note upd = apply_updates_result [OF d1(1) de2(2), unfolded d1(2) de2(3)]
  have flag: "map_option (\<lambda>r. r\<lparr>r_enabled := e\<rparr>) (get_record (hm_db m) rid) = get_record (hm_db m) rid"
    if t: "t \<in> set (co_targets c)" "pt_record_id t = rid" "e = pt_enabled_in_db t" for t rid e
    using target_record [OF t(1) [unfolded c_def]] all_records_facts(1) [OF assms(1)] t(2,3)
    by (metis option.map(2) record_enabled_same)
  have get: "get_record (hm_db m') rid =
      (if rid \<in> set (failsafe_records (hm_state m'))
       then map_option (\<lambda>r. r\<lparr>r_enabled := True\<rparr>) (get_record (hm_db m) rid)
       else if rid \<in> pt_record_id ` set (co_targets c)
       then map_option (\<lambda>r. r\<lparr>r_enabled := enabled_of (hm_state m') rid\<rparr>) (get_record (hm_db m) rid)
       else get_record (hm_db m) rid)" for rid
  proof (cases "\<exists>t \<in> set (co_targets c). pt_record_id t = rid \<and> enabled_of (de_state de1) rid \<noteq> pt_enabled_in_db t")
    case True
    with de1 upd [of rid] show ?thesis
      by (auto simp: m' de2(1))
  next
    case False
    with de1 have "map_of (de_updates de1) rid = None"
      by simp
    moreover have "map_option (\<lambda>r. r\<lparr>r_enabled := enabled_of (de_state de1) rid\<rparr>) (get_record (hm_db m) rid) = get_record (hm_db m) rid"
      if "rid \<in> pt_record_id ` set (co_targets c)"
      using that False flag by blast
    ultimately show ?thesis
      using upd [of rid] by (simp add: m' de2(1))
  qed
  have "db_reachable (hm_db m')"
    using health_write_reachable(1) [OF conjunct1 [OF upd]] by (simp only: m'(2))
  moreover have "fst ` set (hm_state m') = live_ids (collect m)" "distinct (map fst (hm_state m'))"
    using de1 hs(2) by (simp_all add: m'(1) de2(1) c_def)
  ultimately show ?thesis
    by (intro conjI allI get [unfolded c_def])
qed

text \<open>The health state after the results of a cycle.\<close>

definition probed_state ::
  "(probe_target list \<Rightarrow> (probe_target \<times> probe_result) list) \<Rightarrow> zone list \<Rightarrow> instant \<Rightarrow> collected \<Rightarrow> health_state" where
  "probed_state probes zs now c = de_state (fold (decide zs now) (probes (co_targets c))
     \<lparr>de_state = snd (retain_only (live_ids c) (co_state c)), de_updates = [], de_transitions = []\<rparr>)"

lemma cycle_state:
  assumes "co_targets (collect m) \<noteq> []"
  shows "hm_state (snd (run_check_cycle probes now m)) = probed_state probes (list_zones (hm_db m)) now (collect m)"
  using assms conjunct1 [OF keep_failsafe_all]
  by (simp add: run_check_cycle_def probed_state_def Let_def split_beta)

section \<open>A monitored group of records\<close>

definition ex_hc :: "probe_type \<Rightarrow> health_check" where
  "ex_hc p = \<lparr>hc_probe_type = p, hc_interval_secs = 10, hc_timeout_secs = 2, hc_unhealthy_threshold = 3,
     hc_healthy_threshold = 2, hc_endpoint = None\<rparr>"

definition ex_lb_record :: "uuid \<Rightarrow> probe_type \<Rightarrow> dns_record" where
  "ex_lb_record rid p = ex_www\<lparr>r_id := rid, r_name := ''api'', r_health_check := Some (ex_hc p)\<rparr>"

definition ex_rid4 :: uuid where "ex_rid4 = ''dddddddd-dddd-dddd-dddd-dddddddddddd''"
definition ex_rid5 :: uuid where "ex_rid5 = ''eeeeeeee-eeee-eeee-eeee-eeeeeeeeeeee''"

definition ex_lb_db1 :: db where "ex_lb_db1 = snd (create_record (ex_lb_record ex_rid3 Tcp) ex_db)"
definition ex_lb_db2 :: db where "ex_lb_db2 = snd (create_record (ex_lb_record ex_rid4 Tcp) ex_lb_db1)"
definition ex_lb_db :: db where "ex_lb_db = snd (create_record (ex_lb_record ex_rid5 TcpHalfOpen) ex_lb_db2)"

definition ex_down :: "instant \<Rightarrow> record_health" where
  "ex_down t = (health_new 2 3 ex_zid ''api'' ''A'')\<lparr>rh_status := Unhealthy, rh_last_checked_at := Some 9,
     rh_last_healthy_at := Some t\<rparr>"

definition ex_monitor :: health_monitor where
  "ex_monitor = (monitor_new (default_for Tcp) ex_lb_db)
     \<lparr>hm_state := [(ex_rid3, ex_down 1), (ex_rid4, ex_down 2), (ex_rid5, ex_down 0)]\<rparr>"

definition ex_probes :: "probe_target list \<Rightarrow> (probe_target \<times> probe_result) list" where
  "ex_probes ts = map (\<lambda>t. (t, \<lparr>pr_success = False, pr_detail = ''timeout''\<rparr>)) (rev ts)"

lemma ex_lb_reachable: "db_reachable (hm_db ex_monitor)"
proof -
  have ids: "is_uuid ex_rid3" "is_uuid ex_rid4" "is_uuid ex_rid5" "get_record ex_db ex_rid3 = None"
    "get_record ex_lb_db1 ex_rid4 = None" "get_record ex_lb_db2 ex_rid5 = None"
    by code_simp+
  have fields: "r_id (ex_lb_record rid p) = rid" "r_zone_id (ex_lb_record rid p) = ex_zid" for rid p
    by (simp_all add: ex_lb_record_def ex_www_def)
  have "db_reachable ex_lb_db1"
    unfolding ex_lb_db1_def
    by (rule next_step [OF ex_db_reachable record_created]) (simp_all add: fields ids ex_uuids)
  then have "db_reachable ex_lb_db2"
    unfolding ex_lb_db2_def by (rule next_step [OF _ record_created]) (simp_all add: fields ids ex_uuids)
  then have "db_reachable ex_lb_db"
    unfolding ex_lb_db_def by (rule next_step [OF _ record_created]) (simp_all add: fields ids ex_uuids)
  then show ?thesis
    by (simp add: ex_monitor_def monitor_new_def)
qed

lemma ex_probes_all: "probes_all ex_probes ts"
  by (simp add: probes_all_def ex_probes_def comp_def)

definition ex_monitor_ok :: "health_monitor \<Rightarrow> bool" where
  "ex_monitor_ok m \<longleftrightarrow> distinct (map fst (hm_state m)) \<and>
     get_record (hm_db m) ex_rid5 = Some (ex_lb_record ex_rid5 TcpHalfOpen) \<and>
     (let c = collect m
      in map pt_record_id (co_targets c) = [ex_rid3, ex_rid4] \<and> co_halfopen c = [ex_rid5] \<and>
         map (\<lambda>e. (fst e, rh_status (snd e), rh_last_healthy_at (snd e)))
           (group_members (probed_state ex_probes (list_zones (hm_db m)) 10 c) (ex_zid, ''api'', ''A'')) =
           [(ex_rid3, Unhealthy, Some 1), (ex_rid4, Unhealthy, Some 2), (ex_rid5, Unhealthy, Some 0)])"

lemma ex_monitor_ok: "ex_monitor_ok ex_monitor"
  by code_simp

lemma ex_state_distinct: "distinct (map fst (hm_state ex_monitor))"
  using ex_monitor_ok by (simp only: ex_monitor_ok_def)

lemma ex_targets:
  "map pt_record_id (co_targets (collect ex_monitor)) = [ex_rid3, ex_rid4]" "co_targets (collect ex_monitor) \<noteq> []"
  using ex_monitor_ok by (auto simp: ex_monitor_ok_def Let_def)

section \<open>Properties\<close>

text \<open>
  C26. After a probe cycle every probed record is enabled exactly when its health says so or it is
  the survivor its group keeps; no other field of it changes. The results may arrive in any order.
\<close>

theorem cycle_sets_enabled:
  assumes "db_reachable (hm_db m)" "distinct (map fst (hm_state m))"
    and "probes_all probes (co_targets (collect m))" "t \<in> set (co_targets (collect m))"
  shows "let (n, m') = run_check_cycle probes now m; rid = pt_record_id t
         in n = length (co_targets (collect m)) \<and> db_reachable (hm_db m') \<and>
            (\<exists>r h. get_record (hm_db m) rid = Some r \<and> state_get (hm_state m') rid = Some h \<and>
               get_record (hm_db m') rid =
                 Some (r\<lparr>r_enabled := should_be_enabled h \<or> rid \<in> set (failsafe_records (hm_state m'))\<rparr>))"
proof -
  let ?m = "snd (run_check_cycle probes now m)" and ?rid = "pt_record_id t"
  have ne: "co_targets (collect m) \<noteq> []"
    using assms(4) by auto
  note res = cycle_result [OF assms(1,2) ne assms(3), of now]
  obtain r where r: "r \<in> set (all_records (hm_db m))" "monitored r" "r_id r = ?rid"
    using target_record [OF assms(4)] by metis
  then have get: "get_record (hm_db m) ?rid = Some r"
    using all_records_facts(1) [OF assms(1) r(1)] by simp
  have "?rid \<in> live_ids (collect m)"
    using assms(4) by (simp add: live_ids_def)
  then obtain h where h: "state_get (hm_state ?m) ?rid = Some h"
    using res state_dom [of "hm_state ?m"] by blast
  have "get_record (hm_db ?m) ?rid =
      Some (r\<lparr>r_enabled := should_be_enabled h \<or> ?rid \<in> set (failsafe_records (hm_state ?m))\<rparr>)"
    using res assms(4) get h by (simp add: enabled_of_def)
  moreover have "fst (run_check_cycle probes now m) = length (co_targets (collect m))"
    using probes_all_ids(3) [OF assms(3)] ne by (simp add: run_check_cycle_def Let_def split_beta)
  ultimately show ?thesis
    using res get h by (simp add: split_beta)
qed

theorem cycle_sets_enabled_witness:
  "\<exists>r h. state_get (hm_state (snd (run_check_cycle ex_probes 10 ex_monitor))) ex_rid3 = Some h \<and>
     get_record (hm_db (snd (run_check_cycle ex_probes 10 ex_monitor))) ex_rid3 =
       Some (r\<lparr>r_enabled := should_be_enabled h \<or>
         ex_rid3 \<in> set (failsafe_records (hm_state (snd (run_check_cycle ex_probes 10 ex_monitor))))\<rparr>)"
proof -
  obtain t where t: "t \<in> set (co_targets (collect ex_monitor))" "pt_record_id t = ex_rid3"
    using ex_targets by (metis (no_types, lifting) image_iff list.set_intros(1) list.set_map)
  show ?thesis
    using cycle_sets_enabled [OF ex_lb_reachable ex_state_distinct ex_probes_all t(1), of 10] t(2)
    by (auto simp: split_beta Let_def)
qed

text \<open>
  C27. A probe cycle never takes a whole group out of service: when two or more records of one
  name and type are all unhealthy after it and one of them was ever healthy, the most recently
  healthy one is enabled in the database. The cycle must have had something to probe.
\<close>

theorem failsafe_keeps_one:
  assumes "db_reachable (hm_db m)" "distinct (map fst (hm_state m))" "co_targets (collect m) \<noteq> []"
    and "probes_all probes (co_targets (collect m))"
    and "members = group_members (hm_state (snd (run_check_cycle probes now m))) k"
    and "2 \<le> length members" "\<forall>e \<in> set members. rh_status (snd e) = Unhealthy"
    and "\<exists>e \<in> set members. rh_last_healthy_at (snd e) \<noteq> None"
  shows "\<exists>(rid, h) \<in> set members. (\<forall>e \<in> set members. rh_last_healthy_at (snd e) \<le> rh_last_healthy_at h) \<and>
           (\<exists>r. get_record (hm_db (snd (run_check_cycle probes now m))) rid = Some r \<and> r_enabled r)"
proof -
  let ?m = "snd (run_check_cycle probes now m)"
  note res = cycle_result [OF assms(1-4), of now]
  obtain rid where pick: "group_pick members = Some rid"
    using group_pickI [OF assms(6-8)] by blast
  then have safe: "rid \<in> set (failsafe_records (hm_state ?m))"
    using failsafe_iff assms(5) by blast
  obtain h where h: "(rid, h) \<in> set members" "\<forall>e \<in> set members. rh_last_healthy_at (snd e) \<le> rh_last_healthy_at h"
    using group_pickD [OF pick] by metis
  then have "rid \<in> live_ids (collect m)"
    using res assms(5) by (force simp: group_members_def)
  then obtain r where "get_record (hm_db m) rid = Some r"
    using all_records_facts(1) [OF assms(1)] unfolding collect_fields by auto
  then have "get_record (hm_db ?m) rid = Some (r\<lparr>r_enabled := True\<rparr>)"
    using res safe by simp
  with h show ?thesis
    by force
qed

theorem failsafe_keeps_one_witness:
  "\<exists>rid r. get_record (hm_db (snd (run_check_cycle ex_probes 10 ex_monitor))) rid = Some r \<and> r_enabled r \<and>
     rid \<in> {ex_rid3, ex_rid4, ex_rid5}"
proof -
  let ?ms = "group_members (hm_state (snd (run_check_cycle ex_probes 10 ex_monitor))) (ex_zid, ''api'', ''A'')"
  have ms: "map (\<lambda>e. (fst e, rh_status (snd e), rh_last_healthy_at (snd e))) ?ms =
      [(ex_rid3, Unhealthy, Some 1), (ex_rid4, Unhealthy, Some 2), (ex_rid5, Unhealthy, Some 0)]"
    using ex_monitor_ok ex_targets(2) by (simp add: ex_monitor_ok_def Let_def cycle_state)
  have len: "2 \<le> length ?ms"
    using arg_cong [OF ms, of length] by simp
  have "list_all (\<lambda>(rid, status, at). status = Unhealthy \<and> at \<noteq> None \<and> rid \<in> {ex_rid3, ex_rid4, ex_rid5})
      (map (\<lambda>e. (fst e, rh_status (snd e), rh_last_healthy_at (snd e))) ?ms)"
    unfolding ms by simp
  then have all: "\<forall>e \<in> set ?ms. rh_status (snd e) = Unhealthy \<and> rh_last_healthy_at (snd e) \<noteq> None \<and>
      fst e \<in> {ex_rid3, ex_rid4, ex_rid5}"
    unfolding list.pred_map by (simp only: list.pred_set comp_def prod.case)
  moreover have "\<exists>e. e \<in> set ?ms"
    using len by (cases ?ms) auto
  ultimately show ?thesis
    using failsafe_keeps_one [OF ex_lb_reachable ex_state_distinct ex_targets(2) ex_probes_all refl len] by fastforce
qed

text \<open>
  C28. No cycle takes a record with a half-open check out of service: whatever its watcher has
  published, an enabled one stays enabled and unchanged in the database.
\<close>

theorem halfopen_never_disabled:
  assumes "db_reachable (hm_db m)" "distinct (map fst (hm_state m))"
    and "probes_all probes (co_targets (collect m))"
    and "get_record (hm_db m) rid = Some r" "is_halfopen r" "r_enabled r"
  shows "get_record (hm_db (snd (run_check_cycle probes now m))) rid = Some r"
proof (cases "co_targets (collect m) = []")
  case True
  with assms(4) show ?thesis
    by (simp add: run_check_cycle_def Let_def split_beta health_deletes(2))
next
  case False
  have "rid \<notin> pt_record_id ` set (co_targets (collect m))"
  proof
    assume "rid \<in> pt_record_id ` set (co_targets (collect m))"
    then obtain r' where "r' \<in> set (all_records (hm_db m))" "\<not> is_halfopen r'" "r_id r' = rid"
      using target_record by (metis imageE)
    then show False
      using all_records_facts(1) [OF assms(1)] assms(4,5) by auto
  qed
  with cycle_result [OF assms(1,2) False assms(3), of now] assms(4,6) show ?thesis
    by (auto simp: record_enabled_same)
qed

theorem halfopen_never_disabled_witness:
  "get_record (hm_db (snd (run_check_cycle ex_probes 10 ex_monitor))) ex_rid5 = Some (ex_lb_record ex_rid5 TcpHalfOpen) \<and>
   map rh_status (map snd (filter (\<lambda>e. fst e = ex_rid5) (hm_state ex_monitor))) = [Unhealthy]"
proof -
  have get: "get_record (hm_db ex_monitor) ex_rid5 = Some (ex_lb_record ex_rid5 TcpHalfOpen)"
    using ex_monitor_ok by (simp only: ex_monitor_ok_def)
  show ?thesis
    using halfopen_never_disabled [OF ex_lb_reachable ex_state_distinct ex_probes_all get, of 10]
    by (simp add: is_halfopen_def ex_lb_record_def ex_hc_def ex_www_def ex_monitor_def ex_down_def ex_rid3_def ex_rid4_def ex_rid5_def)
qed

end
