(* ===== verification/Net.thy ===== *)
theory Net
  imports Addr6
begin

text \<open>
  Reading addresses from text the way the standard library does (\<^verbatim>\<open>IpAddr\<close>,
  \<^verbatim>\<open>SocketAddr\<close> and their \<^verbatim>\<open>FromStr\<close>), trimming, and lossy decoding of UTF-8. A reader
  returns what it read and the text that is left.
\<close>

section \<open>Addresses with a port\<close>

text \<open>An IPv6 socket address also has a scope; the flow information is always zero here.\<close>

datatype socket_addr = SocketV4 ipv4 u16 | SocketV6 ipv6 u16 u32

fun sock_ip :: "socket_addr \<Rightarrow> ip_addr" where
  "sock_ip (SocketV4 a _) = V4 a"
| "sock_ip (SocketV6 a _ _) = V6 a"

fun sock_new :: "ip_addr \<Rightarrow> u16 \<Rightarrow> socket_addr" where
  "sock_new (V4 a) p = SocketV4 a p"
| "sock_new (V6 a) p = SocketV6 a p 0"

lemma sock_ip_new [simp]: "sock_ip (sock_new ip p) = ip"
  by (cases ip) simp_all

text \<open>\<^verbatim>\<open>Ipv6Addr::to_ipv4_mapped\<close>\<close>

definition to_ipv4_mapped :: "ipv6 \<Rightarrow> ipv4 option" where
  "to_ipv4_mapped a = (if take 6 (segments a) = [0, 0, 0, 0, 0, 0xffff] then Some (ucast a) else None)"

section \<open>Readers\<close>

definition read_char :: "char \<Rightarrow> string \<Rightarrow> string option" where
  "read_char c s = (case s of x # xs \<Rightarrow> if x = c then Some xs else None | [] \<Rightarrow> None)"

definition read_sep :: "char \<Rightarrow> nat \<Rightarrow> (string \<Rightarrow> ('a \<times> string) option) \<Rightarrow> string \<Rightarrow> ('a \<times> string) option" where
  "read_sep c i f s = (if i = 0 then f s else Option.bind (read_char c s) f)"

definition read_octet :: "string \<Rightarrow> (u8 \<times> string) option" where
  "read_octet s =
     map_option (\<lambda>b. (b, dropWhile is_digit s)) (parse_octet (takeWhile is_digit s))"

definition read_ipv4 :: "string \<Rightarrow> (ipv4 \<times> string) option" where
  "read_ipv4 s =
     Option.bind (read_octet s) (\<lambda>(a, s).
     Option.bind (read_sep CHR ''.'' 1 read_octet s) (\<lambda>(b, s).
     Option.bind (read_sep CHR ''.'' 2 read_octet s) (\<lambda>(c, s).
     Option.bind (read_sep CHR ''.'' 3 read_octet s) (\<lambda>(d, s).
     Some (u32_from_be a b c d, s)))))"

definition hex_val :: "char \<Rightarrow> nat option" where
  "hex_val c = position (\<lambda>x. x = ascii_lower c) ''0123456789abcdef''"

definition read_group :: "string \<Rightarrow> (u16 \<times> string) option" where
  "read_group s =
     (let ds = takeWhile (\<lambda>c. hex_val c \<noteq> None) s
      in if ds = [] \<or> length ds > 4 then None
         else Some (foldl (\<lambda>g c. 16 * g + of_nat (the (hex_val c))) 0 ds, dropWhile (\<lambda>c. hex_val c \<noteq> None) s))"

fun read_groups :: "nat \<Rightarrow> nat \<Rightarrow> string \<Rightarrow> u16 list \<times> bool \<times> string" where
  "read_groups i 0 s = ([], False, s)"
| "read_groups i (Suc n) s =
     (case (if n > 0 then read_sep CHR '':'' i read_ipv4 s else None) of
        Some (a, rest) \<Rightarrow> ([ucast (drop_bit 16 a), ucast a], True, rest)
      | None \<Rightarrow>
          (case read_sep CHR '':'' i read_group s of
             Some (g, rest) \<Rightarrow> (let (gs, v4, left) = read_groups (i + 1) n rest in (g # gs, v4, left))
           | None \<Rightarrow> ([], False, s)))"

definition of_segments :: "u16 list \<Rightarrow> ipv6" where
  "of_segments ss = foldl (\<lambda>a s. push_bit 16 a + ucast s) 0 ss"

definition read_ipv6 :: "string \<Rightarrow> (ipv6 \<times> string) option" where
  "read_ipv6 s =
     (let (front, v4, rest) = read_groups 0 8 s
      in if length front = 8 then Some (of_segments front, rest)
         else if v4 then None
         else Option.bind (read_char CHR '':'' rest) (\<lambda>rest.
              Option.bind (read_char CHR '':'' rest) (\<lambda>rest.
              let (back, _, left) = read_groups 0 (7 - length front) rest
              in Some (of_segments (front @ replicate (8 - length front - length back) 0 @ back), left))))"

definition read_ip :: "string \<Rightarrow> (ip_addr \<times> string) option" where
  "read_ip s = or_else (map_option (map_prod V4 id) (read_ipv4 s)) (map_option (map_prod V6 id) (read_ipv6 s))"

definition whole :: "('a \<times> string) option \<Rightarrow> 'a option" where
  "whole r = (case r of Some (a, []) \<Rightarrow> Some a | _ \<Rightarrow> None)"

definition parse_ip :: "string \<Rightarrow> ip_addr option" where
  "parse_ip s = whole (read_ip s)"

definition read_decimal :: "nat \<Rightarrow> string \<Rightarrow> (nat \<times> string) option" where
  "read_decimal bound s =
     (let ds = takeWhile is_digit s
      in if ds = [] \<or> \<not> digits_val ds < bound then None else Some (digits_val ds, dropWhile is_digit s))"

definition read_port :: "string \<Rightarrow> (u16 \<times> string) option" where
  "read_port s = Option.bind (read_char CHR '':'' s) (\<lambda>s. map_option (map_prod of_nat id) (read_decimal (2 ^ 16) s))"

definition read_scope :: "string \<Rightarrow> u32 \<times> string" where
  "read_scope s =
     (case Option.bind (read_char CHR ''%'' s) (read_decimal (2 ^ 32)) of
        Some (n, rest) \<Rightarrow> (of_nat n, rest)
      | None \<Rightarrow> (0, s))"

definition read_socket_v6 :: "string \<Rightarrow> (socket_addr \<times> string) option" where
  "read_socket_v6 s =
     Option.bind (read_char CHR ''['' s) (\<lambda>s.
     Option.bind (read_ipv6 s) (\<lambda>(a, s).
     let (scope, s) = read_scope s
     in Option.bind (read_char CHR '']'' s) (\<lambda>s.
        map_option (map_prod (\<lambda>p. SocketV6 a p scope) id) (read_port s))))"

definition read_socket_v4 :: "string \<Rightarrow> (socket_addr \<times> string) option" where
  "read_socket_v4 s =
     Option.bind (read_ipv4 s) (\<lambda>(a, s). map_option (map_prod (SocketV4 a) id) (read_port s))"

definition parse_socket :: "string \<Rightarrow> socket_addr option" where
  "parse_socket s = whole (or_else (read_socket_v4 s) (read_socket_v6 s))"

section \<open>Text\<close>

definition is_space :: "char \<Rightarrow> bool" where
  "is_space c \<longleftrightarrow> c = CHR '' '' \<or> 9 \<le> (of_char c :: nat) \<and> (of_char c :: nat) \<le> 13"

definition trim :: "string \<Rightarrow> string" where
  "trim s = rev (dropWhile is_space (rev (dropWhile is_space s)))"

definition contains_char :: "char \<Rightarrow> string \<Rightarrow> bool" where
  "contains_char c s \<longleftrightarrow> c \<in> set s"

text \<open>\<^verbatim>\<open>String::from_utf8_lossy\<close>: each maximal ill-formed part becomes U+FFFD.\<close>

definition replacement :: "u8 list" where
  "replacement = [0xEF, 0xBF, 0xBD]"

fun utf8_lossy :: "u8 list \<Rightarrow> u8 list" where
  "utf8_lossy [] = []"
| "utf8_lossy (a # bs) =
     (if a < 0x80 then a # utf8_lossy bs
      else if 0xC2 \<le> a \<and> a \<le> 0xDF
           then (case bs of
                   [] \<Rightarrow> replacement
                 | b # r \<Rightarrow> if cont b then a # b # utf8_lossy r else replacement @ utf8_lossy (b # r))
      else if 0xE0 \<le> a \<and> a \<le> 0xEF
           then (case bs of
                   [] \<Rightarrow> replacement
                 | b # r \<Rightarrow>
                     if \<not> (cont b \<and> (a = 0xE0 \<longrightarrow> 0xA0 \<le> b) \<and> (a = 0xED \<longrightarrow> b \<le> 0x9F))
                     then replacement @ utf8_lossy (b # r)
                     else (case r of
                             [] \<Rightarrow> replacement
                           | c # q \<Rightarrow> if cont c then a # b # c # utf8_lossy q else replacement @ utf8_lossy (c # q)))
      else if 0xF0 \<le> a \<and> a \<le> 0xF4
           then (case bs of
                   [] \<Rightarrow> replacement
                 | b # r \<Rightarrow>
                     if \<not> (cont b \<and> (a = 0xF0 \<longrightarrow> 0x90 \<le> b) \<and> (a = 0xF4 \<longrightarrow> b \<le> 0x8F))
                     then replacement @ utf8_lossy (b # r)
                     else (case r of
                             [] \<Rightarrow> replacement
                           | c # q \<Rightarrow>
                               if \<not> cont c then replacement @ utf8_lossy (c # q)
                               else (case q of
                                       [] \<Rightarrow> replacement
                                     | d # p \<Rightarrow> if cont d then a # b # c # d # utf8_lossy p
                                                else replacement @ utf8_lossy (d # p))))
      else replacement @ utf8_lossy bs)"

definition from_utf8_lossy :: "u8 list \<Rightarrow> string" where
  "from_utf8_lossy bs = bytes_str (utf8_lossy bs)"

section \<open>Facts\<close>

declare utf8_lossy.simps(2) [simp del]

lemma utf8_valid_cases:
  assumes "utf8_valid (a # bs)"
  obtains "a < 0x80" "utf8_valid bs"
  | b r where "\<not> a < 0x80" "0xC2 \<le> a \<and> a \<le> 0xDF" "bs = b # r" "cont b" "utf8_valid r"
  | b c r where "\<not> a < 0x80" "\<not> (0xC2 \<le> a \<and> a \<le> 0xDF)" "0xE0 \<le> a \<and> a \<le> 0xEF" "bs = b # c # r" "cont c"
      "cont b \<and> (a = 0xE0 \<longrightarrow> 0xA0 \<le> b) \<and> (a = 0xED \<longrightarrow> b \<le> 0x9F)" "utf8_valid r"
  | b c d r where "\<not> a < 0x80" "\<not> (0xC2 \<le> a \<and> a \<le> 0xDF)" "\<not> (0xE0 \<le> a \<and> a \<le> 0xEF)" "0xF0 \<le> a \<and> a \<le> 0xF4"
      "bs = b # c # d # r" "cont c" "cont d" "cont b \<and> (a = 0xF0 \<longrightarrow> 0x90 \<le> b) \<and> (a = 0xF4 \<longrightarrow> b \<le> 0x8F)"
      "utf8_valid r"
proof (cases "a < 0x80")
  case True
  with assms show ?thesis
    by (intro that(1)) (simp_all only: utf8_valid.simps if_True)
next
  case one: False
  note v1 = assms [unfolded utf8_valid.simps if_not_P [OF one]]
  show ?thesis
  proof (cases "0xC2 \<le> a \<and> a \<le> 0xDF")
    case True
    from v1 [unfolded if_P [OF True]] show ?thesis
      by (cases bs) (auto intro: that(2) [OF one True])
  next
    case two: False
    note v2 = v1 [unfolded if_not_P [OF two]]
    show ?thesis
    proof (cases "0xE0 \<le> a \<and> a \<le> 0xEF")
      case True
      from v2 [unfolded if_P [OF True]] obtain b c r where "bs = b # c # r" "cont c"
        "cont b \<and> (a = 0xE0 \<longrightarrow> 0xA0 \<le> b) \<and> (a = 0xED \<longrightarrow> b \<le> 0x9F)" "utf8_valid r"
        by (simp only: list.case split: list.splits) blast
      then show ?thesis
        by (rule that(3) [OF one two True])
    next
      case three: False
      note v3 = v2 [unfolded if_not_P [OF three]]
      from v3 obtain b c d r where "0xF0 \<le> a \<and> a \<le> 0xF4" "bs = b # c # d # r" "cont c" "cont d"
        "cont b \<and> (a = 0xF0 \<longrightarrow> 0x90 \<le> b) \<and> (a = 0xF4 \<longrightarrow> b \<le> 0x8F)" "utf8_valid r"
        by (simp only: list.case split: list.splits if_splits) blast
      then show ?thesis
        by (rule that(4) [OF one two three])
    qed
  qed
qed

lemma utf8_lossy_valid: "utf8_valid bs \<Longrightarrow> utf8_lossy bs = bs"
proof (induction "length bs" arbitrary: bs rule: less_induct)
  case less
  show ?case
  proof (cases bs)
    case (Cons a r)
    from less.prems [unfolded Cons] show ?thesis
      by (cases rule: utf8_valid_cases; subst Cons; subst utf8_lossy.simps(2))
         (simp_all only: less.hyps Cons list.case if_True if_False simp_thms list.size, (rule if_not_P, blast)+)
  qed simp
qed

lemma bytes_of_str [simp]: "bytes_str (as_bytes s) = s"
proof -
  have "char_of (unat (of_char c :: u8)) = c" for c
  proof -
    have "unat (of_nat (of_char c) :: u8) = of_char c"
      using nat_of_char_less_256 [of c] by (simp only: unat_of_nat) simp
    then show ?thesis
      by (simp add: of_nat_of_char)
  qed
  then show ?thesis
    by (simp add: bytes_str_def as_bytes_def comp_def)
qed

lemma read_octet_str:
  assumes "rest = [] \<or> \<not> is_digit (hd rest)"
  shows "read_octet (nat_str (unat b) @ rest) = Some (b, rest)"
proof -
  have "takeWhile is_digit (nat_str (unat b) @ rest) = nat_str (unat b)"
    "dropWhile is_digit (nat_str (unat b) @ rest) = rest"
    using nat_str_digits [of "unat b"] assms
    by (cases rest; simp add: takeWhile_append list_all_iff dropWhile_append)+
  then show ?thesis
    by (simp add: read_octet_def)
qed

lemma read_ipv4_str:
  assumes "rest = [] \<or> \<not> is_digit (hd rest)"
  shows "read_ipv4 (ipv4_str ip @ rest) = Some (ip, rest)"
proof -
  have dot: "\<not> is_digit CHR ''.''"
    by (simp add: is_digit_def)
  show ?thesis
    unfolding read_ipv4_def ipv4_str_def octets_def u32_to_be_def
    by (simp add: read_octet_str dot assms read_sep_def read_char_def)
qed

lemma parse_ip_str: "parse_ip (ipv4_str ip) = Some (V4 ip)"
  using read_ipv4_str [of "[]" ip] by (simp add: parse_ip_def read_ip_def whole_def or_else_def)

end
