(* ===== verification/Dns_Proto.thy ===== *)
theory Dns_Proto
  imports Net Db_Config
begin

text \<open>
  What the servers use of the DNS protocol library: its record types, record data, questions and
  messages as far as the sources read or build them. The library itself is a parameter, the record
  of functions \<open>hickory\<close>, over the type of its names; what proofs rely on is named by
  \<open>prints_names\<close>, \<open>lowers_names\<close> and \<open>decodes\<close>. A lower-case name is represented by the name it
  wraps.
\<close>

section \<open>Messages\<close>

datatype wire_type =
    W_A | W_AAAA | W_CNAME | W_MX | W_NS | W_PTR | W_SOA | W_SRV | W_TXT | W_CAA
  | W_ANY | W_AXFR | W_Other u16

datatype 'n rdata =
    D_A ipv4
  | D_AAAA ipv6
  | D_CNAME 'n
  | D_MX u16 'n
  | D_NS 'n
  | D_PTR 'n
  | D_SOA 'n 'n u32 i32 i32 i32 u32
  | D_SRV u16 u16 u16 'n
  | D_TXT "u8 list list"
  | D_CAA bool string string
  | D_Other wire_type

fun rdata_type :: "'n rdata \<Rightarrow> wire_type" where
  "rdata_type (D_A _) = W_A"
| "rdata_type (D_AAAA _) = W_AAAA"
| "rdata_type (D_CNAME _) = W_CNAME"
| "rdata_type (D_MX _ _) = W_MX"
| "rdata_type (D_NS _) = W_NS"
| "rdata_type (D_PTR _) = W_PTR"
| "rdata_type (D_SOA _ _ _ _ _ _ _) = W_SOA"
| "rdata_type (D_SRV _ _ _ _) = W_SRV"
| "rdata_type (D_TXT _) = W_TXT"
| "rdata_type (D_CAA _ _ _) = W_CAA"
| "rdata_type (D_Other t) = t"

record 'n dns_rr =
  rr_name :: 'n
  rr_type :: wire_type
  rr_ttl :: u32
  rr_data :: "'n rdata option"

definition rr_from_rdata :: "'n \<Rightarrow> u32 \<Rightarrow> 'n rdata \<Rightarrow> 'n dns_rr" where
  "rr_from_rdata n ttl rd = \<lparr>rr_name = n, rr_type = rdata_type rd, rr_ttl = ttl, rr_data = Some rd\<rparr>"

record 'n question =
  q_name :: 'n
  q_type :: wire_type
  q_class :: u16

datatype dns_message_type = Msg_Query | Msg_Response

datatype op_code = Op_Query | Op_Notify | Op_Other u8

datatype response_code = NoError | FormErr | ServFail | NXDomain | NotImp | Refused | RC_Other u16

record 'n message =
  m_id :: u16
  m_type :: dns_message_type
  m_op_code :: op_code
  m_authoritative :: bool
  m_recursion_desired :: bool
  m_recursion_available :: bool
  m_response_code :: response_code
  m_queries :: "'n question list"
  m_answers :: "'n dns_rr list"
  m_name_servers :: "'n dns_rr list"

definition message_new :: "'n message" where
  "message_new = \<lparr>m_id = 0, m_type = Msg_Query, m_op_code = Op_Query, m_authoritative = False,
     m_recursion_desired = False, m_recursion_available = False, m_response_code = NoError,
     m_queries = [], m_answers = [], m_name_servers = []\<rparr>"

definition question_new :: "'n \<Rightarrow> wire_type \<Rightarrow> 'n question" where
  "question_new n t = \<lparr>q_name = n, q_type = t, q_class = 1\<rparr>"

section \<open>The library\<close>

record 'n hickory =
  name_from_str :: "string \<Rightarrow> 'n option"
  name_from_utf8 :: "string \<Rightarrow> 'n option"
  name_to_string :: "'n \<Rightarrow> string"
  lower_name :: "'n \<Rightarrow> 'n"
  caa_issue :: "'n option \<Rightarrow> string"
  type_to_u16 :: "wire_type \<Rightarrow> u16"
  msg_from_bytes :: "u8 list \<Rightarrow> 'n message option"
  msg_to_bytes :: "'n message \<Rightarrow> u8 list option"

text \<open>
  Names the library prints as they were written: dot-terminated, with labels of lower-case letters,
  digits, hyphens, underscores and asterisks.
\<close>

definition plain_char :: "char \<Rightarrow> bool" where
  "plain_char c \<longleftrightarrow> c \<in> set ''abcdefghijklmnopqrstuvwxyz0123456789-_*''"

definition plain_name :: "string \<Rightarrow> bool" where
  "plain_name s \<longleftrightarrow> list_all (\<lambda>l. l \<noteq> [] \<and> list_all plain_char l) (split_char CHR ''.'' s)"

definition wf_rr :: "'n dns_rr \<Rightarrow> bool" where
  "wf_rr r \<longleftrightarrow> (\<exists>rd. rr_data r = Some rd \<and> rr_type r = rdata_type rd)"

definition wf_message :: "'n message \<Rightarrow> bool" where
  "wf_message m \<longleftrightarrow> list_all wf_rr (m_answers m) \<and> list_all wf_rr (m_name_servers m)"

text \<open>What is relied on: printing of plain names, lower case, and decoding of what was encoded.\<close>

definition prints_names :: "'n hickory \<Rightarrow> bool" where
  "prints_names h \<longleftrightarrow>
     (\<forall>s n. plain_name s \<longrightarrow> name_from_str h (s @ ''.'') = Some n \<longrightarrow> name_to_string h n = s @ ''.'')"

definition lowers_names :: "'n hickory \<Rightarrow> bool" where
  "lowers_names h \<longleftrightarrow> (\<forall>n. name_to_string h (lower_name h n) = to_lowercase (name_to_string h n))"

definition decodes :: "'n hickory \<Rightarrow> bool" where
  "decodes h \<longleftrightarrow> (\<forall>m w. wf_message m \<longrightarrow> msg_to_bytes h m = Some w \<longrightarrow> msg_from_bytes h w = Some m)"

lemma prints_namesD: "prints_names h \<Longrightarrow> plain_name s \<Longrightarrow> name_from_str h (s @ ''.'') = Some n \<Longrightarrow> name_to_string h n = s @ ''.''"
  unfolding prints_names_def by blast

lemma lowers_namesD: "lowers_names h \<Longrightarrow> name_to_string h (lower_name h n) = to_lowercase (name_to_string h n)"
  unfolding lowers_names_def by blast

lemma decodesD: "decodes h \<Longrightarrow> wf_message m \<Longrightarrow> msg_to_bytes h m = Some w \<Longrightarrow> msg_from_bytes h w = Some m"
  unfolding decodes_def by blast

section \<open>Text of names\<close>

definition ensure_fqdn :: "string \<Rightarrow> string" where
  "ensure_fqdn name = (if ends_with name ''.'' then name else name @ ''.'')"

definition strip_trailing_dot :: "string \<Rightarrow> string" where
  "strip_trailing_dot s = (case strip_suffix s ''.'' of Some p \<Rightarrow> p | None \<Rightarrow> s)"

lemma plain_char_not [simp]: "\<not> plain_char CHR ''.''" "\<not> plain_char CHR ''@''"
  by (simp_all add: plain_char_def)

lemma plain_name_chars: "plain_name s \<Longrightarrow> c \<in> set s \<Longrightarrow> plain_char c \<or> c = CHR ''.''"
proof -
  have "set s \<subseteq> insert x (\<Union> (set ` set (split_char x s)))" for x
  proof (induction s)
    case (Cons y s)
    then show ?case
      by (cases "split_char x s") (auto split: if_splits)
  qed simp
  then show "plain_name s \<Longrightarrow> c \<in> set s \<Longrightarrow> plain_char c \<or> c = CHR ''.''"
    unfolding plain_name_def list_all_iff by blast
qed

lemma plain_name_last:
  assumes "plain_name s"
  shows "s \<noteq> []" "last s \<noteq> CHR ''.''"
proof -
  show "s \<noteq> []"
    using assms by (auto simp: plain_name_def)
  show "last s \<noteq> CHR ''.''"
  proof
    assume "last s = CHR ''.''"
    with \<open>s \<noteq> []\<close> have "s = butlast s @ CHR ''.'' # []"
      by (metis append_butlast_last_id)
    then have "split_char CHR ''.'' s = split_char CHR ''.'' (butlast s) @ [[]]"
      using split_char_append [of "CHR ''.''" "butlast s" "[]"] by simp
    with assms show False
      by (simp add: plain_name_def)
  qed
qed

lemma plain_name_join: "plain_name (a @ ''.'' @ b) \<longleftrightarrow> plain_name a \<and> plain_name b"
  using split_char_append [of "CHR ''.''" a b] by (simp add: plain_name_def)

lemma ensure_plain [simp]: "plain_name s \<Longrightarrow> ensure_fqdn s = s @ ''.''"
  using plain_name_last [of s] by (auto simp: ensure_fqdn_def ends_with_iff)

lemma trim_plain [simp]: "plain_name s \<Longrightarrow> trim_end_matches CHR ''.'' s = s"
  using plain_name_last [of s] by (simp add: trim_end_matches_idle)

lemma trim_dot [simp]: "plain_name s \<Longrightarrow> trim_end_matches CHR ''.'' (s @ ''.'') = s"
  using trim_plain [of s] by (simp add: trim_end_matches_def)

lemma strip_dot [simp]: "strip_trailing_dot (s @ ''.'') = s"
proof -
  have "strip_suffix (s @ ''.'') ''.'' = Some s"
    by (simp add: strip_suffix_Some)
  then show ?thesis
    by (simp add: strip_trailing_dot_def)
qed

lemma lowercase_plain: "plain_name s \<Longrightarrow> to_lowercase s = s"
proof -
  have "ascii_lower c = c" if "plain_char c \<or> c = CHR ''.''" for c
    using that by (auto simp: plain_char_def ascii_lower_def)
  then show "plain_name s \<Longrightarrow> to_lowercase s = s"
    using plain_name_chars by (simp add: to_lowercase_def map_idI)
qed

section \<open>An instance\<close>

text \<open>
  Names that are their text, and a codec that knows a fixed list of messages and sends a message as
  its index. It shows that what is relied on can hold.
\<close>

definition ex_hickory :: "string message list \<Rightarrow> string hickory" where
  "ex_hickory ms =
     \<lparr>name_from_str = Some, name_from_utf8 = Some, name_to_string = id, lower_name = to_lowercase,
      caa_issue = (\<lambda>n. case n of Some x \<Rightarrow> x | None \<Rightarrow> []), type_to_u16 = (\<lambda>_. 1),
      msg_from_bytes = (\<lambda>bs. case bs of [b] \<Rightarrow> nth_opt ms (unat b) | _ \<Rightarrow> None),
      msg_to_bytes = (\<lambda>m. map_option (\<lambda>i. [of_nat i]) (position (\<lambda>x. x = m) ms))\<rparr>"

lemma position_Some: "position P xs = Some i \<Longrightarrow> i < length xs \<and> P (xs ! i)"
  by (induction xs arbitrary: i) (auto split: if_splits)

lemma ex_hickory_laws:
  "prints_names (ex_hickory ms)" "lowers_names (ex_hickory ms)" "length ms \<le> 256 \<Longrightarrow> decodes (ex_hickory ms)"
proof -
  show "prints_names (ex_hickory ms)" "lowers_names (ex_hickory ms)"
    by (simp_all add: prints_names_def lowers_names_def ex_hickory_def)
  assume len: "length ms \<le> 256"
  have "unat (of_nat i :: u8) = i" if "i < 256" for i
    using that by (simp only: unat_of_nat) simp
  then show "decodes (ex_hickory ms)"
    using len by (auto simp: decodes_def ex_hickory_def nth_opt_def dest!: position_Some)
qed

end
