(* ===== verification/Auth_Zone.thy ===== *)
theory Auth_Zone
  imports Dns_Proto Db_Names
begin

text \<open>
  The authoritative view of the database, \<^verbatim>\<open>crates/microdns-auth/src/catalog.rs\<close> and
  \<^verbatim>\<open>zone.rs\<close>: records as the wire carries them and back, and the answers to a question.
  Names are read and printed by the protocol library.
\<close>

unbundle bit_operations_syntax

section \<open>Types and data\<close>

fun to_hickory_rtype :: "record_type \<Rightarrow> wire_type" where
  "to_hickory_rtype RT_A = W_A"
| "to_hickory_rtype RT_AAAA = W_AAAA"
| "to_hickory_rtype RT_CNAME = W_CNAME"
| "to_hickory_rtype RT_MX = W_MX"
| "to_hickory_rtype RT_NS = W_NS"
| "to_hickory_rtype RT_PTR = W_PTR"
| "to_hickory_rtype RT_SOA = W_SOA"
| "to_hickory_rtype RT_SRV = W_SRV"
| "to_hickory_rtype RT_TXT = W_TXT"
| "to_hickory_rtype RT_CAA = W_CAA"

fun from_hickory_rtype :: "wire_type \<Rightarrow> record_type option" where
  "from_hickory_rtype W_A = Some RT_A"
| "from_hickory_rtype W_AAAA = Some RT_AAAA"
| "from_hickory_rtype W_CNAME = Some RT_CNAME"
| "from_hickory_rtype W_MX = Some RT_MX"
| "from_hickory_rtype W_NS = Some RT_NS"
| "from_hickory_rtype W_PTR = Some RT_PTR"
| "from_hickory_rtype W_SOA = Some RT_SOA"
| "from_hickory_rtype W_SRV = Some RT_SRV"
| "from_hickory_rtype W_TXT = Some RT_TXT"
| "from_hickory_rtype W_CAA = Some RT_CAA"
| "from_hickory_rtype _ = None"

text \<open>The casts of the SOA timers between signed and unsigned keep the bits.\<close>

fun to_rdata :: "'n hickory \<Rightarrow> record_data \<Rightarrow> 'n rdata option" where
  "to_rdata h (RD_A a) = Some (D_A a)"
| "to_rdata h (RD_AAAA a) = Some (D_AAAA a)"
| "to_rdata h (RD_CNAME n) = map_option D_CNAME (name_from_str h (ensure_fqdn n))"
| "to_rdata h (RD_MX p x) = map_option (D_MX p) (name_from_str h (ensure_fqdn x))"
| "to_rdata h (RD_NS n) = map_option D_NS (name_from_str h (ensure_fqdn n))"
| "to_rdata h (RD_PTR n) = map_option D_PTR (name_from_str h (ensure_fqdn n))"
| "to_rdata h (RD_SOA s) =
     Option.bind (name_from_str h (ensure_fqdn (mname s))) (\<lambda>m.
     Option.bind (name_from_str h (ensure_fqdn (rname s))) (\<lambda>r.
     Some (D_SOA m r (serial s) (refresh s) (retry s) (expire s) (minimum s))))"
| "to_rdata h (RD_SRV s) =
     map_option (D_SRV (srv_priority s) (srv_weight s) (srv_port s)) (name_from_str h (ensure_fqdn (srv_target s)))"
| "to_rdata h (RD_TXT t) = Some (D_TXT [as_bytes t])"
| "to_rdata h (RD_CAA c) =
     Some (D_CAA (caa_flags c AND 0x80 \<noteq> 0) ''issue'' (caa_issue h (name_from_str h (caa_value c))))"

definition relative_name :: "string \<Rightarrow> string \<Rightarrow> string option" where
  "relative_name name_str zone_name =
     (let zone_fqdn = ensure_fqdn zone_name
      in if name_str = zone_fqdn \<or> trim_end_matches CHR ''.'' name_str = zone_name then Some ''@''
         else case strip_suffix name_str (''.'' @ zone_fqdn) of
                Some p \<Rightarrow> Some p
              | None \<Rightarrow> strip_suffix name_str (''.'' @ trim_end_matches CHR ''.'' zone_name @ ''.''))"

fun data_from_rdata :: "'n hickory \<Rightarrow> 'n rdata \<Rightarrow> record_data option" where
  "data_from_rdata h (D_A a) = Some (RD_A a)"
| "data_from_rdata h (D_AAAA a) = Some (RD_AAAA a)"
| "data_from_rdata h (D_CNAME n) = Some (RD_CNAME (strip_trailing_dot (name_to_string h n)))"
| "data_from_rdata h (D_MX p x) = Some (RD_MX p (strip_trailing_dot (name_to_string h x)))"
| "data_from_rdata h (D_NS n) = Some (RD_NS (strip_trailing_dot (name_to_string h n)))"
| "data_from_rdata h (D_PTR n) = Some (RD_PTR (strip_trailing_dot (name_to_string h n)))"
| "data_from_rdata h (D_SRV p w port n) =
     Some (RD_SRV \<lparr>srv_priority = p, srv_weight = w, srv_port = port, srv_target = strip_trailing_dot (name_to_string h n)\<rparr>)"
| "data_from_rdata h (D_TXT ts) = Some (RD_TXT (concat (map from_utf8_lossy ts)))"
| "data_from_rdata h (D_CAA crit t v) =
     Some (RD_CAA \<lparr>caa_flags = (if crit then 0x80 else 0), caa_tag = t, caa_value = v\<rparr>)"
| "data_from_rdata h (D_SOA _ _ _ _ _ _ _) = None"
| "data_from_rdata h (D_Other _) = None"

definition from_rdata :: "'n hickory \<Rightarrow> 'n rdata \<Rightarrow> 'n \<Rightarrow> string \<Rightarrow> (string \<times> record_data) option" where
  "from_rdata h rd name zone_name =
     Option.bind (relative_name (name_to_string h name) zone_name) (\<lambda>relative.
     map_option (Pair relative) (data_from_rdata h rd))"

definition build_soa_record :: "'n hickory \<Rightarrow> zone \<Rightarrow> 'n dns_rr option" where
  "build_soa_record h z =
     Option.bind (name_from_str h (ensure_fqdn (z_name z))) (\<lambda>n.
     Option.bind (to_rdata h (RD_SOA (z_soa z))) (\<lambda>rd.
     Some ((rr_from_rdata n (z_default_ttl z) rd)\<lparr>rr_type := W_SOA\<rparr>)))"

section \<open>Catalog\<close>

definition query_fqdn_of :: "'n hickory \<Rightarrow> 'n \<Rightarrow> string" where
  "query_fqdn_of h qname = trim_end_matches CHR ''.'' (name_to_string h qname)"

definition is_authoritative :: "'n hickory \<Rightarrow> db \<Rightarrow> 'n \<Rightarrow> bool" where
  "is_authoritative h d name \<longleftrightarrow> find_zone_for_fqdn d (query_fqdn_of h name) \<noteq> None"

definition zone_names :: "'n hickory \<Rightarrow> db \<Rightarrow> 'n list" where
  "zone_names h d =
     List.map_filter (\<lambda>z. map_option (lower_name h) (name_from_str h (ensure_fqdn (z_name z)))) (list_zones d)"

section \<open>Answers\<close>

text \<open>\<^verbatim>\<open>*\<close> in the question stands for any one label.\<close>

definition labels_match :: "string list \<Rightarrow> string list \<Rightarrow> bool" where
  "labels_match pat ls \<longleftrightarrow> length ls = length pat \<and> list_all (\<lambda>(p, l). p = ''*'' \<or> p = l) (zip pat ls)"

definition resolve_wildcard_query :: "'n hickory \<Rightarrow> db \<Rightarrow> string \<Rightarrow> record_type \<Rightarrow> 'n dns_rr list" where
  "resolve_wildcard_query h d fqdn rtype =
     (case find_zone_for_fqdn d fqdn of
        None \<Rightarrow> []
      | Some z \<Rightarrow>
          (let zone_name = trim_end_matches CHR ''.'' (z_name z)
           in case strip_suffix fqdn (''.'' @ zone_name) of
                None \<Rightarrow> []
              | Some pattern \<Rightarrow>
                  List.map_filter (\<lambda>r.
                    if \<not> r_enabled r \<or> rd_type (r_data r) \<noteq> rtype then None
                    else if \<not> labels_match (split_char CHR ''.'' pattern) (split_char CHR ''.'' (r_name r)) then None
                    else Option.bind (name_from_str h (r_name r @ ''.'' @ zone_name @ ''.'')) (\<lambda>n.
                         map_option (rr_from_rdata n (r_ttl r)) (to_rdata h (r_data r))))
                    (list_records d (z_id z))))"

definition answer_name :: "'n hickory \<Rightarrow> db \<Rightarrow> string \<Rightarrow> dns_record \<Rightarrow> 'n option" where
  "answer_name h d fqdn r =
     (if r_name r = ''@''
      then Option.bind (find_zone_for_fqdn d fqdn) (\<lambda>z. name_from_str h (ensure_fqdn (z_name z)))
      else if starts_with (r_name r) ''*'' then name_from_str h (ensure_fqdn fqdn)
      else Option.bind (find_zone_for_fqdn d fqdn) (\<lambda>z. name_from_str h (r_name r @ ''.'' @ z_name z @ ''.'')))"

definition answer_record :: "'n hickory \<Rightarrow> db \<Rightarrow> string \<Rightarrow> dns_record \<Rightarrow> 'n dns_rr option" where
  "answer_record h d fqdn r =
     Option.bind (answer_name h d fqdn r) (\<lambda>n. map_option (rr_from_rdata n (r_ttl r)) (to_rdata h (r_data r)))"

definition resolve_query :: "'n hickory \<Rightarrow> db \<Rightarrow> 'n \<Rightarrow> wire_type \<Rightarrow> 'n dns_rr list" where
  "resolve_query h d qname qtype =
     (let fqdn = query_fqdn_of h qname
      in if qtype = W_SOA
         then (case find_zone_for_fqdn d fqdn of
                 Some z \<Rightarrow> (case build_soa_record h z of Some soa \<Rightarrow> [soa] | None \<Rightarrow> [])
               | None \<Rightarrow> [])
         else case from_hickory_rtype qtype of
                None \<Rightarrow> []
              | Some rt \<Rightarrow>
                  if list_ex (\<lambda>l. l = ''*'') (split_char CHR ''.'' fqdn) then resolve_wildcard_query h d fqdn rt
                  else List.map_filter (answer_record h d fqdn) (query_fqdn d fqdn rt))"

definition get_authority_soa :: "'n hickory \<Rightarrow> db \<Rightarrow> 'n \<Rightarrow> 'n dns_rr option" where
  "get_authority_soa h d qname =
     Option.bind (find_zone_for_fqdn d (query_fqdn_of h qname)) (build_soa_record h)"

section \<open>Facts\<close>

lemma rtype_roundtrip [simp]: "from_hickory_rtype (to_hickory_rtype rt) = Some rt"
  by (cases rt) simp_all

lemma from_rtype_Some: "from_hickory_rtype t = Some rt \<longleftrightarrow> t = to_hickory_rtype rt"
  by (cases t; cases rt) simp_all

lemma rr_from_rdata_wf [simp]: "wf_rr (rr_from_rdata n ttl rd)"
  by (simp add: wf_rr_def rr_from_rdata_def)

lemma to_rdata_type: "to_rdata h rd = Some w \<Longrightarrow> rdata_type w = to_hickory_rtype (rd_type rd)"
  by (cases rd) (auto split: bind_splits)

lemma soa_record_wf:
  assumes "build_soa_record h z = Some r"
  shows "wf_rr r" "rr_type r = W_SOA" "rr_ttl r = z_default_ttl z"
  using assms to_rdata_type [of h "RD_SOA (z_soa z)"]
  by (auto simp: build_soa_record_def wf_rr_def rr_from_rdata_def split: bind_splits)

lemma answer_record_wf:
  assumes "answer_record h d fqdn r = Some a"
  shows "wf_rr a" "rr_type a = to_hickory_rtype (rd_type (r_data r))" "rr_ttl a = r_ttl r"
    "rr_data a = to_rdata h (r_data r)"
  using assms by (auto simp: answer_record_def to_rdata_type wf_rr_def rr_from_rdata_def split: bind_splits)

lemma first_hit_in: "r \<in> set (first_hit f ns) \<Longrightarrow> \<exists>n. r \<in> set (f n)"
  by (induction ns) (auto split: if_splits)

lemma query_fqdn_owned:
  assumes "r \<in> set (query_fqdn d fqdn rt)"
  shows "\<exists>z n. find_zone_for_fqdn d (trim_end_matches CHR ''.'' fqdn) = Some z \<and> r \<in> set (query_records d (z_id z) n rt)"
proof -
  let ?f = "trim_end_matches CHR ''.'' fqdn"
  obtain z where z: "most_specific_zone (list_zones d) ?f = Some z"
    using assms by (cases "most_specific_zone (list_zones d) ?f") (simp_all add: query_fqdn_def Let_def)
  have "\<exists>n. r \<in> set (query_records d (z_id z) n rt)"
  proof (cases "?f = trim_end_matches CHR ''.'' (z_name z)")
    case True
    with assms z show ?thesis
      by (auto simp: query_fqdn_def Let_def)
  next
    case False
    with assms z show ?thesis
      by (cases "strip_suffix ?f (''.'' @ trim_end_matches CHR ''.'' (z_name z))")
         (auto simp: query_fqdn_def Let_def wildcard_loop_labels dest: first_hit_in split: if_splits)
  qed
  with z show ?thesis
    by (auto simp: find_zone_for_fqdn_def)
qed

lemma find_zone_listed:
  assumes "find_zone_for_fqdn d fqdn = Some z"
  shows "z \<in> set (list_zones d)" "zone_matches (to_lowercase (trim_end_matches CHR ''.'' fqdn)) z"
  using most_specific_loop_Some [of "to_lowercase (trim_end_matches CHR ''.'' fqdn)" None "list_zones d" z] assms
  by (simp_all add: find_zone_for_fqdn_def most_specific_zone_def)

text \<open>The stored rows behind an answer.\<close>

definition backs :: "'n hickory \<Rightarrow> db \<Rightarrow> zone \<Rightarrow> wire_type \<Rightarrow> dns_record \<Rightarrow> 'n dns_rr \<Rightarrow> bool" where
  "backs h d z qtype r a \<longleftrightarrow> r \<in> s_rows (abs_db d) \<and> r_zone_id r = z_id z \<and> r_enabled r \<and>
     to_hickory_rtype (rd_type (r_data r)) = qtype \<and> rr_ttl a = r_ttl r \<and> rr_data a = to_rdata h (r_data r)"

lemma resolve_plain_backed:
  assumes "db_reachable d" "fqdn = query_fqdn_of h qname" "r \<in> set (query_fqdn d fqdn rt)"
    and "answer_record h d fqdn r = Some a"
  shows "\<exists>z. find_zone_for_fqdn d fqdn = Some z \<and> backs h d z (to_hickory_rtype rt) r a"
proof -
  have trim: "trim_end_matches CHR ''.'' fqdn = fqdn"
    by (simp add: assms(2) query_fqdn_of_def)
  obtain z n where z: "find_zone_for_fqdn d fqdn = Some z" "r \<in> set (query_records d (z_id z) n rt)"
    using query_fqdn_owned [OF assms(3)] trim by auto
  have "is_uuid (z_id z)"
    using list_zones_facts(2) [OF assms(1) find_zone_listed(1) [OF z(1)]] .
  then have "r \<in> rows d \<and> r_zone_id r = z_id z \<and> rd_type (r_data r) = rt \<and> r_enabled r"
    using query_records_iff [OF reachable_rec_inv [OF assms(1)]] z(2) by blast
  with z(1) answer_record_wf [OF assms(4)] show ?thesis
    by (auto simp: backs_def abs_db_def)
qed

lemma resolve_wildcard_backed:
  assumes "db_reachable d" "a \<in> set (resolve_wildcard_query h d fqdn rt)"
  shows "wf_rr a \<and> rr_type a = to_hickory_rtype rt \<and>
    (\<exists>z r. find_zone_for_fqdn d fqdn = Some z \<and> backs h d z (to_hickory_rtype rt) r a)"
proof -
  obtain z where z: "find_zone_for_fqdn d fqdn = Some z"
    using assms(2) by (cases "find_zone_for_fqdn d fqdn") (simp_all add: resolve_wildcard_query_def)
  obtain r n w where r: "r \<in> set (list_records d (z_id z))"
    "r_enabled r" "rd_type (r_data r) = rt" "to_rdata h (r_data r) = Some w" "a = rr_from_rdata n (r_ttl r) w"
    using assms(2) z
    by (cases "strip_suffix fqdn (''.'' @ trim_end_matches CHR ''.'' (z_name z))")
       (auto simp: resolve_wildcard_query_def Let_def split: if_splits bind_splits)
  have "is_uuid (z_id z)"
    using list_zones_facts(2) [OF assms(1) find_zone_listed(1) [OF z]] .
  then have "r \<in> rows d \<and> r_zone_id r = z_id z"
    using list_records_iff [OF reachable_rec_inv [OF assms(1)]] r(1) by blast
  with z r to_rdata_type [OF r(4)] show ?thesis
    by (auto simp: backs_def abs_db_def rr_from_rdata_def wf_rr_def)
qed

section \<open>Properties\<close>



end
