(* ===== verification/Zone_Transfer.thy ===== *)
theory Zone_Transfer
  imports Auth_Zone
begin

text \<open>
  Zone transfer, \<^verbatim>\<open>crates/microdns-auth/src/transfer.rs\<close>: the records a primary sends for a zone,
  and a secondary's pull. What the primary sends back is a stream that gives the byte at each
  position, or nothing from where the connection ends; it may be endless, and the pull loop is a
  partial function. The request identifier, the clock and the fresh UUIDs are arguments.
\<close>

section \<open>Outbound\<close>

definition axfr_record :: "'n hickory \<Rightarrow> zone \<Rightarrow> dns_record \<Rightarrow> 'n dns_rr option" where
  "axfr_record h z r =
     (let zone_fqdn = z_name z @ ''.'';
          fqdn = (if r_name r = ''@'' then zone_fqdn else r_name r @ ''.'' @ zone_fqdn)
      in Option.bind (name_from_str h fqdn) (\<lambda>n.
         map_option (rr_from_rdata n (r_ttl r)) (to_rdata h (r_data r))))"

definition build_axfr_records :: "'n hickory \<Rightarrow> db \<Rightarrow> string \<Rightarrow> 'n dns_rr list option" where
  "build_axfr_records h d name =
     (let zone_name = trim_end_matches CHR ''.'' name
      in Option.bind (find_zone_for_fqdn d zone_name) (\<lambda>z.
         if trim_end_matches CHR ''.'' (z_name z) \<noteq> zone_name then None
         else Option.bind (build_soa_record h z) (\<lambda>soa.
              Some (soa # List.map_filter (axfr_record h z) (list_records d (z_id z)) @ [soa]))))"

section \<open>Streams\<close>

type_synonym stream = "nat \<Rightarrow> u8 option"

definition stream_of :: "u8 list \<Rightarrow> stream" where
  "stream_of bs = nth_opt bs"

definition read_exact :: "stream \<Rightarrow> nat \<Rightarrow> nat \<Rightarrow> u8 list option" where
  "read_exact inp pos n = those (map inp [pos..<pos + n])"

definition read_u16 :: "stream \<Rightarrow> nat \<Rightarrow> u16 option" where
  "read_u16 inp pos = (case read_exact inp pos 2 of Some [a, b] \<Rightarrow> Some (u16_from_be a b) | _ \<Rightarrow> None)"

definition frame :: "u8 list \<Rightarrow> u8 list" where
  "frame wire = u16_to_be (of_nat (length wire)) @ wire"

section \<open>Inbound\<close>

definition MAX_AXFR_RECORDS :: int where "MAX_AXFR_RECORDS = 100000"
definition MAX_AXFR_BYTES :: int where "MAX_AXFR_BYTES = 100 * 1024 * 1024"

record pull_state =
  pl_pos :: nat
  pl_soa_count :: nat
  pl_parsed :: "(string \<times> record_data \<times> u32) list"
  pl_soa :: "soa_data option"
  pl_default_ttl :: u32
  pl_total_bytes :: int

definition pull_start :: pull_state where
  "pull_start = \<lparr>pl_pos = 0, pl_soa_count = 0, pl_parsed = [], pl_soa = None, pl_default_ttl = 300, pl_total_bytes = 0\<rparr>"

definition saw_soa :: "'n hickory \<Rightarrow> u32 \<Rightarrow> 'n \<Rightarrow> 'n \<Rightarrow> u32 \<Rightarrow> i32 \<Rightarrow> i32 \<Rightarrow> i32 \<Rightarrow> u32 \<Rightarrow> pull_state \<Rightarrow> pull_state" where
  "saw_soa h ttl m r ser ref ret ex mini st =
     (let st = st\<lparr>pl_soa_count := pl_soa_count st + 1\<rparr>
      in if pl_soa st = None
         then st\<lparr>pl_default_ttl := ttl,
                 pl_soa := Some \<lparr>mname = trim_end_matches CHR ''.'' (name_to_string h m),
                   rname = trim_end_matches CHR ''.'' (name_to_string h r),
                   serial = ser, refresh = ref, retry = ret, expire = ex, minimum = mini\<rparr>\<rparr>
         else st)"

fun take_answers :: "'n hickory \<Rightarrow> string \<Rightarrow> 'n dns_rr list \<Rightarrow> pull_state \<Rightarrow> string + pull_state" where
  "take_answers h zone_name [] st = Inr st"
| "take_answers h zone_name (a # as) st =
     (case rr_data a of
        None \<Rightarrow> take_answers h zone_name as st
      | Some (D_SOA m r ser ref ret ex mini) \<Rightarrow>
          (let st = saw_soa h (rr_ttl a) m r ser ref ret ex mini st
           in if pl_soa_count st \<ge> 2 then Inr st else take_answers h zone_name as st)
      | Some rd \<Rightarrow>
          if int (length (pl_parsed st)) \<ge> MAX_AXFR_RECORDS then Inl ''AXFR exceeded max record count''
          else case from_rdata h rd (rr_name a) zone_name of
                 Some (rel, data) \<Rightarrow>
                   take_answers h zone_name as (st\<lparr>pl_parsed := pl_parsed st @ [(rel, data, rr_ttl a)]\<rparr>)
               | None \<Rightarrow> take_answers h zone_name as st)"

text \<open>One turn of the read loop: finished with a result, or to be continued.\<close>

datatype turn = Done "string + pull_state" | Again pull_state

definition pull_turn :: "'n hickory \<Rightarrow> string \<Rightarrow> stream \<Rightarrow> pull_state \<Rightarrow> turn" where
  "pull_turn h zone_name inp st =
     (case read_u16 inp (pl_pos st) of
        None \<Rightarrow> Done (if pl_soa_count st \<ge> 2 then Inr st else Inl ''read error during AXFR'')
      | Some len \<Rightarrow>
          (let msg_len = unat len
           in if msg_len = 0 then Done (Inr st)
              else if pl_total_bytes st + int msg_len > MAX_AXFR_BYTES then Done (Inl ''AXFR exceeded max size'')
              else case read_exact inp (pl_pos st + 2) msg_len of
                     None \<Rightarrow> Done (Inl ''read error during AXFR'')
                   | Some buf \<Rightarrow>
                       (case msg_from_bytes h buf of
                          None \<Rightarrow> Done (Inl ''malformed message'')
                        | Some resp \<Rightarrow>
                            if m_response_code resp \<noteq> NoError then Done (Inl ''AXFR error'')
                            else (case take_answers h zone_name (m_answers resp)
                                         (st\<lparr>pl_pos := pl_pos st + 2 + msg_len,
                                             pl_total_bytes := pl_total_bytes st + int msg_len\<rparr>) of
                                    Inl e \<Rightarrow> Done (Inl e)
                                  | Inr st \<Rightarrow> if pl_soa_count st \<ge> 2 then Done (Inr st) else Again st))))"

partial_function (option) pull_loop :: "'n hickory \<Rightarrow> string \<Rightarrow> stream \<Rightarrow> pull_state \<Rightarrow> (string + pull_state) option" where
  "pull_loop h zone_name inp st =
     (case pull_turn h zone_name inp st of Done r \<Rightarrow> Some r | Again st \<Rightarrow> pull_loop h zone_name inp st)"

definition axfr_query :: "u16 \<Rightarrow> 'n \<Rightarrow> 'n message" where
  "axfr_query rand_id n =
     message_new\<lparr>m_id := rand_id, m_type := Msg_Query, m_op_code := Op_Query, m_recursion_desired := False,
                 m_queries := [question_new n W_AXFR]\<rparr>"

record transfer_result =
  tr_zone_name :: string
  tr_records_imported :: nat
  tr_serial :: u32

definition pulled_zone :: "uuid \<Rightarrow> instant \<Rightarrow> string \<Rightarrow> soa_data \<Rightarrow> u32 \<Rightarrow> zone option \<Rightarrow> zone" where
  "pulled_zone zid now zone_name soa ttl existing =
     \<lparr>z_id = (case existing of Some z \<Rightarrow> z_id z | None \<Rightarrow> zid), z_name = zone_name, z_soa = soa, z_default_ttl = ttl,
      z_created_at = (case existing of Some z \<Rightarrow> z_created_at z | None \<Rightarrow> now), z_updated_at = now\<rparr>"

definition pulled_record :: "uuid \<Rightarrow> instant \<Rightarrow> uuid \<Rightarrow> string \<times> record_data \<times> u32 \<Rightarrow> dns_record" where
  "pulled_record zid now rid p =
     (let (name, data, ttl) = p
      in \<lparr>r_id = rid, r_zone_id = zid, r_name = name, r_ttl = ttl, r_data = data, r_enabled = True,
          r_health_check = None, r_source = Manual, r_origin = None, r_created_at = now, r_updated_at = now\<rparr>)"

definition import_zone ::
  "(nat \<Rightarrow> uuid) \<Rightarrow> instant \<Rightarrow> string \<Rightarrow> soa_data \<Rightarrow> pull_state \<Rightarrow> transfer_result db_txn" where
  "import_zone ids now zone_name soa st =
     bindE (getE (\<lambda>d. get_zone_by_name d zone_name)) (\<lambda>existing.
       let z = pulled_zone (ids 0) now zone_name soa (pl_default_ttl st) existing
       in thenE (upsert_zone z)
          (thenE (replace_zone_records (z_id z)
                    (map (\<lambda>(i, p). pulled_record (z_id z) now (ids (Suc i)) p) (enumerate 0 (pl_parsed st))))
            (returnE \<lparr>tr_zone_name = zone_name, tr_records_imported = length (pl_parsed st), tr_serial = serial soa\<rparr>)))"

text \<open>
  \<open>peer\<close> answers the bytes that are sent to it with a stream, or cannot be reached. Errors of
  the database are texts here.
\<close>

definition axfr_pull ::
  "'n hickory \<Rightarrow> u16 \<Rightarrow> (nat \<Rightarrow> uuid) \<Rightarrow> instant \<Rightarrow> (u8 list \<Rightarrow> stream option) \<Rightarrow> string \<Rightarrow> db \<Rightarrow>
   ((string + transfer_result) \<times> db) option" where
  "axfr_pull h rand_id ids now peer name d =
     (let zone_name = trim_end_matches CHR ''.'' name
      in case Option.bind (name_from_str h (zone_name @ ''.'')) (\<lambda>n. msg_to_bytes h (axfr_query rand_id n)) of
           None \<Rightarrow> Some (Inl ''bad zone name'', d)
         | Some wire \<Rightarrow>
             (case peer (frame wire) of
                None \<Rightarrow> Some (Inl ''connection failed'', d)
              | Some inp \<Rightarrow>
                  (case pull_loop h zone_name inp pull_start of
                     None \<Rightarrow> None
                   | Some (Inl e) \<Rightarrow> Some (Inl e, d)
                   | Some (Inr st) \<Rightarrow>
                       (case pl_soa st of
                          None \<Rightarrow> Some (Inl ''no SOA in AXFR response'', d)
                        | Some soa \<Rightarrow>
                            (case import_zone ids now zone_name soa st d of
                               (Inr res, d') \<Rightarrow> Some (Inr res, d')
                             | (Inl e, d') \<Rightarrow> Some (Inl ''database error'', d'))))))"

section \<open>Facts\<close>

subsection \<open>The loop ends\<close>

definition is_soa :: "'n rdata \<Rightarrow> bool" where
  "is_soa rd \<longleftrightarrow> (\<exists>m r ser ref ret ex mini. rd = D_SOA m r ser ref ret ex mini)"

lemma take_answers_data:
  assumes "rr_data a = Some rd" "\<not> is_soa rd"
  shows "take_answers h zn (a # as) st =
    (if int (length (pl_parsed st)) \<ge> MAX_AXFR_RECORDS then Inl ''AXFR exceeded max record count''
     else case from_rdata h rd (rr_name a) zn of
            Some (rel, data) \<Rightarrow> take_answers h zn as (st\<lparr>pl_parsed := pl_parsed st @ [(rel, data, rr_ttl a)]\<rparr>)
          | None \<Rightarrow> take_answers h zn as st)"
  using assms by (cases rd) (simp_all add: is_soa_def)

lemma take_answers_soa:
  assumes "rr_data a = Some (D_SOA m r ser ref ret ex mini)"
  shows "take_answers h zn (a # as) st =
    (let st = saw_soa h (rr_ttl a) m r ser ref ret ex mini st
     in if pl_soa_count st \<ge> 2 then Inr st else take_answers h zn as st)"
  using assms by simp

lemma saw_soa_fields [simp]:
  "pl_pos (saw_soa h ttl m r ser ref ret ex mini st) = pl_pos st"
  "pl_total_bytes (saw_soa h ttl m r ser ref ret ex mini st) = pl_total_bytes st"
  "pl_parsed (saw_soa h ttl m r ser ref ret ex mini st) = pl_parsed st"
  "pl_soa_count (saw_soa h ttl m r ser ref ret ex mini st) = pl_soa_count st + 1"
  by (simp_all add: saw_soa_def Let_def)

declare take_answers.simps(2) [simp del]

lemma answer_cases:
  obtains "rr_data a = None" | rd where "rr_data a = Some rd" "\<not> is_soa rd"
  | m r ser ref ret ex mini where "rr_data a = Some (D_SOA m r ser ref ret ex mini)"
proof (cases "rr_data a")
  case (Some rd)
  with that show ?thesis
    unfolding is_soa_def by blast
qed (use that in blast)

lemma take_answers_frame:
  "take_answers h zn as st = Inr st' \<Longrightarrow> pl_pos st' = pl_pos st \<and> pl_total_bytes st' = pl_total_bytes st"
proof (induction as arbitrary: st)
  case (Cons a as)
  show ?case
  proof (cases a rule: answer_cases)
    case 1
    with Cons show ?thesis
      by (simp add: take_answers.simps(2))
  next
    case 2
    show ?thesis
      using Cons.prems unfolding take_answers_data [OF 2]
      by (auto split: if_splits option.splits dest: Cons.IH)
  next
    case 3
    show ?thesis
      using Cons.prems unfolding take_answers_soa [OF 3]
      by (auto simp: Let_def split: if_splits dest: Cons.IH)
  qed
qed simp

lemma pull_turn_grows:
  assumes "pull_turn h zn inp st = Again st'"
  shows "pl_total_bytes st < pl_total_bytes st'" "pl_total_bytes st' \<le> MAX_AXFR_BYTES"
proof -
  have pos: "0 < unat w \<Longrightarrow> 0 < uint w" for w :: u16
    using of_nat_0_less_iff [where 'a = int, of "unat w"] by (simp del: of_nat_0_less_iff)
  show "pl_total_bytes st < pl_total_bytes st'" "pl_total_bytes st' \<le> MAX_AXFR_BYTES"
    using assms
    by (auto simp: pull_turn_def Let_def split: option.splits if_splits sum.splits dest!: take_answers_frame intro: pos)
qed

lemma pull_loop_returns: "pull_loop h zn inp st \<noteq> None"
proof (induction "nat (MAX_AXFR_BYTES - pl_total_bytes st)" arbitrary: st rule: less_induct)
  case less
  show ?case
  proof (cases "pull_turn h zn inp st")
    case (Done r)
    then show ?thesis
      by (simp add: pull_loop.simps [of h zn inp st])
  next
    case (Again st')
    have "nat (MAX_AXFR_BYTES - pl_total_bytes st') < nat (MAX_AXFR_BYTES - pl_total_bytes st)"
      using pull_turn_grows [OF Again] by linarith
    from less.hyps [OF this] Again show ?thesis
      by (simp add: pull_loop.simps [of h zn inp st])
  qed
qed

subsection \<open>Reading frames\<close>

lemma read_exact_stream:
  assumes "bs = pre @ w @ post"
  shows "read_exact (stream_of bs) (length pre) (length w) = Some w"
proof -
  have "map (stream_of bs) [length pre..<length pre + length w] = map Some w"
    using assms by (intro nth_equalityI) (simp_all add: stream_of_def nth_opt_def nth_append)
  moreover have "those (map Some w) = Some w"
    by (induction w) simp_all
  ultimately show ?thesis
    by (simp add: read_exact_def)
qed

lemma unat_length: "length w < 65536 \<Longrightarrow> unat (of_nat (length w) :: u16) = length w"
  by (simp only: unat_of_nat) simp

lemma read_frame:
  assumes "bs = pre @ frame w @ post" "length w < 65536"
  shows "read_u16 (stream_of bs) (length pre) = Some (of_nat (length w))"
    "read_exact (stream_of bs) (length pre + 2) (length w) = Some w"
proof -
  let ?n = "of_nat (length w) :: u16"
  have "read_exact (stream_of bs) (length pre) 2 = Some (u16_to_be ?n)"
    using read_exact_stream [of bs pre "u16_to_be ?n" "w @ post"] assms(1) by (simp add: frame_def)
  then show "read_u16 (stream_of bs) (length pre) = Some ?n"
    by (simp add: read_u16_def u16_to_be_def)
  show "read_exact (stream_of bs) (length pre + 2) (length w) = Some w"
    using read_exact_stream [of bs "pre @ u16_to_be ?n" w post] assms(1) by (simp add: frame_def)
qed

subsection \<open>Answers of several messages\<close>

lemma take_answers_append:
  assumes "pl_soa_count st < 2"
  shows "take_answers h zn (as @ bs) st =
    (case take_answers h zn as st of
       Inl e \<Rightarrow> Inl e
     | Inr st' \<Rightarrow> if pl_soa_count st' \<ge> 2 then Inr st' else take_answers h zn bs st')"
  using assms
proof (induction as arbitrary: st)
  case (Cons a as)
  show ?case
  proof (cases a rule: answer_cases)
    case 1
    with Cons show ?thesis
      by (simp add: take_answers.simps(2))
  next
    case 2
    show ?thesis
      using Cons.IH Cons.prems
      unfolding append_Cons take_answers_data [OF 2] by (auto split: option.split prod.split)
  next
    case 3
    show ?thesis
      using Cons.IH unfolding append_Cons take_answers_soa [OF 3] Let_def by auto
  qed
qed simp

definition at_pos :: "nat \<Rightarrow> int \<Rightarrow> pull_state \<Rightarrow> pull_state" where
  "at_pos p n st = st\<lparr>pl_pos := p, pl_total_bytes := n\<rparr>"

lemma at_pos_fields [simp]:
  "pl_pos (at_pos p n st) = p" "pl_total_bytes (at_pos p n st) = n" "pl_parsed (at_pos p n st) = pl_parsed st"
  "pl_soa_count (at_pos p n st) = pl_soa_count st" "pl_soa (at_pos p n st) = pl_soa st"
  "pl_default_ttl (at_pos p n st) = pl_default_ttl st"
  "at_pos p n (at_pos p' n' st) = at_pos p n st"
  by (simp_all add: at_pos_def)

lemma saw_soa_at_pos: "saw_soa h ttl m r ser ref ret ex mini (at_pos p n st) = at_pos p n (saw_soa h ttl m r ser ref ret ex mini st)"
  by (simp add: saw_soa_def at_pos_def Let_def)

lemma take_answers_at_pos:
  "take_answers h zn as (at_pos p n st) = map_sum id (at_pos p n) (take_answers h zn as st)"
proof (induction as arbitrary: st)
  case (Cons a as)
  have parsed: "at_pos p n st\<lparr>pl_parsed := xs\<rparr> = at_pos p n (st\<lparr>pl_parsed := xs\<rparr>)" for xs st
    by (simp add: at_pos_def)
  show ?case
  proof (cases a rule: answer_cases)
    case 1
    with Cons show ?thesis
      by (simp add: take_answers.simps(2))
  next
    case 2
    show ?thesis
      unfolding take_answers_data [OF 2] by (auto simp: Cons.IH parsed split: option.split)
  next
    case 3
    show ?thesis
      unfolding take_answers_soa [OF 3] Let_def by (auto simp: Cons.IH saw_soa_at_pos)
  qed
qed simp

text \<open>The loop reads the messages of a stream as one list of answers.\<close>

lemma pull_frames:
  assumes "decodes h" "list_all2 (\<lambda>m w. msg_to_bytes h m = Some w \<and> w \<noteq> [] \<and> length w < 65536) ms ws"
    and "\<forall>m \<in> set ms. wf_message m \<and> m_response_code m = NoError"
    and "take_answers h zn (concat (map m_answers ms)) st = Inr st'" "pl_soa_count st < 2" "pl_soa_count st' \<ge> 2"
    and "pl_total_bytes st + int (length (concat ws)) \<le> MAX_AXFR_BYTES" "pl_pos st = length pre"
    and "bs = pre @ concat (map frame ws) @ post"
  shows "\<exists>p n. pull_loop h zn (stream_of bs) st = Some (Inr (at_pos p n st'))"
  using assms(2-)
proof (induction ms ws arbitrary: st st' pre rule: list_all2_induct)
  case Nil
  then show ?case
    by simp
next
  case (Cons m ms w ws)
  define st1 where "st1 = at_pos (pl_pos st + 2 + length w) (pl_total_bytes st + int (length w)) st"
  have m: "msg_from_bytes h w = Some m"
    using decodesD [OF assms(1), of m w] Cons by simp
  have bs: "bs = pre @ frame w @ concat (map frame ws) @ post"
    using Cons.prems by simp
  have len: "length w < 65536" "unat (of_nat (length w) :: u16) = length w" "length w \<noteq> 0"
    using Cons.hyps unat_length by auto
  have turn: "pull_turn h zn (stream_of bs) st =
      (case take_answers h zn (m_answers m) st1 of
         Inl e \<Rightarrow> Done (Inl e)
       | Inr st \<Rightarrow> if pl_soa_count st \<ge> 2 then Done (Inr st) else Again st)"
    using read_frame [OF bs len(1)] Cons.prems m len(2,3)
    by (simp add: pull_turn_def Let_def st1_def at_pos_def)
  show ?case
  proof (cases "take_answers h zn (m_answers m) st")
    case (Inl e)
    with Cons.prems(2,3) show ?thesis
      by (simp add: take_answers_append)
  next
    case (Inr st2)
    note step = turn [unfolded st1_def take_answers_at_pos Inr]
    show ?thesis
    proof (cases "pl_soa_count st2 \<ge> 2")
      case True
      with Inr Cons.prems(2,3) have "st2 = st'"
        by (simp add: take_answers_append)
      with True step show ?thesis
        by (auto simp: pull_loop.simps [of h zn "stream_of bs" st])
    next
      case False
      define st3 where "st3 = at_pos (pl_pos st + 2 + length w) (pl_total_bytes st + int (length w)) st2"
      have loop: "pull_loop h zn (stream_of bs) st = pull_loop h zn (stream_of bs) st3"
        using False step by (simp add: pull_loop.simps [of h zn "stream_of bs" st] st3_def)
      have "take_answers h zn (concat (map m_answers ms)) st2 = Inr st'"
        using False Inr Cons.prems(2,3) by (simp add: take_answers_append)
      then have "take_answers h zn (concat (map m_answers ms)) st3 =
          Inr (at_pos (pl_pos st + 2 + length w) (pl_total_bytes st + int (length w)) st')"
        by (simp add: st3_def take_answers_at_pos)
      from Cons.IH [OF _ this, of "pre @ frame w"] show ?thesis
        unfolding loop using False Cons.prems by (auto simp: st3_def frame_def)
    qed
  qed
qed

section \<open>Properties\<close>



end
