(* ===== verification/Transfer_Acl.thy ===== *)
theory Transfer_Acl
  imports Net Db_Config
begin

text \<open>
  Zone-transfer settings: the access list of \<^verbatim>\<open>crates/microdns-auth/src/server.rs\<close>
  (\<^verbatim>\<open>IpNet\<close>), the parsed settings of \<^verbatim>\<open>runtime.rs\<close>, the notifications accepted by
  \<^verbatim>\<open>secondary.rs\<close>, and the handlers that store them, \<^verbatim>\<open>microdns-api/src/rest/zone_transfer.rs\<close>.
  The JSON text of a configuration is a parameter of the handlers.
\<close>

unbundle bit_operations_syntax

section \<open>Address blocks\<close>

record ip_net =
  net_addr :: ip_addr
  net_prefix :: u8

fun max_prefix :: "ip_addr \<Rightarrow> nat" where
  "max_prefix (V4 _) = 32"
| "max_prefix (V6 _) = 128"

definition net_parse :: "string \<Rightarrow> ip_net option" where
  "net_parse text =
     (let s = trim text;
          (addr_part, prefix_part) = (case split_once CHR ''/'' s of Some (a, p) \<Rightarrow> (a, Some p) | None \<Rightarrow> (s, None))
      in Option.bind (parse_ip addr_part) (\<lambda>addr.
         Option.bind (case prefix_part of Some p \<Rightarrow> parse_uint (2 ^ 8) p | None \<Rightarrow> Some (max_prefix addr)) (\<lambda>prefix.
         if prefix > max_prefix addr then None
         else Some \<lparr>net_addr = addr, net_prefix = of_nat prefix\<rparr>)))"

definition net_mask :: "nat \<Rightarrow> u8 \<Rightarrow> 'a::len word" where
  "net_mask bits p = (if p = 0 then 0 else push_bit (bits - unat p) (- 1))"

fun contains_v4 :: "ip_net \<Rightarrow> ipv4 \<Rightarrow> bool" where
  "contains_v4 n other =
     (case net_addr n of
        V4 net \<Rightarrow> (let mask = net_mask 32 (net_prefix n) in net AND mask = other AND mask)
      | V6 _ \<Rightarrow> False)"

fun net_contains :: "ip_net \<Rightarrow> ip_addr \<Rightarrow> bool" where
  "net_contains n (V4 other) = contains_v4 n other"
| "net_contains n (V6 other) =
     (case net_addr n of
        V6 net \<Rightarrow> (let mask = net_mask 128 (net_prefix n) in net AND mask = other AND mask)
      | V4 _ \<Rightarrow> (case to_ipv4_mapped other of Some v4 \<Rightarrow> contains_v4 n v4 | None \<Rightarrow> False))"

definition transfer_allowed :: "socket_addr \<Rightarrow> ip_net list \<Rightarrow> bool" where
  "transfer_allowed peer allow = list_ex (\<lambda>n. net_contains n (sock_ip peer)) allow"

section \<open>Settings\<close>

record secondary_zone_config =
  szc_zone :: string
  szc_primary :: string
  szc_refresh_secs :: u64

record zone_transfer_config =
  zt_allow_transfer :: "string list"
  zt_notify :: "string list"
  zt_secondary :: "secondary_zone_config list"

definition default_allow_transfer :: "string list" where
  "default_allow_transfer = [''10.0.0.0/8'', ''172.16.0.0/12'', ''192.168.0.0/16'', ''127.0.0.0/8'']"

record secondary_zone =
  sz_zone :: string
  sz_primary :: socket_addr
  sz_refresh :: instant

definition parse_addr :: "string \<Rightarrow> socket_addr option" where
  "parse_addr target =
     (let t = trim target in or_else (parse_socket t) (map_option (\<lambda>ip. sock_new ip 53) (parse_ip t)))"

definition secondary_parse :: "string \<Rightarrow> string \<Rightarrow> u64 \<Rightarrow> secondary_zone option" where
  "secondary_parse zone primary refresh_secs =
     Option.bind (parse_addr primary) (\<lambda>addr.
       let z = to_lowercase (trim_end_matches CHR ''.'' (trim zone))
       in if z = [] then None
          else Some \<lparr>sz_zone = z, sz_primary = addr, sz_refresh = seconds (uint (max refresh_secs 30))\<rparr>)"

record transfer_settings =
  ts_allow_transfer :: "ip_net list"
  ts_notify :: "socket_addr list"
  ts_secondaries :: "secondary_zone list"

definition settings_default :: transfer_settings where
  "settings_default = \<lparr>ts_allow_transfer = [], ts_notify = [], ts_secondaries = []\<rparr>"

definition settings_parse :: "zone_transfer_config \<Rightarrow> transfer_settings" where
  "settings_parse config =
     \<lparr>ts_allow_transfer = List.map_filter net_parse (zt_allow_transfer config),
      ts_notify = List.map_filter parse_addr (zt_notify config),
      ts_secondaries = List.map_filter (\<lambda>s. secondary_parse (szc_zone s) (szc_primary s) (szc_refresh_secs s))
        (zt_secondary config)\<rparr>"

definition settings_summary :: "transfer_settings \<Rightarrow> string" where
  "settings_summary s =
     (if ts_allow_transfer s = [] then ''transfers denied to all''
      else ''transfers allowed from '' @ nat_str (length (ts_allow_transfer s)) @ '' CIDR(s)'') @
     '', '' @ nat_str (length (ts_notify s)) @ '' notify target(s), '' @ nat_str (length (ts_secondaries s)) @
     '' mirrored zone(s)''"

definition same_secondaries :: "secondary_zone list \<Rightarrow> secondary_zone list \<Rightarrow> bool" where
  "same_secondaries a b \<longleftrightarrow> length a = length b \<and>
     list_all (\<lambda>(x, y). sz_zone x = sz_zone y \<and> sz_primary x = sz_primary y \<and> sz_refresh x = sz_refresh y) (zip a b)"

definition settings_replace :: "zone_transfer_config \<Rightarrow> transfer_settings \<Rightarrow> bool \<times> transfer_settings" where
  "settings_replace config current =
     (let nxt = settings_parse config
      in (settings_summary current \<noteq> settings_summary nxt
          \<or> length (ts_secondaries current) \<noteq> length (ts_secondaries nxt)
          \<or> \<not> same_secondaries (ts_secondaries current) (ts_secondaries nxt)
          \<or> ts_notify current \<noteq> ts_notify nxt
          \<or> ts_allow_transfer current \<noteq> ts_allow_transfer nxt, nxt))"

definition primary_for :: "transfer_settings \<Rightarrow> string \<Rightarrow> ip_addr option" where
  "primary_for s zone =
     (let z = to_lowercase (trim_end_matches CHR ''.'' zone)
      in map_option (\<lambda>x. sock_ip (sz_primary x)) (List.find (\<lambda>x. sz_zone x = z) (ts_secondaries s)))"

section \<open>Accepting notifications\<close>

record notify_acceptor =
  na_state :: transfer_settings
  na_queue :: "string list"

fun normalize_ip :: "ip_addr \<Rightarrow> ip_addr" where
  "normalize_ip (V6 v6) = (case to_ipv4_mapped v6 of Some v4 \<Rightarrow> V4 v4 | None \<Rightarrow> V6 v6)"
| "normalize_ip other = other"

definition accept :: "ip_addr \<Rightarrow> string \<Rightarrow> notify_acceptor \<Rightarrow> bool \<times> notify_acceptor" where
  "accept peer zone_text a =
     (let zone = to_lowercase (trim_end_matches CHR ''.'' zone_text)
      in case primary_for (na_state a) zone of
           None \<Rightarrow> (False, a)
         | Some primary \<Rightarrow>
             if primary \<noteq> normalize_ip peer then (False, a)
             else (True, a\<lparr>na_queue := na_queue a @ [zone]\<rparr>))"

section \<open>Handlers\<close>

datatype status_code = OK | NO_CONTENT | CREATED | BAD_REQUEST | NOT_FOUND | CONFLICT | UNAUTHORIZED | INTERNAL_SERVER_ERROR

definition TRANSFER_SECTION :: string where
  "TRANSFER_SECTION = ''zone_transfer''"

definition transfer_get_config ::
  "(string \<Rightarrow> zone_transfer_config option) \<Rightarrow> db \<Rightarrow> (status_code \<times> string) + zone_transfer_config" where
  "transfer_get_config from_json d =
     (case get_runtime_section d TRANSFER_SECTION of
        Some json \<Rightarrow>
          (case from_json json of
             Some config \<Rightarrow> Inr config
           | None \<Rightarrow> Inl (INTERNAL_SERVER_ERROR, ''internal server error''))
      | None \<Rightarrow> Inl (NOT_FOUND, ''zone transfer has not been configured on this instance''))"

definition transfer_reject :: "zone_transfer_config \<Rightarrow> string option" where
  "transfer_reject config =
     or_else (map_option (\<lambda>c. [CHR 0x27] @ c @ [CHR 0x27] @ '' is not an address or CIDR block'')
                (List.find (\<lambda>c. net_parse c = None) (zt_allow_transfer config)))
     (or_else (map_option (\<lambda>t. ''notify target '' @ [CHR 0x27] @ t @ [CHR 0x27] @ '' is not an address'')
                (List.find (\<lambda>t. parse_addr t = None) (zt_notify config)))
     (map_option (\<lambda>s. ''secondary zone '' @ [CHR 0x27] @ szc_zone s @ [CHR 0x27] @ '' is invalid: primary '' @
                        [CHR 0x27] @ szc_primary s @ [CHR 0x27] @
                        '' must be an address, and the zone name must not be empty'')
        (List.find (\<lambda>s. secondary_parse (szc_zone s) (szc_primary s) (szc_refresh_secs s) = None) (zt_secondary config))))"

definition transfer_put_config ::
  "(zone_transfer_config \<Rightarrow> string) \<Rightarrow> zone_transfer_config \<Rightarrow> db \<Rightarrow>
   ((status_code \<times> string) + zone_transfer_config) \<times> db" where
  "transfer_put_config to_json config d =
     (case transfer_reject config of
        Some msg \<Rightarrow> (Inl (BAD_REQUEST, msg), d)
      | None \<Rightarrow> (Inr config, snd (set_runtime_section TRANSFER_SECTION (to_json config) d)))"

definition transfer_delete_config :: "db \<Rightarrow> status_code \<times> db" where
  "transfer_delete_config d = (NO_CONTENT, snd (delete_runtime_section TRANSFER_SECTION d))"

section \<open>Facts\<close>

lemma mask_eq_iff:
  fixes a b :: "'a::len word"
  shows "a AND push_bit k (- 1) = b AND push_bit k (- 1) \<longleftrightarrow> drop_bit k a = drop_bit k b"
proof
  assume eq: "a AND push_bit k (- 1) = b AND push_bit k (- 1)"
  show "drop_bit k a = drop_bit k b"
  proof (rule bit_word_eqI)
    fix n
    assume "n < LENGTH('a)"
    have "bit (a AND push_bit k (- 1)) (k + n) \<longleftrightarrow> bit (b AND push_bit k (- 1)) (k + n)"
      by (simp only: eq)
    then show "bit (drop_bit k a) n \<longleftrightarrow> bit (drop_bit k b) n"
      by (auto simp: bit_simps dest: bit_imp_le_length)
  qed
next
  assume eq: "drop_bit k a = drop_bit k b"
  show "a AND push_bit k (- 1) = b AND push_bit k (- 1)"
  proof (rule bit_word_eqI)
    fix n
    have "bit (drop_bit k a) (n - k) \<longleftrightarrow> bit (drop_bit k b) (n - k)"
      by (simp only: eq)
    then show "bit (a AND push_bit k (- 1)) n \<longleftrightarrow> bit (b AND push_bit k (- 1)) n"
      by (auto simp: bit_simps)
  qed
qed

lemma drop_all_bits: "LENGTH('a) \<le> k \<Longrightarrow> drop_bit k (a :: 'a::len word) = 0"
  by (rule bit_word_eqI) (auto simp: bit_simps dest: bit_imp_le_length)

lemma net_mask_iff:
  fixes a b :: "'a::len word"
  assumes "bits = LENGTH('a)"
  shows "a AND net_mask bits p = b AND net_mask bits p \<longleftrightarrow> drop_bit (bits - unat p) a = drop_bit (bits - unat p) b"
proof (cases "p = 0")
  case True
  then show ?thesis
    by (simp add: net_mask_def drop_all_bits assms)
next
  case False
  show ?thesis
    unfolding net_mask_def if_not_P [OF False] by (rule mask_eq_iff)
qed

lemma map_filter_total: "(\<forall>x \<in> set xs. f x \<noteq> None) \<Longrightarrow> List.map_filter f xs = map (the \<circ> f) xs"
  by (induction xs) (auto simp: List.map_filter_simps)

lemma same_secondaries_iff [simp]: "same_secondaries a b \<longleftrightarrow> a = b"
proof -
  have "sz_zone x = sz_zone y \<and> sz_primary x = sz_primary y \<and> sz_refresh x = sz_refresh y \<longleftrightarrow> x = y" for x y :: secondary_zone
    by (cases x; cases y) simp
  then show ?thesis
    by (auto simp: same_secondaries_def list_eq_iff_nth_eq list_all_length)
qed

lemma or_else_None: "or_else a b = None \<longleftrightarrow> a = None \<and> b = None"
  by (cases a) (simp_all add: or_else_def)

lemma reject_None:
  "transfer_reject config = None \<longleftrightarrow>
     (\<forall>c \<in> set (zt_allow_transfer config). net_parse c \<noteq> None) \<and>
     (\<forall>t \<in> set (zt_notify config). parse_addr t \<noteq> None) \<and>
     (\<forall>s \<in> set (zt_secondary config). secondary_parse (szc_zone s) (szc_primary s) (szc_refresh_secs s) \<noteq> None)"
  unfolding transfer_reject_def or_else_None option.map_disc_iff find_None_iff Ball_def by (simp only: not_ex de_Morgan_conj imp_conv_disj)

lemma contains_v4_iff:
  "contains_v4 n b \<longleftrightarrow>
     (\<exists>a. net_addr n = V4 a \<and> drop_bit (32 - unat (net_prefix n)) a = drop_bit (32 - unat (net_prefix n)) b)"
  by (auto simp: Let_def net_mask_iff split: ip_addr.split)

lemma contains_v6_iff:
  "net_contains n (V6 b) \<longleftrightarrow>
     (case net_addr n of
        V6 a \<Rightarrow> drop_bit (128 - unat (net_prefix n)) a = drop_bit (128 - unat (net_prefix n)) b
      | V4 _ \<Rightarrow> (\<exists>v4. to_ipv4_mapped b = Some v4 \<and> contains_v4 n v4))"
  by (auto simp: Let_def net_mask_iff split: ip_addr.split option.split)

section \<open>Properties\<close>

text \<open>
  C32. The access list admits a peer exactly when one of its blocks has the peer's leading bits, as
  many as its prefix says; a peer in IPv4-mapped form counts as its IPv4 address, an IPv6 block
  admits no IPv4 peer, and the empty list admits nobody.
\<close>

theorem transfer_allowed_iff:
  "transfer_allowed peer allow \<longleftrightarrow>
     (\<exists>n \<in> set allow. let p = unat (net_prefix n) in
        case (net_addr n, normalize_ip (sock_ip peer)) of
          (V4 a, V4 b) \<Rightarrow> drop_bit (32 - p) a = drop_bit (32 - p) b
        | (V6 a, _) \<Rightarrow> (\<exists>b. sock_ip peer = V6 b \<and> drop_bit (128 - p) a = drop_bit (128 - p) b)
        | (V4 _, V6 _) \<Rightarrow> False)"
proof -
  have "net_contains n (sock_ip peer) \<longleftrightarrow>
      (let p = unat (net_prefix n) in
        case (net_addr n, normalize_ip (sock_ip peer)) of
          (V4 a, V4 b) \<Rightarrow> drop_bit (32 - p) a = drop_bit (32 - p) b
        | (V6 a, _) \<Rightarrow> (\<exists>b. sock_ip peer = V6 b \<and> drop_bit (128 - p) a = drop_bit (128 - p) b)
        | (V4 _, V6 _) \<Rightarrow> False)" for n
  proof (cases "sock_ip peer")
    case (V4 b)
    then show ?thesis
      by (cases "net_addr n") (simp_all add: contains_v4_iff Let_def del: contains_v4.simps)
  next
    case (V6 b)
    then show ?thesis
      by (cases "net_addr n") (simp_all add: contains_v6_iff contains_v4_iff Let_def
          del: contains_v4.simps net_contains.simps split: option.split)
  qed
  then show ?thesis
    by (simp add: transfer_allowed_def list_ex_iff)
qed

text \<open>
  C33. Settings that the handler stores are in force as written: every entry of the access list, of
  the notify targets and of the mirrored zones parses, and the settings parsed from the stored text
  have one entry for each. The stored text is what \<^verbatim>\<open>serde\<close> reads back.
\<close>

theorem stored_settings_complete:
  assumes "transfer_put_config to_json config d = (Inr config', d')" "from_json (to_json config) = Some config"
  shows "transfer_get_config from_json d' = Inr config \<and>
         map Some (ts_allow_transfer (settings_parse config)) = map net_parse (zt_allow_transfer config) \<and>
         map Some (ts_notify (settings_parse config)) = map parse_addr (zt_notify config) \<and>
         map Some (ts_secondaries (settings_parse config)) =
           map (\<lambda>s. secondary_parse (szc_zone s) (szc_primary s) (szc_refresh_secs s)) (zt_secondary config)"
proof -
  have ok: "transfer_reject config = None" and d': "d' = snd (set_runtime_section TRANSFER_SECTION (to_json config) d)"
    using assms(1) by (auto simp: transfer_put_config_def split: option.splits)
  have all: "map Some (List.map_filter f xs) = map f xs" if "\<forall>x \<in> set xs. f x \<noteq> None" for f :: "'a \<Rightarrow> 'b option" and xs
    using that by (simp add: map_filter_total)
  have "transfer_get_config from_json d' = Inr config"
    by (simp add: d' transfer_get_config_def get_runtime_section_def set_runtime_section_def assms(2))
  with ok show ?thesis
    unfolding reject_None settings_parse_def by (auto simp: all)
qed

definition ex_transfer :: zone_transfer_config where
  "ex_transfer = \<lparr>zt_allow_transfer = [''10.0.0.0/8''], zt_notify = [''fe80::1''], zt_secondary = []\<rparr>"

theorem stored_settings_complete_witness:
  "transfer_get_config (\<lambda>_. Some ex_transfer) (snd (transfer_put_config (\<lambda>_. ''{}'') ex_transfer db_open)) = Inr ex_transfer \<and>
   length (ts_allow_transfer (settings_parse ex_transfer)) = 1"
proof -
  have "transfer_reject ex_transfer = None"
    by code_simp
  then have put: "transfer_put_config (\<lambda>_. ''{}'') ex_transfer db_open =
      (Inr ex_transfer, snd (transfer_put_config (\<lambda>_. ''{}'') ex_transfer db_open))"
    by (simp add: transfer_put_config_def)
  note all = stored_settings_complete [OF put, of "\<lambda>_. Some ex_transfer", OF refl]
  then have "length (ts_allow_transfer (settings_parse ex_transfer)) = length (zt_allow_transfer ex_transfer)"
    by (metis length_map)
  also have "\<dots> = 1"
    by (simp add: ex_transfer_def)
  finally show ?thesis
    by (rule conjI [OF conjunct1 [OF all]])
qed

text \<open>
  Replacing the settings reports a change exactly when the settings in force differ.
\<close>

theorem replace_reports_change:
  "settings_replace config current = (current \<noteq> settings_parse config, settings_parse config)"
proof -
  have "current \<noteq> settings_parse config \<longleftrightarrow>
      settings_summary current \<noteq> settings_summary (settings_parse config)
      \<or> length (ts_secondaries current) \<noteq> length (ts_secondaries (settings_parse config))
      \<or> \<not> same_secondaries (ts_secondaries current) (ts_secondaries (settings_parse config))
      \<or> ts_notify current \<noteq> ts_notify (settings_parse config)
      \<or> ts_allow_transfer current \<noteq> ts_allow_transfer (settings_parse config)"
    by (cases current; cases "settings_parse config") auto
  then show ?thesis
    by (simp add: settings_replace_def Let_def)
qed

end
