(* ===== verification/Query_Tracker.thy ===== *)
theory Query_Tracker
  imports Db_Config Db_Inv "HOL-Library.AList"
begin

text \<open>
  The two in-memory observers: query statistics by name and type,
  \<^verbatim>\<open>crates/microdns-core/src/query_tracker.rs\<close>, with their flush to the database, and the ring
  buffer of log lines, \<^verbatim>\<open>log_buffer.rs\<close>. The order of the association list stands for the
  iteration order of the concurrent map.
\<close>

section \<open>Query statistics\<close>

record tracked_row =
  tr_last_queried_at :: instant
  tr_total_count :: u64
  tr_dirty :: bool

type_synonym query_tracker = "((string \<times> record_type) \<times> tracked_row) list"

definition normalize_fqdn :: "string \<Rightarrow> string" where
  "normalize_fqdn fqdn = to_lowercase (trim_end_matches CHR ''.'' fqdn)"

definition tracker_new :: query_tracker where
  "tracker_new = []"

definition tracker_hydrate :: "db \<Rightarrow> query_tracker \<Rightarrow> query_tracker" where
  "tracker_hydrate d t =
     fold (\<lambda>s. AList.update (normalize_fqdn (qs_fqdn s), qs_record_type s)
             \<lparr>tr_last_queried_at = qs_last_queried_at s, tr_total_count = qs_total_count s, tr_dirty = False\<rparr>)
       (list_query_stats d) t"

definition bump :: "string \<Rightarrow> record_type \<Rightarrow> instant \<Rightarrow> query_tracker \<Rightarrow> query_tracker" where
  "bump fqdn rtype now t =
     (let key = (normalize_fqdn fqdn, rtype);
          count = (case map_of t key of Some r \<Rightarrow> tr_total_count r | None \<Rightarrow> 0)
      in AList.update key \<lparr>tr_last_queried_at = now, tr_total_count = count + 1, tr_dirty = True\<rparr> t)"

definition stat_of :: "(string \<times> record_type) \<times> tracked_row \<Rightarrow> query_stat" where
  "stat_of e = \<lparr>qs_fqdn = fst (fst e), qs_record_type = snd (fst e), qs_last_queried_at = tr_last_queried_at (snd e),
                qs_total_count = tr_total_count (snd e)\<rparr>"

definition tracker_get :: "string \<Rightarrow> record_type \<Rightarrow> query_tracker \<Rightarrow> query_stat option" where
  "tracker_get fqdn rtype t =
     (let key = (normalize_fqdn fqdn, rtype) in map_option (\<lambda>r. stat_of (key, r)) (map_of t key))"

definition tracker_flush :: "db \<Rightarrow> query_tracker \<Rightarrow> nat \<times> query_tracker \<times> db" where
  "tracker_flush d t =
     (let to_write = map stat_of (filter (\<lambda>e. tr_dirty (snd e)) t)
      in (length to_write, map (\<lambda>(k, r). (k, r\<lparr>tr_dirty := False\<rparr>)) t, snd (upsert_query_stats_batch to_write d)))"

section \<open>Log buffer\<close>

record log_entry =
  le_timestamp :: string
  le_level :: string
  le_module :: string
  le_message :: string

record log_buffer =
  lb_entries :: "log_entry list"
  lb_capacity :: nat

definition log_buffer_new :: "nat \<Rightarrow> log_buffer" where
  "log_buffer_new capacity = \<lparr>lb_entries = [], lb_capacity = capacity\<rparr>"

definition buffer_push :: "log_entry \<Rightarrow> log_buffer \<Rightarrow> log_buffer" where
  "buffer_push entry b =
     b\<lparr>lb_entries := (if length (lb_entries b) \<ge> lb_capacity b then tl (lb_entries b) else lb_entries b) @ [entry]\<rparr>"

definition log_matches :: "string option \<Rightarrow> string option \<Rightarrow> log_entry \<Rightarrow> bool" where
  "log_matches level module e \<longleftrightarrow>
     (case level of Some lvl \<Rightarrow> to_lowercase (le_level e) = to_lowercase lvl | None \<Rightarrow> True) \<and>
     (case module of Some m \<Rightarrow> sublist m (le_module e) | None \<Rightarrow> True)"

definition log_query :: "nat \<Rightarrow> string option \<Rightarrow> string option \<Rightarrow> log_buffer \<Rightarrow> log_entry list" where
  "log_query limit level module b = take limit (filter (log_matches level module) (rev (lb_entries b)))"

section \<open>Facts\<close>

lemma fold_update_map_of:
  "map_of (fold (\<lambda>x. AList.update (k x) (v x)) xs al) =
     (\<lambda>key. case List.find (\<lambda>x. k x = key) (rev xs) of Some x \<Rightarrow> Some (v x) | None \<Rightarrow> map_of al key)"
proof (induction xs rule: rev_induct)
  case (snoc x xs)
  then show ?case
    by (auto simp: AList.update_conv' fun_eq_iff)
qed simp

lemma query_stat_key_inject:
  "query_stat_key f rt = query_stat_key f' rt' \<longleftrightarrow> f = f' \<and> rt = rt'"
proof
  have nc: "CHR '':'' \<notin> set (record_type_str rt)" for rt
    by (cases rt) simp_all
  assume "query_stat_key f rt = query_stat_key f' rt'"
  then have "f = f' \<and> record_type_str rt = record_type_str rt'"
    unfolding query_stat_key_def using sep_inject_last [OF nc nc] by auto
  moreover have "record_type_str rt = record_type_str rt' \<Longrightarrow> rt = rt'"
    by (cases rt; cases rt') simp_all
  ultimately show "f = f' \<and> rt = rt'"
    by blast
qed simp

lemma trim_lowercase:
  "trim_end_matches CHR ''.'' (to_lowercase s) = to_lowercase (trim_end_matches CHR ''.'' s)"
proof -
  have "ascii_lower c = CHR ''.'' \<longleftrightarrow> c = CHR ''.''" for c
  proof
    assume "ascii_lower c = CHR ''.''"
    then have "(of_char (ascii_lower c) :: nat) = 46"
      by simp
    then have "(of_char c :: nat) = of_char CHR ''.''"
      by (auto simp: of_char_ascii_lower split: if_splits)
    then show "c = CHR ''.''"
      by (simp only: of_char_eq_iff)
  qed (simp add: ascii_lower_def)
  then show ?thesis
    by (simp add: trim_end_matches_def to_lowercase_def rev_map dropWhile_map comp_def)
qed

lemma normalize_idem [simp]: "normalize_fqdn (normalize_fqdn s) = normalize_fqdn s"
  by (simp add: normalize_fqdn_def trim_lowercase)

text \<open>
  How the tracker and the table stand to each other: rows are stored under their own normalized
  name, rows that are not dirty are stored as they are, and nothing else is stored.
\<close>

definition tracker_inv :: "query_tracker \<Rightarrow> db \<Rightarrow> bool" where
  "tracker_inv t d \<longleftrightarrow> tbl_ok (query_stats d) \<and> distinct (map fst t) \<and>
     (\<forall>k r. map_of t k = Some r \<longrightarrow> normalize_fqdn (fst k) = fst k \<and>
        (\<not> tr_dirty r \<longrightarrow> tbl_get (query_stats d) (query_stat_key (fst k) (snd k)) = Some (stat_of (k, r)))) \<and>
     (\<forall>key s. tbl_get (query_stats d) key = Some s \<longrightarrow> key = query_stat_key (qs_fqdn s) (qs_record_type s) \<and>
        map_of t (qs_fqdn s, qs_record_type s) \<noteq> None)"

lemma tracker_invD:
  assumes "tracker_inv t d"
  shows "tbl_ok (query_stats d)" "distinct (map fst t)" "map_of t k = Some r \<Longrightarrow> normalize_fqdn (fst k) = fst k"
    "map_of t k = Some r \<Longrightarrow> \<not> tr_dirty r \<Longrightarrow> tbl_get (query_stats d) (query_stat_key (fst k) (snd k)) = Some (stat_of (k, r))"
    "tbl_get (query_stats d) key = Some s \<Longrightarrow> key = query_stat_key (qs_fqdn s) (qs_record_type s)"
    "tbl_get (query_stats d) key = Some s \<Longrightarrow> map_of t (qs_fqdn s, qs_record_type s) \<noteq> None"
  using assms unfolding tracker_inv_def by blast+

definition row_of :: "query_stat \<Rightarrow> tracked_row" where
  "row_of s = \<lparr>tr_last_queried_at = qs_last_queried_at s, tr_total_count = qs_total_count s, tr_dirty = False\<rparr>"

lemma stat_row [simp]: "stat_of ((qs_fqdn s, qs_record_type s), row_of s) = s"
  by (simp add: stat_of_def row_of_def)

lemma hydrate_map_of:
  assumes "tracker_inv t d"
  shows "map_of (tracker_hydrate d tracker_new) k =
    map_option row_of (tbl_get (query_stats d) (query_stat_key (fst k) (snd k)))"
proof -
  let ?key = "query_stat_key (fst k) (snd k)"
  let ?P = "\<lambda>s. (normalize_fqdn (qs_fqdn s), qs_record_type s) = k"
  have row: "tbl_get (query_stats d) ?key = Some s \<longleftrightarrow> s \<in> set (list_query_stats d) \<and> ?P s" for s
  proof -
    have "tbl_get (query_stats d) key = Some s \<Longrightarrow> ?P s \<longleftrightarrow> key = ?key" for key
      using tracker_invD(5,6) [OF assms, of key s] tracker_invD(3) [OF assms]
      by (cases k) (auto simp: query_stat_key_inject)
    then show ?thesis
      using tbl_values_iff [OF tracker_invD(1) [OF assms], of s] unfolding list_query_stats_def by blast
  qed
  have "List.find ?P (rev (list_query_stats d)) = tbl_get (query_stats d) ?key"
  proof (cases "List.find ?P (rev (list_query_stats d))")
    case None
    then have "tbl_get (query_stats d) ?key \<noteq> Some s" for s
      using row [of s] by (auto simp: find_None_iff)
    then have "tbl_get (query_stats d) ?key = None"
      by (cases "tbl_get (query_stats d) ?key") blast+
    with None show ?thesis
      by simp
  next
    case (Some s)
    then have "s \<in> set (list_query_stats d) \<and> ?P s"
      unfolding find_Some_iff by (metis (no_types, lifting) nth_mem set_rev)
    with Some show ?thesis
      using row [of s] by simp
  qed
  then show ?thesis
    by (simp add: tracker_hydrate_def tracker_new_def fold_update_map_of row_of_def map_option_case split: option.split)
qed

definition store_stats :: "query_stat list \<Rightarrow> query_stat table \<Rightarrow> query_stat table" where
  "store_stats ss tab = fold (\<lambda>s. tbl_insert (query_stat_key (qs_fqdn s) (qs_record_type s)) s) ss tab"

lemma store_stats_ok: "tbl_ok tab \<Longrightarrow> tbl_ok (store_stats ss tab)"
  by (induction ss arbitrary: tab) (simp_all add: store_stats_def)

lemma store_stats_keys:
  "tbl_get (store_stats ss tab) key = Some s \<Longrightarrow>
     tbl_get tab key = Some s \<or> key = query_stat_key (qs_fqdn s) (qs_record_type s)"
proof (induction ss arbitrary: tab)
  case (Cons x ss)
  from Cons.IH [OF Cons.prems [unfolded store_stats_def fold.simps comp_apply, folded store_stats_def]] show ?case
    by (auto split: if_splits)
qed (simp add: store_stats_def)

lemma store_stats_get:
  "tbl_get (store_stats (map stat_of es) tab) (query_stat_key f rt) =
     (case map_of (rev es) (f, rt) of Some r \<Rightarrow> Some (stat_of ((f, rt), r)) | None \<Rightarrow> tbl_get tab (query_stat_key f rt))"
proof (induction es arbitrary: tab)
  case (Cons e es)
  obtain f' rt' r' where e: "e = ((f', rt'), r')"
    by (metis prod.collapse)
  then have key: "query_stat_key (qs_fqdn (stat_of e)) (qs_record_type (stat_of e)) = query_stat_key f' rt'"
    by (simp add: stat_of_def)
  have "store_stats (map stat_of (e # es)) tab = store_stats (map stat_of es) (tbl_insert (query_stat_key f' rt') (stat_of e) tab)"
    by (simp add: store_stats_def key)
  then show ?case
    by (simp add: Cons.IH e query_stat_key_inject map_add_def split: option.split)
qed (simp add: store_stats_def)

lemma map_of_clean:
  "map_of (map (\<lambda>(k, r). (k, r\<lparr>tr_dirty := False\<rparr>)) t) k = map_option (\<lambda>r. r\<lparr>tr_dirty := False\<rparr>) (map_of t k)"
  by (induction t) auto

lemma map_of_filter_distinct:
  "distinct (map fst t) \<Longrightarrow>
     map_of (filter P t) k = (case map_of t k of Some r \<Rightarrow> if P (k, r) then Some r else None | None \<Rightarrow> None)"
  by (induction t) (auto simp: map_of_eq_None_iff split: option.split)

lemma map_of_rev_distinct: "distinct (map fst xs) \<Longrightarrow> map_of (rev xs) = map_of xs"
  by (subst map_of_inject_set) (simp_all add: rev_map [symmetric])

lemma flush_result:
  assumes "tracker_inv t d" "tracker_flush d t = (n, t', d')"
  shows "tbl_ok (query_stats d')" "map_of t' k = map_option (\<lambda>r. r\<lparr>tr_dirty := False\<rparr>) (map_of t k)"
    "distinct (map fst t')"
    "tbl_get (query_stats d') (query_stat_key (fst k) (snd k)) = map_option (\<lambda>r. stat_of (k, r)) (map_of t k)"
    "tbl_get (query_stats d') key = Some s \<Longrightarrow> key = query_stat_key (qs_fqdn s) (qs_record_type s)"
proof -
  let ?es = "filter (\<lambda>e. tr_dirty (snd e)) t"
  have dist: "distinct (map fst ?es)"
    using tracker_invD(2) [OF assms(1)] by (rule distinct_map_filter)
  have d': "query_stats d' = store_stats (map stat_of ?es) (query_stats d)"
    using assms(2) by (auto simp: tracker_flush_def upsert_query_stats_batch_def Let_def store_stats_def)
  show "tbl_ok (query_stats d')"
    unfolding d' by (rule store_stats_ok [OF tracker_invD(1) [OF assms(1)]])
  show "map_of t' k = map_option (\<lambda>r. r\<lparr>tr_dirty := False\<rparr>) (map_of t k)" "distinct (map fst t')"
    using assms(2) tracker_invD(2) [OF assms(1)]
    by (auto simp: tracker_flush_def Let_def map_of_clean comp_def split_beta)
  have written: "map_of (rev ?es) k = (case map_of t k of Some r \<Rightarrow> if tr_dirty r then Some r else None | None \<Rightarrow> None)"
    using map_of_filter_distinct [OF tracker_invD(2) [OF assms(1)], of "\<lambda>e. tr_dirty (snd e)" k]
    by (simp only: map_of_rev_distinct [OF dist] snd_conv)
  have none: "tbl_get (query_stats d) (query_stat_key (fst k) (snd k)) = None" if "map_of t k = None"
  proof (cases "tbl_get (query_stats d) (query_stat_key (fst k) (snd k))")
    case (Some s)
    then have "(qs_fqdn s, qs_record_type s) = k"
      using tracker_invD(5) [OF assms(1) Some] by (cases k) (simp add: query_stat_key_inject)
    with Some tracker_invD(6) [OF assms(1) Some] that show ?thesis
      by simp
  qed
  show "tbl_get (query_stats d') (query_stat_key (fst k) (snd k)) = map_option (\<lambda>r. stat_of (k, r)) (map_of t k)"
    using none tracker_invD(4) [OF assms(1), of k] written unfolding d' store_stats_get by (auto split: option.splits)
  show "tbl_get (query_stats d') key = Some s \<Longrightarrow> key = query_stat_key (qs_fqdn s) (qs_record_type s)"
    using store_stats_keys tracker_invD(5) [OF assms(1)] unfolding d' by blast
qed

lemma flush_inv:
  assumes "tracker_inv t d" "tracker_flush d t = (n, t', d')"
  shows "tracker_inv t' d'"
proof -
  note res = flush_result [OF assms]
  have stored: "tbl_get (query_stats d') (query_stat_key (fst k) (snd k)) = Some (stat_of (k, r))"
    if "map_of t' k = Some r" for k r
    using that res(2,4) [of k] by (auto simp: stat_of_def)
  have known: "map_of t' (qs_fqdn s, qs_record_type s) \<noteq> None" if "tbl_get (query_stats d') key = Some s" for key s
    using that res(5) [OF that] res(2,4) [of "(qs_fqdn s, qs_record_type s)"]
    by (cases "map_of t (qs_fqdn s, qs_record_type s)") simp_all
  have normal: "normalize_fqdn (fst k) = fst k" if "map_of t' k = Some r" for k r
    using that tracker_invD(3) [OF assms(1), of k] by (auto simp: res(2))
  show ?thesis
    unfolding tracker_inv_def using res(1,3,5) stored known normal by blast
qed

lemma bump_inv:
  assumes "tracker_inv t d"
  shows "tracker_inv (bump fqdn rtype now t) d"
  using assms unfolding tracker_inv_def bump_def Let_def
  by (auto simp: AList.update_conv' distinct_update split: if_splits)

lemma hydrate_inv:
  assumes "tracker_inv t d"
  shows "tracker_inv (tracker_hydrate d tracker_new) d"
proof -
  let ?t = "tracker_hydrate d tracker_new"
  note row = hydrate_map_of [OF assms]
  have "distinct (map fst (fold (\<lambda>x. AList.update (k x) (v x)) xs al))" if "distinct (map fst al)"
    for k :: "query_stat \<Rightarrow> string \<times> record_type" and v :: "query_stat \<Rightarrow> tracked_row" and xs al
    using that by (induction xs arbitrary: al) (simp_all add: distinct_update)
  then have dist: "distinct (map fst ?t)"
    by (simp add: tracker_hydrate_def tracker_new_def)
  have own: "k = (qs_fqdn s, qs_record_type s)"
    if "tbl_get (query_stats d) (query_stat_key (fst k) (snd k)) = Some s" for k s
    using tracker_invD(5) [OF assms that] by (cases k) (simp add: query_stat_key_inject)
  have entry: "normalize_fqdn (fst k) = fst k \<and> tbl_get (query_stats d) (query_stat_key (fst k) (snd k)) = Some (stat_of (k, r))"
    if r: "map_of ?t k = Some r" for k r
  proof -
    obtain s where s: "tbl_get (query_stats d) (query_stat_key (fst k) (snd k)) = Some s" "r = row_of s"
      using r unfolding row by blast
    then show ?thesis
      using tracker_invD(6) [OF assms s(1)] tracker_invD(3) [OF assms] own [OF s(1)] by auto
  qed
  have "map_of ?t (qs_fqdn s, qs_record_type s) \<noteq> None" if "tbl_get (query_stats d) key = Some s" for key s
    using that tracker_invD(5) [OF assms that] by (simp add: row)
  with dist entry tracker_invD(1,5) [OF assms] show ?thesis
    unfolding tracker_inv_def by blast
qed

text \<open>
  A run of the tracker beside a database whose statistics only it writes: queries are counted, rows
  are flushed, other tables change, and the process restarts.
\<close>

inductive tracker_run :: "query_tracker \<Rightarrow> db \<Rightarrow> bool" where
  first_start: "tracker_run tracker_new db_open"
| queried: "tracker_run t d \<Longrightarrow> tracker_run (bump fqdn rtype now t) d"
| flushed: "tracker_run t d \<Longrightarrow> tracker_flush d t = (n, t', d') \<Longrightarrow> tracker_run t' d'"
| written: "tracker_run t d \<Longrightarrow> query_stats d' = query_stats d \<Longrightarrow> tracker_run t d'"
| restarted: "tracker_run t d \<Longrightarrow> tracker_run (tracker_hydrate d tracker_new) d"

lemma tracker_run_inv: "tracker_run t d \<Longrightarrow> tracker_inv t d"
proof (induction rule: tracker_run.induct)
  case first_start
  then show ?case
    by (simp add: tracker_inv_def tracker_new_def db_open_def)
next
  case (written t d d')
  then show ?case
    unfolding tracker_inv_def by (elim ssubst)
qed (auto intro: bump_inv flush_inv hydrate_inv)

lemma buffer_push_all:
  "lb_entries (fold buffer_push es (log_buffer_new c)) = drop (length es - max 1 c) es \<and>
   lb_capacity (fold buffer_push es (log_buffer_new c)) = c"
proof (induction es rule: rev_induct)
  case (snoc e es)
  then show ?case
    by (auto simp: buffer_push_def Let_def max_def drop_Suc tl_drop Suc_diff_le not_le)
qed (simp add: log_buffer_new_def)

section \<open>Properties\<close>

text \<open>
  C31. A restart after a flush loses no statistics: the tracker loaded from the database answers
  every lookup as the tracker that was flushed.
\<close>

theorem flush_survives_restart:
  assumes "tracker_run t d" "tracker_flush d t = (n, t', d')"
  shows "tracker_get fqdn rtype (tracker_hydrate d' tracker_new) = tracker_get fqdn rtype t"
proof -
  note inv = tracker_run_inv [OF assms(1)]
  have "map_of (tracker_hydrate d' tracker_new) k = map_option (\<lambda>r. row_of (stat_of (k, r))) (map_of t k)" for k
    by (simp add: hydrate_map_of [OF flush_inv [OF inv assms(2)]] flush_result(4) [OF inv assms(2)] option.map_comp comp_def)
  then show ?thesis
    by (simp add: tracker_get_def option.map_comp comp_def stat_of_def row_of_def)
qed

theorem flush_survives_restart_witness:
  "tracker_get ''WWW.example.com.'' RT_A
     (tracker_hydrate (snd (snd (tracker_flush db_open (bump ''www.example.com'' RT_A 7 tracker_new)))) tracker_new) =
   Some \<lparr>qs_fqdn = ''www.example.com'', qs_record_type = RT_A, qs_last_queried_at = 7, qs_total_count = 1\<rparr>"
proof -
  let ?t = "bump ''www.example.com'' RT_A 7 tracker_new"
  have run: "tracker_run ?t db_open"
    by (rule queried [OF first_start])
  have "tracker_get ''WWW.example.com.'' RT_A ?t =
      Some \<lparr>qs_fqdn = ''www.example.com'', qs_record_type = RT_A, qs_last_queried_at = 7, qs_total_count = 1\<rparr>"
    by code_simp
  then show ?thesis
    using flush_survives_restart [OF run, of "fst (tracker_flush db_open ?t)" "fst (snd (tracker_flush db_open ?t))"]
    by simp
qed

end
