(* ===== verification/Auth_Server.thy ===== *)
theory Auth_Server
  imports Zone_Transfer Transfer_Acl Query_Tracker
begin

text \<open>
  The authoritative server, \<^verbatim>\<open>crates/microdns-auth/src/server.rs\<close>: the answer to a datagram
  and what one TCP connection receives. A handler that fails sends nothing more; what it has written
  by then stays written. The clock is an argument.
\<close>

section \<open>State\<close>

record auth_server =
  au_db :: db
  au_tracker :: "query_tracker option"
  au_transfer :: transfer_settings
  au_notify :: "notify_acceptor option"

definition auth_server_new :: "db \<Rightarrow> auth_server" where
  "auth_server_new d = \<lparr>au_db = d, au_tracker = None, au_transfer = settings_default, au_notify = None\<rparr>"

definition with_transfer_state :: "transfer_settings \<Rightarrow> auth_server \<Rightarrow> auth_server" where
  "with_transfer_state t s = s\<lparr>au_transfer := t\<rparr>"

definition with_allow_transfer :: "string list \<Rightarrow> auth_server \<Rightarrow> auth_server" where
  "with_allow_transfer cidrs s =
     with_transfer_state (settings_parse \<lparr>zt_allow_transfer = cidrs, zt_notify = [], zt_secondary = []\<rparr>) s"

definition with_query_tracker :: "query_tracker \<Rightarrow> auth_server \<Rightarrow> auth_server" where
  "with_query_tracker t s = s\<lparr>au_tracker := Some t\<rparr>"

definition with_notify_acceptor :: "notify_acceptor \<Rightarrow> auth_server \<Rightarrow> auth_server" where
  "with_notify_acceptor a s = s\<lparr>au_notify := Some a\<rparr>"

section \<open>Notifications\<close>

definition notify_response :: "'n message \<Rightarrow> 'n message" where
  "notify_response request =
     message_new\<lparr>m_id := m_id request, m_type := Msg_Response, m_op_code := Op_Notify, m_authoritative := True,
                 m_queries := m_queries request\<rparr>"

definition handle_notify ::
  "'n hickory \<Rightarrow> 'n message \<Rightarrow> socket_addr \<Rightarrow> notify_acceptor option \<Rightarrow> u8 list option \<times> notify_acceptor option" where
  "handle_notify h request peer notify =
     (let response = notify_response request
      in case m_queries request of
           [] \<Rightarrow> (msg_to_bytes h (response\<lparr>m_response_code := FormErr\<rparr>), notify)
         | q # _ \<Rightarrow>
             (case notify of
                None \<Rightarrow> (msg_to_bytes h (response\<lparr>m_response_code := Refused\<rparr>), None)
              | Some a \<Rightarrow>
                  (let (ok, a') = accept (sock_ip peer) (name_to_string h (q_name q)) a
                   in (msg_to_bytes h (response\<lparr>m_response_code := (if ok then NoError else Refused)\<rparr>), Some a'))))"

section \<open>Queries\<close>

fun map_hickory_type :: "wire_type \<Rightarrow> record_type option" where
  "map_hickory_type W_A = Some RT_A"
| "map_hickory_type W_AAAA = Some RT_AAAA"
| "map_hickory_type W_CNAME = Some RT_CNAME"
| "map_hickory_type W_MX = Some RT_MX"
| "map_hickory_type W_NS = Some RT_NS"
| "map_hickory_type W_PTR = Some RT_PTR"
| "map_hickory_type W_SOA = Some RT_SOA"
| "map_hickory_type W_SRV = Some RT_SRV"
| "map_hickory_type W_TXT = Some RT_TXT"
| "map_hickory_type W_CAA = Some RT_CAA"
| "map_hickory_type _ = None"

definition count_query :: "'n hickory \<Rightarrow> instant \<Rightarrow> 'n \<Rightarrow> wire_type \<Rightarrow> query_tracker option \<Rightarrow> query_tracker option" where
  "count_query h now qname qtype tracker =
     (case (tracker, map_hickory_type qtype) of
        (Some t, Some rtype) \<Rightarrow> Some (bump (query_fqdn_of h qname) rtype now t)
      | _ \<Rightarrow> tracker)"

definition query_response :: "'n hickory \<Rightarrow> db \<Rightarrow> 'n message \<Rightarrow> 'n message" where
  "query_response h d request =
     (let response = message_new\<lparr>m_id := m_id request, m_type := Msg_Response, m_op_code := Op_Query,
                       m_recursion_desired := m_recursion_desired request, m_recursion_available := False,
                       m_authoritative := True\<rparr>
      in if m_op_code request \<noteq> Op_Query then response\<lparr>m_response_code := NotImp\<rparr>
         else case m_queries request of
                [] \<Rightarrow> response\<lparr>m_response_code := FormErr\<rparr>
              | query # _ \<Rightarrow>
                  (let response = response\<lparr>m_queries := m_queries request\<rparr>;
                       qname = lower_name h (q_name query);
                       qtype = q_type query
                   in if \<not> is_authoritative h d qname then response\<lparr>m_response_code := Refused\<rparr>
                      else if qtype = W_ANY
                      then response\<lparr>m_answers := resolve_query h d qname W_SOA, m_response_code := NoError\<rparr>
                      else (let rrs = resolve_query h d qname qtype
                            in if rrs = []
                               then response\<lparr>m_name_servers :=
                                      (case get_authority_soa h d qname of Some soa \<Rightarrow> [soa] | None \<Rightarrow> []),
                                    m_response_code :=
                                      (if fqdn_exists d (query_fqdn_of h qname) then NoError else NXDomain)\<rparr>
                               else response\<lparr>m_answers := rrs, m_response_code := NoError\<rparr>)))"

definition handle_query ::
  "'n hickory \<Rightarrow> instant \<Rightarrow> u8 list \<Rightarrow> socket_addr \<Rightarrow> auth_server \<Rightarrow> u8 list option \<times> auth_server" where
  "handle_query h now data peer s =
     (case msg_from_bytes h data of
        None \<Rightarrow> (None, s)
      | Some request \<Rightarrow>
          if m_op_code request = Op_Notify
          then (let (reply, notify) = handle_notify h request peer (au_notify s) in (reply, s\<lparr>au_notify := notify\<rparr>))
          else (let s' = (case (m_op_code request, m_queries request) of
                            (Op_Query, query # _) \<Rightarrow>
                              s\<lparr>au_tracker := count_query h now (lower_name h (q_name query)) (q_type query) (au_tracker s)\<rparr>
                          | _ \<Rightarrow> s)
                in (msg_to_bytes h (query_response h (au_db s) request), s')))"

section \<open>TCP\<close>

definition AXFR_RECORDS_PER_MESSAGE :: nat where "AXFR_RECORDS_PER_MESSAGE = 100"

function axfr_chunks :: "'a list \<Rightarrow> 'a list list" where
  "axfr_chunks rs = (if rs = [] then [] else take AXFR_RECORDS_PER_MESSAGE rs # axfr_chunks (drop AXFR_RECORDS_PER_MESSAGE rs))"
  by pat_completeness auto
termination
  by (relation "measure length") (simp_all add: AXFR_RECORDS_PER_MESSAGE_def)

definition axfr_message :: "'n message \<Rightarrow> 'n dns_rr list \<Rightarrow> 'n message" where
  "axfr_message request chunk =
     message_new\<lparr>m_id := m_id request, m_type := Msg_Response, m_op_code := Op_Query, m_authoritative := True,
                 m_response_code := NoError, m_queries := m_queries request, m_answers := chunk\<rparr>"

fun send_chunks :: "'n hickory \<Rightarrow> 'n message \<Rightarrow> 'n dns_rr list list \<Rightarrow> u8 list \<times> bool" where
  "send_chunks h request [] = ([], True)"
| "send_chunks h request (chunk # chunks) =
     (case msg_to_bytes h (axfr_message request chunk) of
        None \<Rightarrow> ([], False)
      | Some wire \<Rightarrow>
          if length wire > 65535 then ([], False)
          else (let (rest, ok) = send_chunks h request chunks in (frame wire @ rest, ok)))"

definition refusal :: "'n hickory \<Rightarrow> 'n message \<Rightarrow> u8 list option" where
  "refusal h request =
     msg_to_bytes h (message_new\<lparr>m_id := m_id request, m_type := Msg_Response, m_op_code := Op_Query,
       m_response_code := Refused, m_queries := m_queries request\<rparr>)"

definition send_reply :: "u8 list option \<Rightarrow> u8 list \<times> bool" where
  "send_reply wire = (case wire of Some w \<Rightarrow> (frame w, True) | None \<Rightarrow> ([], False))"

text \<open>The bytes a connection receives, and whether the handler succeeded.\<close>

definition handle_tcp_connection ::
  "'n hickory \<Rightarrow> instant \<Rightarrow> stream \<Rightarrow> socket_addr \<Rightarrow> auth_server \<Rightarrow> (u8 list \<times> bool) \<times> auth_server" where
  "handle_tcp_connection h now inp peer s =
     (case read_u16 inp 0 of
        None \<Rightarrow> (([], False), s)
      | Some len \<Rightarrow>
          if len = 0 then (([], True), s)
          else case Option.bind (read_exact inp 2 (unat len)) (\<lambda>buf. map_option (Pair buf) (msg_from_bytes h buf)) of
                 None \<Rightarrow> (([], False), s)
               | Some (buf, request) \<Rightarrow>
                   if m_op_code request = Op_Notify
                   then (let (reply, notify) = handle_notify h request peer (au_notify s)
                         in (send_reply reply, s\<lparr>au_notify := notify\<rparr>))
                   else case m_queries request of
                          [] \<Rightarrow> (([], True), s)
                        | query # _ \<Rightarrow>
                            if q_type query = W_AXFR
                            then (let zone_name = trim_end_matches CHR ''.'' (name_to_string h (q_name query))
                                  in if \<not> transfer_allowed peer (ts_allow_transfer (au_transfer s))
                                     then (send_reply (refusal h request), s)
                                     else case build_axfr_records h (au_db s) zone_name of
                                            Some rrs \<Rightarrow> (send_chunks h request (axfr_chunks rrs), s)
                                          | None \<Rightarrow> (send_reply (refusal h request), s))
                            else (let (reply, s') = handle_query h now buf peer s in (send_reply reply, s')))"

section \<open>Facts\<close>

declare axfr_chunks.simps [simp del]

lemma concat_chunks: "concat (axfr_chunks rs) = rs"
proof (induction rs rule: axfr_chunks.induct)
  case (1 rs)
  then show ?case
    by (subst axfr_chunks.simps) simp
qed

lemma send_chunks_ok:
  assumes "send_chunks h request chunks = (out, True)"
  shows "\<exists>ws. list_all2 (\<lambda>m w. msg_to_bytes h m = Some w \<and> length w < 65536) (map (axfr_message request) chunks) ws \<and>
    out = concat (map frame ws)"
  using assms
proof (induction chunks arbitrary: out)
  case (Cons c cs)
  then obtain w rest where w: "msg_to_bytes h (axfr_message request c) = Some w" "length w < 65536"
    "send_chunks h request cs = (rest, True)" "out = frame w @ rest"
    by (auto split: option.splits if_splits prod.splits)
  from Cons.IH [OF w(3)] obtain ws where
    "list_all2 (\<lambda>m w. msg_to_bytes h m = Some w \<and> length w < 65536) (map (axfr_message request) cs) ws"
    "rest = concat (map frame ws)"
    by blast
  with w show ?case
    by (intro exI [of _ "w # ws"]) simp
qed auto

lemma map_type_same: "map_hickory_type = from_hickory_rtype"
proof
  show "map_hickory_type t = from_hickory_rtype t" for t
    by (cases t) simp_all
qed

lemma query_response_nxdomain:
  assumes "m_response_code (query_response h d request) = NXDomain"
  obtains q qs z where "m_queries request = q # qs"
    "find_zone_for_fqdn d (query_fqdn_of h (lower_name h (q_name q))) = Some z"
    "resolve_query h d (lower_name h (q_name q)) (q_type q) = []"
    "\<not> fqdn_exists d (query_fqdn_of h (lower_name h (q_name q)))"
proof -
  obtain q qs where q: "m_op_code request = Op_Query" "m_queries request = q # qs"
    using assms by (cases "m_queries request") (auto simp: query_response_def Let_def split: if_splits)
  with assms that show ?thesis
    by (auto simp: query_response_def Let_def is_authoritative_def split: if_splits)
qed

definition full_name :: "zone \<Rightarrow> dns_record \<Rightarrow> string" where
  "full_name z r =
     (let zn = trim_end_matches CHR ''.'' (z_name z) in if r_name r = ''@'' then zn else r_name r @ ''.'' @ zn)"

lemma fqdn_exists_owner:
  assumes "db_reachable d" "\<forall>r \<in> rows d. CHR '':'' \<notin> set (r_name r)"
    and "find_zone_for_fqdn d fqdn = Some z" "trim_end_matches CHR ''.'' fqdn = fqdn"
    and "r \<in> rows d" "r_zone_id r = z_id z" "full_name z r = fqdn"
  shows "fqdn_exists d fqdn"
proof -
  let ?zn = "trim_end_matches CHR ''.'' (z_name z)"
  note inv = reachable_rec_inv [OF assms(1)]
  have uuid: "is_uuid (z_id z)"
    using list_zones_facts(2) [OF assms(1) find_zone_listed(1) [OF assms(3)]] .
  have ex: "name_exists_in_zone d (z_id z) (r_name r)"
    using name_exists_iff [OF inv uuid assms(2), of "r_name r"] assms(2,5,6) by blast
  have zone: "most_specific_zone (list_zones d) fqdn = Some z"
    using assms(3) by (simp add: find_zone_for_fqdn_def)
  show ?thesis
  proof (cases "r_name r = ''@''")
    case True
    then have "fqdn = ?zn"
      using assms(7) by (simp add: full_name_def)
    with True ex zone assms(4) show ?thesis
      by (simp add: fqdn_exists_def Let_def)
  next
    case False
    then have "fqdn = r_name r @ ''.'' @ ?zn"
      using assms(7) by (simp add: full_name_def Let_def)
    then have "strip_suffix fqdn (''.'' @ ?zn) = Some (r_name r)" "fqdn \<noteq> ?zn"
      by (simp_all add: strip_suffix_Some)
    with ex zone assms(4) show ?thesis
      by (simp add: fqdn_exists_def Let_def)
  qed
qed

section \<open>Properties\<close>


definition ex_query :: "string \<Rightarrow> string message" where
  "ex_query n = message_new\<lparr>m_id := 7, m_queries := [question_new n W_A]\<rparr>"


text \<open>
  C35. Only the configured primary is believed: whatever a datagram contains, it queues a zone for
  transfer only when that zone is mirrored and the sender has the address of its primary, and it
  changes nothing else of the notification state.
\<close>

theorem notify_only_from_primary:
  assumes "handle_query h now data peer s = (reply, s')" "au_notify s = Some a" "au_notify s' \<noteq> Some a"
  shows "\<exists>sz. List.find (\<lambda>x. sz_zone x = sz_zone sz) (ts_secondaries (na_state a)) = Some sz \<and>
    sock_ip (sz_primary sz) = normalize_ip (sock_ip peer) \<and>
    au_notify s' = Some (a\<lparr>na_queue := na_queue a @ [sz_zone sz]\<rparr>)"
proof -
  obtain request where r: "msg_from_bytes h data = Some request" "m_op_code request = Op_Notify"
    "snd (handle_notify h request peer (Some a)) = au_notify s'"
    using assms
    by (cases "msg_from_bytes h data")
       (auto simp: handle_query_def Let_def split: if_splits op_code.splits list.splits prod.splits)
  obtain q qs where q: "m_queries request = q # qs"
    using r(3) assms(3) by (cases "m_queries request") (auto simp: handle_notify_def Let_def)
  let ?z = "to_lowercase (trim_end_matches CHR ''.'' (name_to_string h (q_name q)))"
  have acc: "Some (snd (accept (sock_ip peer) (name_to_string h (q_name q)) a)) = au_notify s'"
    using r(3) q by (simp add: handle_notify_def Let_def split_beta)
  then obtain p where p: "primary_for (na_state a) ?z = Some p" "p = normalize_ip (sock_ip peer)"
    "au_notify s' = Some (a\<lparr>na_queue := na_queue a @ [?z]\<rparr>)"
    using assms(3) by (auto simp: accept_def Let_def split: option.splits if_splits)
  have idem: "to_lowercase (trim_end_matches CHR ''.'' ?z) = ?z"
    by (simp add: trim_lowercase)
  obtain sz where sz: "List.find (\<lambda>x. sz_zone x = ?z) (ts_secondaries (na_state a)) = Some sz" "sock_ip (sz_primary sz) = p"
    using p(1) unfolding primary_for_def Let_def idem by blast
  then have "sz_zone sz = ?z"
    by (simp add: find_Some_iff) blast
  with sz p show ?thesis
    by metis
qed

definition ex_secondary :: auth_server where
  "ex_secondary = with_notify_acceptor
     \<lparr>na_state = \<lparr>ts_allow_transfer = [], ts_notify = [], ts_secondaries =
          [\<lparr>sz_zone = ''g10.lo'', sz_primary = SocketV4 0x0A000001 53, sz_refresh = 3600\<rparr>]\<rparr>, na_queue = []\<rparr> (auth_server_new db_open)"

theorem notify_only_from_primary_witness:
  "map_option na_queue (au_notify (snd (handle_query (ex_hickory [(ex_query ''G10.lo.'')\<lparr>m_op_code := Op_Notify\<rparr>]) 0 [0]
      (SocketV4 0x0A000001 40000) ex_secondary))) = Some [''g10.lo'']"
proof -
  let ?h = "ex_hickory [(ex_query ''G10.lo.'')\<lparr>m_op_code := Op_Notify\<rparr>]"
  obtain reply s' where run: "handle_query ?h 0 [0] (SocketV4 0x0A000001 40000) ex_secondary = (reply, s')"
    by fastforce
  obtain a where a: "au_notify ex_secondary = Some a" "na_queue a = []"
    "map sz_zone (ts_secondaries (na_state a)) = [''g10.lo'']"
    by (simp add: ex_secondary_def with_notify_acceptor_def)
  have "map_option (\<lambda>a. na_queue a = []) (au_notify (snd (handle_query ?h 0 [0] (SocketV4 0x0A000001 40000) ex_secondary))) =
      Some False"
    by code_simp
  then have "au_notify s' \<noteq> Some a"
    using run a(2) by auto
  from notify_only_from_primary [OF run a(1) this] obtain sz where sz:
    "List.find (\<lambda>x. sz_zone x = sz_zone sz) (ts_secondaries (na_state a)) = Some sz"
    "au_notify s' = Some (a\<lparr>na_queue := na_queue a @ [sz_zone sz]\<rparr>)"
    by blast
  from sz(1) have "sz \<in> set (ts_secondaries (na_state a))"
    unfolding find_Some_iff by (metis nth_mem)
  then have "sz_zone sz \<in> set (map sz_zone (ts_secondaries (na_state a)))"
    by simp
  then have "sz_zone sz = ''g10.lo''"
    unfolding a(3) by simp
  with sz(2) run a(2) show ?thesis
    by simp
qed

end
