(* ===== verification/Secondary.thy ===== *)
theory Secondary
  imports Auth_Server "HOL-Library.Multiset"
begin

text \<open>
  Mirrored zones: the agent of \<^verbatim>\<open>crates/microdns-auth/src/secondary.rs\<close> and the announcements of
  \<^verbatim>\<open>notify.rs\<close>, with the composition of the two ends of a transfer. What a primary answers, over UDP
  and over TCP, is a parameter; the agent's timer is the instant of each turn.
\<close>

section \<open>Serials\<close>

definition is_newer :: "u32 \<Rightarrow> u32 \<Rightarrow> bool" where
  "is_newer candidate current \<longleftrightarrow> candidate \<noteq> current \<and> candidate - current < 0x80000000"

definition soa_query :: "u16 \<Rightarrow> 'n \<Rightarrow> 'n message" where
  "soa_query query_id n =
     message_new\<lparr>m_id := query_id, m_type := Msg_Query, m_op_code := Op_Query, m_recursion_desired := False,
                 m_queries := [question_new n W_SOA]\<rparr>"

fun soa_serial :: "'n dns_rr \<Rightarrow> u32 option" where
  "soa_serial r = (case rr_data r of Some (D_SOA _ _ ser _ _ _ _) \<Rightarrow> Some ser | _ \<Rightarrow> None)"

fun first_some :: "('a \<Rightarrow> 'b option) \<Rightarrow> 'a list \<Rightarrow> 'b option" where
  "first_some f [] = None"
| "first_some f (x # xs) = (case f x of Some y \<Rightarrow> Some y | None \<Rightarrow> first_some f xs)"

definition remote_serial :: "'n hickory \<Rightarrow> u16 \<Rightarrow> (u8 list \<Rightarrow> u8 list option) \<Rightarrow> string \<Rightarrow> string + u32" where
  "remote_serial h query_id udp zone =
     (case Option.bind (name_from_utf8 h (trim_end_matches CHR ''.'' zone @ ''.'')) (\<lambda>n. msg_to_bytes h (soa_query query_id n)) of
        None \<Rightarrow> Inl ''bad zone name''
      | Some wire \<Rightarrow>
          (case udp wire of
             None \<Rightarrow> Inl ''no SOA response''
           | Some bs \<Rightarrow>
               (case msg_from_bytes h bs of
                  None \<Rightarrow> Inl ''malformed message''
                | Some response \<Rightarrow>
                    if m_response_code response \<noteq> NoError then Inl ''primary answered an error''
                    else (case first_some soa_serial (m_answers response @ m_name_servers response) of
                            Some ser \<Rightarrow> Inr ser
                          | None \<Rightarrow> Inl ''no SOA record in the response''))))"

section \<open>The agent\<close>

text \<open>What a primary answers at an address.\<close>

record primary =
  pr_udp :: "u8 list \<Rightarrow> u8 list option"
  pr_tcp :: "u8 list \<Rightarrow> stream option"

text \<open>Identifiers, fresh UUIDs and the time of one check; a turn of the agent has them for each zone.\<close>

record check_inputs =
  ci_query_id :: u16
  ci_rand_id :: u16
  ci_ids :: "nat \<Rightarrow> uuid"
  ci_now :: instant

definition check :: "'n hickory \<Rightarrow> (socket_addr \<Rightarrow> primary) \<Rightarrow> check_inputs \<Rightarrow> secondary_zone \<Rightarrow> db \<Rightarrow> db option" where
  "check h net ci zone d =
     (case remote_serial h (ci_query_id ci) (pr_udp (net (sz_primary zone))) (sz_zone zone) of
        Inl e \<Rightarrow> Some d
      | Inr remote \<Rightarrow>
          (case map_option (\<lambda>z. serial (z_soa z)) (get_zone_by_name d (sz_zone zone)) of
             Some local \<Rightarrow>
               if local = remote then Some d
               else map_option snd
                      (axfr_pull h (ci_rand_id ci) (ci_ids ci) (ci_now ci) (pr_tcp (net (sz_primary zone))) (sz_zone zone) d)
           | None \<Rightarrow>
               map_option snd
                 (axfr_pull h (ci_rand_id ci) (ci_ids ci) (ci_now ci) (pr_tcp (net (sz_primary zone))) (sz_zone zone) d)))"

record agent =
  ag_db :: db
  ag_due :: "string \<rightharpoonup> instant"

definition check_zone ::
  "'n hickory \<Rightarrow> (socket_addr \<Rightarrow> primary) \<Rightarrow> check_inputs \<Rightarrow> secondary_zone \<Rightarrow> agent \<Rightarrow> agent option" where
  "check_zone h net ci zone ag =
     map_option (\<lambda>d. ag\<lparr>ag_db := d, ag_due := (ag_due ag)(sz_zone zone \<mapsto> ci_now ci + sz_refresh zone)\<rparr>)
       (check h net ci zone (ag_db ag))"

text \<open>A burst of announcements: each zone once, in order, and only zones that are mirrored.\<close>

fun check_announced ::
  "'n hickory \<Rightarrow> (socket_addr \<Rightarrow> primary) \<Rightarrow> (string \<Rightarrow> check_inputs) \<Rightarrow> secondary_zone list \<Rightarrow> string list \<Rightarrow> agent \<Rightarrow> agent option" where
  "check_announced h net cis zs [] ag = Some ag"
| "check_announced h net cis zs (name # names) ag =
     (case List.find (\<lambda>z. sz_zone z = name) zs of
        None \<Rightarrow> check_announced h net cis zs names ag
      | Some zone \<Rightarrow> Option.bind (check_zone h net (cis name) zone ag) (check_announced h net cis zs names))"

definition on_notify ::
  "'n hickory \<Rightarrow> (socket_addr \<Rightarrow> primary) \<Rightarrow> (string \<Rightarrow> check_inputs) \<Rightarrow> transfer_settings \<Rightarrow> string list \<Rightarrow> agent \<Rightarrow> agent option" where
  "on_notify h net cis settings burst ag =
     check_announced h net cis (ts_secondaries settings) (remdups_adj (sort burst)) ag"

fun check_due ::
  "'n hickory \<Rightarrow> (socket_addr \<Rightarrow> primary) \<Rightarrow> instant \<Rightarrow> (string \<Rightarrow> check_inputs) \<Rightarrow> secondary_zone list \<Rightarrow> agent \<Rightarrow> agent option" where
  "check_due h net now cis [] ag = Some ag"
| "check_due h net now cis (zone # zs) ag =
     (case ag_due ag (sz_zone zone) of
        Some due \<Rightarrow>
          if due > now then check_due h net now cis zs ag
          else Option.bind (check_zone h net (cis (sz_zone zone)) zone ag) (check_due h net now cis zs)
      | None \<Rightarrow> Option.bind (check_zone h net (cis (sz_zone zone)) zone ag) (check_due h net now cis zs))"

definition on_tick ::
  "'n hickory \<Rightarrow> (socket_addr \<Rightarrow> primary) \<Rightarrow> instant \<Rightarrow> (string \<Rightarrow> check_inputs) \<Rightarrow> transfer_settings \<Rightarrow> agent \<Rightarrow> agent option" where
  "on_tick h net now cis settings ag =
     map_option (\<lambda>ag. ag\<lparr>ag_due := (ag_due ag) |` (sz_zone ` set (ts_secondaries settings))\<rparr>)
       (check_due h net now cis (ts_secondaries settings) ag)"

section \<open>Announcing\<close>

definition notify_message :: "u16 \<Rightarrow> 'n \<Rightarrow> 'n message" where
  "notify_message notify_id n =
     message_new\<lparr>m_id := notify_id, m_type := Msg_Query, m_op_code := Op_Notify, m_authoritative := True,
                 m_queries := [question_new n W_SOA]\<rparr>"

text \<open>The datagrams that are sent, with their targets.\<close>

definition notify_zone :: "'n hickory \<Rightarrow> u16 \<Rightarrow> string \<Rightarrow> socket_addr list \<Rightarrow> (socket_addr \<times> u8 list) list" where
  "notify_zone h notify_id zone targets =
     (if targets = [] then []
      else case Option.bind (name_from_str h (ensure_fqdn zone)) (\<lambda>n. msg_to_bytes h (notify_message notify_id n)) of
             None \<Rightarrow> []
           | Some wire \<Rightarrow> map (\<lambda>t. (t, wire)) targets)"

section \<open>Facts\<close>

subsection \<open>Records there and back\<close>

fun transferable_data :: "'n hickory \<Rightarrow> record_data \<Rightarrow> bool" where
  "transferable_data h (RD_CNAME n) \<longleftrightarrow> plain_name n \<and> name_from_str h (n @ ''.'') \<noteq> None"
| "transferable_data h (RD_MX _ n) \<longleftrightarrow> plain_name n \<and> name_from_str h (n @ ''.'') \<noteq> None"
| "transferable_data h (RD_NS n) \<longleftrightarrow> plain_name n \<and> name_from_str h (n @ ''.'') \<noteq> None"
| "transferable_data h (RD_PTR n) \<longleftrightarrow> plain_name n \<and> name_from_str h (n @ ''.'') \<noteq> None"
| "transferable_data h (RD_SRV s) \<longleftrightarrow> plain_name (srv_target s) \<and> name_from_str h (srv_target s @ ''.'') \<noteq> None"
| "transferable_data h (RD_TXT t) \<longleftrightarrow> utf8_valid (as_bytes t)"
| "transferable_data h (RD_CAA c) \<longleftrightarrow> (caa_flags c = 0 \<or> caa_flags c = 0x80) \<and> caa_tag c = ''issue'' \<and>
     caa_issue h (name_from_str h (caa_value c)) = caa_value c"
| "transferable_data h (RD_SOA _) \<longleftrightarrow> False"
| "transferable_data h _ \<longleftrightarrow> True"

definition wire_name :: "zone \<Rightarrow> dns_record \<Rightarrow> string" where
  "wire_name z r = (if r_name r = ''@'' then z_name z @ ''.'' else r_name r @ ''.'' @ z_name z @ ''.'')"

definition transferable :: "'n hickory \<Rightarrow> zone \<Rightarrow> dns_record \<Rightarrow> bool" where
  "transferable h z r \<longleftrightarrow> (r_name r = ''@'' \<or> plain_name (r_name r)) \<and> name_from_str h (wire_name z r) \<noteq> None \<and>
     transferable_data h (r_data r)"

lemma data_back:
  assumes "prints_names h" "transferable_data h rd"
  obtains w where "to_rdata h rd = Some w" "\<not> is_soa w" "data_from_rdata h w = Some rd"
proof -
  have lossy: "from_utf8_lossy (as_bytes t) = t" if "utf8_valid (as_bytes t)" for t
    using that by (simp add: from_utf8_lossy_def utf8_lossy_valid)
  have "\<exists>w. to_rdata h rd = Some w \<and> \<not> is_soa w \<and> data_from_rdata h w = Some rd"
  proof (cases rd)
    case (RD_CAA c)
    then show ?thesis
      using assms(2) by (cases c) (auto simp: is_soa_def)
  next
    case (RD_SRV s)
    then show ?thesis
      using assms by (cases s) (auto simp: is_soa_def prints_namesD)
  qed (use assms lossy in \<open>auto simp: is_soa_def prints_namesD\<close>)
  with that show ?thesis
    by blast
qed

lemma relative_back:
  assumes "plain_name zn" "name = ''@'' \<or> plain_name name"
    and "owner = (if name = ''@'' then zn @ ''.'' else name @ ''.'' @ zn @ ''.'')"
  shows "relative_name owner zn = Some name"
proof (cases "name = ''@''")
  case True
  with assms show ?thesis
    by (simp add: relative_name_def Let_def)
next
  case False
  then have plain: "plain_name (name @ ''.'' @ zn)"
    using assms(1,2) plain_name_join by blast
  have owner: "owner = (name @ ''.'' @ zn) @ ''.''"
    using False assms(3) by simp
  have "trim_end_matches CHR ''.'' owner = name @ ''.'' @ zn"
    unfolding owner by (rule trim_dot [OF plain])
  moreover have "strip_suffix owner (''.'' @ zn @ ''.'') = Some name"
    by (simp add: owner strip_suffix_Some)
  ultimately show ?thesis
    using assms(1) owner by (simp add: relative_name_def Let_def)
qed

lemma record_back:
  assumes "prints_names h" "plain_name (z_name z)" "transferable h z r"
  obtains a w where "axfr_record h z r = Some a" "rr_data a = Some w" "\<not> is_soa w" "rr_ttl a = r_ttl r" "wf_rr a"
    "from_rdata h w (rr_name a) (z_name z) = Some (r_name r, r_data r)"
proof -
  obtain n where n: "name_from_str h (wire_name z r) = Some n"
    using assms(3) by (auto simp: transferable_def)
  obtain w where w: "to_rdata h (r_data r) = Some w" "\<not> is_soa w" "data_from_rdata h w = Some (r_data r)"
    using data_back [OF assms(1)] assms(3) unfolding transferable_def by metis
  have name: "r_name r = ''@'' \<or> plain_name (r_name r)"
    using assms(3) by (simp add: transferable_def)
  have "name_to_string h n = wire_name z r"
  proof (cases "r_name r = ''@''")
    case True
    with n prints_namesD [OF assms(1,2), of n] show ?thesis
      by (simp add: wire_name_def)
  next
    case False
    then have "plain_name (r_name r @ ''.'' @ z_name z)"
      using name assms(2) plain_name_join by blast
    with n False prints_namesD [OF assms(1), of "r_name r @ ''.'' @ z_name z" n] show ?thesis
      by (simp add: wire_name_def)
  qed
  then have rel: "relative_name (name_to_string h n) (z_name z) = Some (r_name r)"
    using relative_back [OF assms(2) name] by (simp add: wire_name_def)
  have "axfr_record h z r = Some (rr_from_rdata n (r_ttl r) w)"
    using n w(1) by (simp add: axfr_record_def Let_def wire_name_def)
  from that [OF this] w rel show ?thesis
    by (simp add: rr_from_rdata_def from_rdata_def wf_rr_def)
qed

lemma take_body:
  assumes "prints_names h" "plain_name (z_name z)" "\<forall>r \<in> set rs. transferable h z r"
    and "int (length (pl_parsed st) + length rs) \<le> MAX_AXFR_RECORDS"
  shows "take_answers h (z_name z) (List.map_filter (axfr_record h z) rs) st =
    Inr (st\<lparr>pl_parsed := pl_parsed st @ map (\<lambda>r. (r_name r, r_data r, r_ttl r)) rs\<rparr>)"
  using assms(3,4)
proof (induction rs arbitrary: st)
  case Nil
  then show ?case
    by (simp add: List.map_filter_simps)
next
  case (Cons r rs)
  obtain a w where a: "axfr_record h z r = Some a" "rr_data a = Some w" "\<not> is_soa w" "rr_ttl a = r_ttl r"
    "from_rdata h w (rr_name a) (z_name z) = Some (r_name r, r_data r)"
    using record_back [OF assms(1,2)] Cons.prems(1) by (metis list.set_intros(1))
  have "take_answers h (z_name z) (a # List.map_filter (axfr_record h z) rs) st =
      take_answers h (z_name z) (List.map_filter (axfr_record h z) rs)
        (st\<lparr>pl_parsed := pl_parsed st @ [(r_name r, r_data r, r_ttl r)]\<rparr>)"
    unfolding take_answers_data [OF a(2,3)] using a(4,5) Cons.prems(2) by simp
  also have "\<dots> = Inr (st\<lparr>pl_parsed := pl_parsed st @ map (\<lambda>r. (r_name r, r_data r, r_ttl r)) (r # rs)\<rparr>)"
    using Cons.prems by (subst Cons.IH) simp_all
  finally show ?case
    using a(1) by (simp add: List.map_filter_simps)
qed

definition soa_ok :: "'n hickory \<Rightarrow> zone \<Rightarrow> bool" where
  "soa_ok h z \<longleftrightarrow> (\<forall>s \<in> {z_name z, mname (z_soa z), rname (z_soa z)}. plain_name s \<and> name_from_str h (s @ ''.'') \<noteq> None)"

lemma soa_back:
  assumes "prints_names h" "soa_ok h z"
  obtains soa m r where "build_soa_record h z = Some soa" "wf_rr soa" "rr_ttl soa = z_default_ttl z"
    "rr_data soa = Some (D_SOA m r (serial (z_soa z)) (refresh (z_soa z)) (retry (z_soa z)) (expire (z_soa z)) (minimum (z_soa z)))"
    "trim_end_matches CHR ''.'' (name_to_string h m) = mname (z_soa z)"
    "trim_end_matches CHR ''.'' (name_to_string h r) = rname (z_soa z)"
proof -
  obtain n m r where n: "name_from_str h (z_name z @ ''.'') = Some n" "name_from_str h (mname (z_soa z) @ ''.'') = Some m"
    "name_from_str h (rname (z_soa z) @ ''.'') = Some r"
    and plain: "plain_name (z_name z)" "plain_name (mname (z_soa z))" "plain_name (rname (z_soa z))"
    using assms(2) by (auto simp: soa_ok_def)
  let ?rd = "D_SOA m r (serial (z_soa z)) (refresh (z_soa z)) (retry (z_soa z)) (expire (z_soa z)) (minimum (z_soa z))"
  have "build_soa_record h z = Some (rr_from_rdata n (z_default_ttl z) ?rd)"
    using n plain by (simp add: build_soa_record_def rr_from_rdata_def)
  moreover have "name_to_string h m = mname (z_soa z) @ ''.''" "name_to_string h r = rname (z_soa z) @ ''.''"
    using prints_namesD [OF assms(1)] n plain by blast+
  ultimately show ?thesis
    using that plain by (simp add: rr_from_rdata_def wf_rr_def)
qed

text \<open>What the receiver makes of the records of a whole zone.\<close>

lemma take_zone:
  assumes "prints_names h" "soa_ok h z" "\<forall>r \<in> set rs. transferable h z r" "int (length rs) \<le> MAX_AXFR_RECORDS"
    and "build_soa_record h z = Some soa"
  shows "\<exists>st. take_answers h (z_name z) (soa # List.map_filter (axfr_record h z) rs @ [soa]) pull_start = Inr st \<and>
    pl_soa_count st = 2 \<and> pl_soa st = Some (z_soa z) \<and> pl_default_ttl st = z_default_ttl z \<and>
    pl_parsed st = map (\<lambda>r. (r_name r, r_data r, r_ttl r)) rs"
proof -
  obtain m r where data: "rr_data soa = Some (D_SOA m r (serial (z_soa z)) (refresh (z_soa z)) (retry (z_soa z)) (expire (z_soa z)) (minimum (z_soa z)))"
    and soa: "rr_ttl soa = z_default_ttl z" "trim_end_matches CHR ''.'' (name_to_string h m) = mname (z_soa z)"
    "trim_end_matches CHR ''.'' (name_to_string h r) = rname (z_soa z)"
    using soa_back [OF assms(1,2)] assms(5) by (metis option.inject)
  have plain: "plain_name (z_name z)"
    using assms(2) by (simp add: soa_ok_def)
  let ?saw = "saw_soa h (rr_ttl soa) m r (serial (z_soa z)) (refresh (z_soa z)) (retry (z_soa z)) (expire (z_soa z)) (minimum (z_soa z))"
  define st1 where "st1 = ?saw pull_start"
  define st2 where "st2 = st1\<lparr>pl_parsed := map (\<lambda>r. (r_name r, r_data r, r_ttl r)) rs\<rparr>"
  have st1: "pl_soa_count st1 = 1" "pl_parsed st1 = []" "pl_soa st1 = Some (z_soa z)" "pl_default_ttl st1 = z_default_ttl z"
    using soa by (simp_all add: st1_def saw_soa_def pull_start_def Let_def)
  have "take_answers h (z_name z) (List.map_filter (axfr_record h z) rs) st1 = Inr st2"
    using take_body [OF assms(1) plain assms(3), of st1] assms(4) st1 by (simp add: st2_def)
  moreover have "pl_soa_count st2 = 1"
    using st1 by (simp add: st2_def)
  moreover from this have last: "take_answers h (z_name z) [soa] st2 = Inr (?saw st2)"
    unfolding take_answers_soa [OF data] by simp
  ultimately have "take_answers h (z_name z) (List.map_filter (axfr_record h z) rs @ [soa]) st1 = Inr (?saw st2)"
    using st1 by (simp add: take_answers_append)
  then have "take_answers h (z_name z) (soa # List.map_filter (axfr_record h z) rs @ [soa]) pull_start = Inr (?saw st2)"
    using st1(1) unfolding take_answers_soa [OF data] st1_def [symmetric] by simp
  then show ?thesis
    using st1 by (auto simp: st2_def saw_soa_def Let_def)
qed

subsection \<open>The import\<close>

definition ids_fresh :: "(nat \<Rightarrow> uuid) \<Rightarrow> nat \<Rightarrow> db \<Rightarrow> bool" where
  "ids_fresh ids n d \<longleftrightarrow> inj_on ids {..n} \<and>
     (\<forall>i \<le> n. is_uuid (ids i) \<and> get_record d (ids i) = None \<and> get_zone d (ids i) = None)"

lemma map_enumerate_snd: "map (\<lambda>(i, p). g p) (enumerate n ps) = map g ps"
  by (induction ps arbitrary: n) simp_all

lemma pulled_records:
  fixes zid :: uuid and now :: instant
  assumes "inj_on ids {..length ps}"
  defines "rs \<equiv> map (\<lambda>(i, p). pulled_record zid now (ids (Suc i)) p) (enumerate 0 ps)"
  shows "distinct (map r_id rs)" "r \<in> set rs \<Longrightarrow> r_zone_id r = zid \<and> r_enabled r \<and> (\<exists>i \<le> length ps. r_id r = ids i)"
    "map (\<lambda>r. (r_name r, r_data r, r_ttl r)) rs = ps"
proof -
  have ids: "map r_id rs = map (\<lambda>i. ids (Suc i)) [0..<length ps]"
    by (simp add: rs_def enumerate_eq_zip zip_map_fst_snd comp_def split_beta pulled_record_def map_fst_zip_take
        flip: map_map [of "\<lambda>i. ids (Suc i)" fst, unfolded comp_def])
  have "inj_on (\<lambda>i. ids (Suc i)) {0..<length ps}"
    by (rule inj_onI) (use inj_onD [OF assms(1), of "Suc _" "Suc _"] in auto)
  then show "distinct (map r_id rs)"
    unfolding ids by (simp add: distinct_map)
  show "r \<in> set rs \<Longrightarrow> r_zone_id r = zid \<and> r_enabled r \<and> (\<exists>i \<le> length ps. r_id r = ids i)"
    by (auto simp: rs_def pulled_record_def in_set_enumerate_eq intro!: exI [of _ "Suc _"])
  have "map (\<lambda>r. (r_name r, r_data r, r_ttl r)) rs = map (\<lambda>(i, p). p) (enumerate 0 ps)"
    by (auto simp: rs_def pulled_record_def)
  then show "map (\<lambda>r. (r_name r, r_data r, r_ttl r)) rs = ps"
    using map_enumerate_snd [of id 0 ps] by simp
qed

lemma import_result:
  assumes "db_reachable d" "ids_fresh ids (length (pl_parsed st)) d"
  shows "\<exists>z d'. import_zone ids now zn soa st d =
        (Inr \<lparr>tr_zone_name = zn, tr_records_imported = length (pl_parsed st), tr_serial = serial soa\<rparr>, d') \<and>
      db_reachable d' \<and> get_zone_by_name d' zn = Some z \<and> z_soa z = soa \<and> z_default_ttl z = pl_default_ttl st \<and>
      mset (map (\<lambda>r. (r_name r, r_data r, r_ttl r)) (list_records d' (z_id z))) = mset (pl_parsed st) \<and>
      (\<forall>r \<in> set (list_records d' (z_id z)). r_enabled r) \<and>
      {r \<in> rows d'. r_zone_id r \<noteq> z_id z} = {r \<in> rows d. r_zone_id r \<noteq> z_id z}"
proof -
  define z where "z = pulled_zone (ids 0) now zn soa (pl_default_ttl st) (get_zone_by_name d zn)"
  define rs where "rs = map (\<lambda>(i, p). pulled_record (z_id z) now (ids (Suc i)) p) (enumerate 0 (pl_parsed st))"
  note fresh = assms(2) [unfolded ids_fresh_def]
  note prs = pulled_records [OF conjunct1 [OF fresh], where zid = "z_id z" and now = now, folded rs_def]
  have fields: "z_name z = zn" "z_soa z = soa" "z_default_ttl z = pl_default_ttl st"
    by (simp_all add: z_def pulled_zone_def)
  have own: "z_id z' = z_id z" if "named (abs_db d) zn z'" for z'
    using that named_get [OF assms(1), of zn z'] by (simp add: z_def pulled_zone_def)
  have uuid: "is_uuid (z_id z)"
  proof (cases "get_zone_by_name d zn")
    case None
    then show ?thesis
      using fresh by (simp add: z_def pulled_zone_def)
  next
    case (Some z')
    then have "named (abs_db d) zn z'"
      using named_get [OF assms(1)] by blast
    then have "is_uuid (z_id z')"
      using zone_ids [OF assms(1)] unfolding named_def by metis
    then show ?thesis
      using Some by (simp add: z_def pulled_zone_def)
  qed
  have up: "op_ok (UpsertZone z) (abs_db d)"
    using uuid own fields(1) by (simp only: op_ok.simps) blast
  let ?d1 = "snd (upsert_zone z d)"
  have r1: "db_reachable ?d1" and a1: "abs_db ?d1 = (abs_db d)\<lparr>s_zones := (s_zones (abs_db d))(z_id z \<mapsto> z)\<rparr>"
    using run_op_step [OF assms(1) up] run_op_sim [OF assms(1) up, symmetric] by simp_all
  have rep: "op_ok (ReplaceZone (z_id z) rs) (abs_db ?d1)"
  proof -
    have "\<forall>r \<in> set rs. is_uuid (r_id r) \<and> r_id r \<notin> r_id ` s_rows (abs_db d)"
      using prs(2) fresh rows_get_None [OF assms(1)] by metis
    then show ?thesis
      using uuid prs(1,2) by (simp add: a1) (metis imageI)
  qed
  let ?d2 = "snd (replace_zone_records (z_id z) rs ?d1)"
  have r2: "db_reachable ?d2"
    and all2: "abs_db ?d2 = \<lparr>s_zones = (s_zones (abs_db d))(z_id z \<mapsto> z),
      s_rows = {r \<in> s_rows (abs_db d). r_zone_id r \<noteq> z_id z} \<union> set rs\<rparr>"
    using run_op_step [OF r1 rep] run_op_sim [OF r1 rep, symmetric] by (simp_all add: a1)
  note a2 = arg_cong [OF all2, where f = s_rows, simplified] arg_cong [OF all2, where f = s_zones, simplified]
  have zone: "get_zone_by_name ?d2 zn = Some z"
    using named_get [OF r2] by (simp add: named_def a2 fields(1))
  have rows2: "rows ?d2 = {r \<in> rows d. r_zone_id r \<noteq> z_id z} \<union> set rs"
    using a2(1) by (simp add: abs_db_def)
  then have listed: "set (list_records ?d2 (z_id z)) = set rs"
    using list_records_iff [OF reachable_rec_inv [OF r2] uuid] prs(2) by auto
  have "distinct rs"
    using prs(1) by (simp add: distinct_map)
  then have "mset (list_records ?d2 (z_id z)) = mset rs"
    using listed set_eq_iff_mset_eq_distinct [OF list_records_distinct [OF r2]] by blast
  from arg_cong [OF this, of "image_mset (\<lambda>r. (r_name r, r_data r, r_ttl r))"]
  have "mset (map (\<lambda>r. (r_name r, r_data r, r_ttl r)) (list_records ?d2 (z_id z))) = mset (pl_parsed st)"
    unfolding prs(3) [symmetric] by simp
  moreover have "import_zone ids now zn soa st d =
      (Inr \<lparr>tr_zone_name = zn, tr_records_imported = length (pl_parsed st), tr_serial = serial soa\<rparr>, ?d2)"
  proof -
    have "fst (upsert_zone z d) = Inr ()" "fst (replace_zone_records (z_id z) rs ?d1) = Inr ()"
      by (simp_all add: upsert_zone_def replace_zone_records_def Let_def)
    then show ?thesis
      by (cases "upsert_zone z d"; cases "replace_zone_records (z_id z) rs ?d1")
        (simp add: import_zone_def bindE_apply thenE_apply getE_def Let_def flip: z_def rs_def)
  qed
  moreover have "{r \<in> rows ?d2. r_zone_id r \<noteq> z_id z} = {r \<in> rows d. r_zone_id r \<noteq> z_id z}"
    using rows2 prs(2) by auto
  ultimately show ?thesis
    using r2 zone listed prs(2) fields(2,3) by blast
qed

subsection \<open>Both ends\<close>

text \<open>The length prefix is two bytes, and a message has a header of twelve.\<close>

definition fits_frame :: "u8 list \<Rightarrow> bool" where
  "fits_frame w \<longleftrightarrow> w \<noteq> [] \<and> length w < 65536"

definition has_header :: "'n hickory \<Rightarrow> bool" where
  "has_header h \<longleftrightarrow> (\<forall>m w. msg_to_bytes h m = Some w \<longrightarrow> w \<noteq> [])"

lemma axfr_served:
  assumes "prints_names h" "decodes h" "plain_name zn" "name_from_str h (zn @ ''.'') = Some n"
    and "msg_to_bytes h (axfr_query rid n) = Some wire" "fits_frame wire"
    and "transfer_allowed peer (ts_allow_transfer (au_transfer s))"
    and "build_axfr_records h (au_db s) zn = Some rrs"
  shows "handle_tcp_connection h now (stream_of (frame wire)) peer s = (send_chunks h (axfr_query rid n) (axfr_chunks rrs), s)"
proof -
  have "msg_from_bytes h wire = Some (axfr_query rid n)"
    using decodesD [OF assms(2) _ assms(5)] by (simp add: wf_message_def axfr_query_def message_new_def)
  moreover have "read_u16 (stream_of (frame wire)) 0 = Some (of_nat (length wire))"
    "read_exact (stream_of (frame wire)) 2 (length wire) = Some wire"
    using read_frame [of "frame wire" "[]" wire "[]"] assms(6) by (simp_all add: fits_frame_def numeral_2_eq_2)
  moreover have "unat (of_nat (length wire) :: u16) = length wire" "(of_nat (length wire) :: u16) \<noteq> 0"
    using assms(6) unat_length [of wire] by (auto simp: fits_frame_def)
  moreover have "trim_end_matches CHR ''.'' (name_to_string h n) = zn"
    using prints_namesD [OF assms(1,3,4)] trim_dot [OF assms(3)] by simp
  ultimately show ?thesis
    using assms(7,8) by (simp add: handle_tcp_connection_def axfr_query_def message_new_def question_new_def Let_def)
qed

lemma axfr_built:
  assumes "soa_ok h z" "find_zone_for_fqdn d (z_name z) = Some z" "build_soa_record h z = Some soa"
  shows "build_axfr_records h d (z_name z) =
    Some (soa # List.map_filter (axfr_record h z) (list_records d (z_id z)) @ [soa])"
proof -
  have "trim_end_matches CHR ''.'' (z_name z) = z_name z"
    using assms(1) by (simp add: soa_ok_def)
  with assms(2,3) show ?thesis
    by (simp add: build_axfr_records_def)
qed

lemma axfr_wf:
  assumes "prints_names h" "soa_ok h z" "\<forall>r \<in> set rs. transferable h z r" "build_soa_record h z = Some soa"
  shows "\<forall>a \<in> set (soa # List.map_filter (axfr_record h z) rs @ [soa]). wf_rr a"
proof -
  have plain: "plain_name (z_name z)"
    using assms(2) by (simp add: soa_ok_def)
  have "wf_rr soa"
    using soa_back [OF assms(1,2)] assms(4) by (metis option.inject)
  moreover have "wf_rr a" if "axfr_record h z r = Some a" "r \<in> set rs" for a r
    using record_back [OF assms(1) plain] assms(3) that by (metis option.inject)
  ultimately show ?thesis
    by (auto simp: List.map_filter_def)
qed

lemma pull_served:
  assumes "decodes h" "has_header h" "send_chunks h request (axfr_chunks rrs) = (out, True)"
    and "\<forall>a \<in> set rrs. wf_rr a" "take_answers h zn rrs pull_start = Inr st" "2 \<le> pl_soa_count st"
    and "int (length out) \<le> MAX_AXFR_BYTES"
  shows "\<exists>p n. pull_loop h zn (stream_of out) pull_start = Some (Inr (at_pos p n st))"
proof -
  let ?ms = "map (axfr_message request) (axfr_chunks rrs)"
  obtain ws where ws: "list_all2 (\<lambda>m w. msg_to_bytes h m = Some w \<and> length w < 65536) ?ms ws" "out = concat (map frame ws)"
    using send_chunks_ok [OF assms(3)] by blast
  have frames: "list_all2 (\<lambda>m w. msg_to_bytes h m = Some w \<and> w \<noteq> [] \<and> length w < 65536) ?ms ws"
    using ws(1) assms(2) by (auto elim!: list_all2_mono simp: has_header_def)
  have answers: "concat (map m_answers ?ms) = rrs"
    by (simp add: comp_def axfr_message_def concat_chunks)
  have "set c \<subseteq> set rrs" if "c \<in> set (axfr_chunks rrs)" for c
    using that concat_chunks [of rrs] by (metis set_concat UN_upper)
  then have wf: "\<forall>m \<in> set ?ms. wf_message m \<and> m_response_code m = NoError"
    using assms(4) by (auto simp: wf_message_def axfr_message_def message_new_def list_all_iff)
  have "length (concat ws) \<le> length out"
    unfolding ws(2) by (induction ws) (simp_all add: frame_def)
  then have "pl_total_bytes pull_start + int (length (concat ws)) \<le> MAX_AXFR_BYTES"
    using assms(7) by (simp add: pull_start_def)
  moreover have "take_answers h zn (concat (map m_answers ?ms)) pull_start = Inr st"
    unfolding answers by (rule assms(5))
  ultimately show ?thesis
    using pull_frames [OF assms(1) frames wf, of zn pull_start st "[]" out "[]"] assms(6) ws(2) by (simp add: pull_start_def)
qed

lemma import_at_pos: "import_zone ids now zn soa (at_pos p n st) = import_zone ids now zn soa st"
  by (simp add: import_zone_def)

section \<open>Properties\<close>


text \<open>The small database is pulled by a host of the allowed network into an empty one.\<close>

definition ex_primary :: auth_server where
  "ex_primary = with_allow_transfer [''10.0.0.0/8''] (auth_server_new ex_db)"

definition ex_transfer_peer :: socket_addr where
  "ex_transfer_peer = SocketV4 0x0A000002 40000"

definition ex_rrs :: "string dns_rr list" where
  "ex_rrs = the (build_axfr_records (ex_hickory []) ex_db ''g10.lo'')"

definition ex_wire :: "string hickory" where
  "ex_wire = ex_hickory [axfr_query 7 ''g10.lo.'', axfr_message (axfr_query 7 ''g10.lo.'') ex_rrs]"

definition ex_fresh_ids :: "nat \<Rightarrow> uuid" where
  "ex_fresh_ids i = (if i = 0 then ex_zid else if i = 1 then ex_rid1 else ex_rid2)"

lemma ex_wire_laws: "prints_names ex_wire" "decodes ex_wire" "has_header ex_wire"
  unfolding ex_wire_def by (rule ex_hickory_laws(1), rule ex_hickory_laws(3), simp, simp add: has_header_def ex_hickory_def)

lemma ex_fresh_ids_ok: "ids_fresh ex_fresh_ids (Suc (Suc 0)) db_open"
proof -
  have "ex_zid \<noteq> ex_rid1" "ex_zid \<noteq> ex_rid2" "ex_rid1 \<noteq> ex_rid2"
    by code_simp+
  then have "inj_on ex_fresh_ids {..Suc (Suc 0)}"
    by (auto simp: atMost_Suc ex_fresh_ids_def)
  moreover have "is_uuid (ex_fresh_ids i)" for i
    using ex_uuids by (simp add: ex_fresh_ids_def)
  ultimately show ?thesis
    by (simp add: ids_fresh_def get_record_def get_zone_def db_open_def tbl_get_def tbl_empty_def)
qed

definition ex_served_ok :: bool where
  "ex_served_ok \<longleftrightarrow> find_zone_for_fqdn (au_db ex_primary) ''g10.lo'' = Some ex_zone \<and> soa_ok ex_wire ex_zone \<and>
     list_records (au_db ex_primary) ex_zid = [ex_star, ex_www] \<and> list_all (transferable ex_wire ex_zone) [ex_star, ex_www] \<and>
     name_from_str ex_wire ''g10.lo.'' = Some ''g10.lo.'' \<and> msg_to_bytes ex_wire (axfr_query 7 ''g10.lo.'') = Some [0] \<and>
     transfer_allowed ex_transfer_peer (ts_allow_transfer (au_transfer ex_primary)) \<and>
     build_axfr_records ex_wire (au_db ex_primary) ''g10.lo'' = Some ex_rrs \<and> axfr_chunks ex_rrs = [ex_rrs] \<and>
     msg_to_bytes ex_wire (axfr_message (axfr_query 7 ''g10.lo.'') ex_rrs) = Some [1]"

lemma ex_served: ex_served_ok
  by code_simp


text \<open>
  Serials are compared modulo 2^32 as RFC 1982 says: one serial is newer than another when it is
  reached from it by adding less than 2^31, so the order survives the wrap-around and two different
  serials that are not exactly 2^31 apart are always ordered one way and not both.
\<close>

theorem is_newer_serial_arithmetic:
  "(is_newer a b \<longleftrightarrow> (\<exists>k. 0 < k \<and> k < 2 ^ 31 \<and> a = b + of_nat k)) \<and>
   (is_newer a b \<noteq> is_newer b a \<longleftrightarrow> a \<noteq> b \<and> a - b \<noteq> 0x80000000)"
proof
  have newer: "is_newer x y \<longleftrightarrow> x \<noteq> y \<and> unat (x - y) < 2 ^ 31" for x y
    by (simp add: is_newer_def word_less_nat_alt)
  show "is_newer a b \<longleftrightarrow> (\<exists>k. 0 < k \<and> k < 2 ^ 31 \<and> a = b + of_nat k)"
  proof
    assume "is_newer a b"
    then show "\<exists>k. 0 < k \<and> k < 2 ^ 31 \<and> a = b + of_nat k"
      by (intro exI [of _ "unat (a - b)"]) (auto simp: newer unat_gt_0)
  next
    assume "\<exists>k. 0 < k \<and> k < 2 ^ 31 \<and> a = b + of_nat k"
    then obtain k where k: "0 < k" "k < 2 ^ 31" "a = b + of_nat k"
      by blast
    then have "unat (a - b) = k"
      by (simp add: unat_of_nat)
    with k show "is_newer a b"
      by (auto simp: newer)
  qed
  show "is_newer a b \<noteq> is_newer b a \<longleftrightarrow> a \<noteq> b \<and> a - b \<noteq> 0x80000000"
  proof (cases "a = b")
    case False
    have "unat (b - a) = 2 ^ 32 - unat (a - b)"
      using False unsigned_less [of a, where 'a = nat] unsigned_less [of b, where 'a = nat]
      by (auto simp: unat_sub_if' word_unat_eq_iff)
    moreover have "a - b = 0x80000000 \<longleftrightarrow> unat (a - b) = 2 ^ 31"
      by (simp add: word_unat_eq_iff)
    ultimately show ?thesis
      using False unsigned_less [of "a - b", where 'a = nat] unfolding newer by auto
  qed (simp add: newer)
qed

end
