(* ===== verification/Recursor_Cache.thy ===== *)
theory Recursor_Cache
  imports Transfer_Acl Dns_Proto "HOL-Library.AList"
begin

text \<open>
  The response cache of the recursive resolver, \<^verbatim>\<open>crates/microdns-recursor/src/cache.rs\<close>, and its
  table of forward zones, \<^verbatim>\<open>forward.rs\<close>. The concurrent map is an association list with one
  entry per key; the clock is an argument. The locale \<open>response_cache\<close> is what the resolver relies
  on; the cache is also compared with a plain log of what was put in.
\<close>

section \<open>The cache\<close>

record cache_entry =
  ce_bytes :: "u8 list"
  ce_inserted_at :: instant
  ce_ttl :: instant

definition is_expired :: "instant \<Rightarrow> cache_entry \<Rightarrow> bool" where
  "is_expired now e \<longleftrightarrow> max 0 (now - ce_inserted_at e) \<ge> ce_ttl e"

record cache_key =
  ck_name :: string
  ck_rtype :: u16
  ck_rclass :: u16

definition from_query :: "string \<Rightarrow> u16 \<Rightarrow> u16 \<Rightarrow> cache_key" where
  "from_query name rtype rclass = \<lparr>ck_name = to_lowercase name, ck_rtype = rtype, ck_rclass = rclass\<rparr>"

record dns_cache =
  dc_entries :: "(cache_key \<times> cache_entry) list"
  dc_max_size :: nat
  dc_hit_count :: u64
  dc_miss_count :: u64

definition cache_new :: "nat \<Rightarrow> dns_cache" where
  "cache_new max_size = \<lparr>dc_entries = [], dc_max_size = max_size, dc_hit_count = 0, dc_miss_count = 0\<rparr>"

definition cache_get :: "instant \<Rightarrow> cache_key \<Rightarrow> dns_cache \<Rightarrow> u8 list option \<times> dns_cache" where
  "cache_get now key c =
     (case map_of (dc_entries c) key of
        None \<Rightarrow> (None, c\<lparr>dc_miss_count := dc_miss_count c + 1\<rparr>)
      | Some e \<Rightarrow>
          if is_expired now e
          then (None, c\<lparr>dc_entries := AList.delete key (dc_entries c), dc_miss_count := dc_miss_count c + 1\<rparr>)
          else (Some (ce_bytes e), c\<lparr>dc_hit_count := dc_hit_count c + 1\<rparr>))"

definition evict_expired :: "instant \<Rightarrow> dns_cache \<Rightarrow> dns_cache" where
  "evict_expired now c = c\<lparr>dc_entries := filter (\<lambda>(_, e). \<not> is_expired now e) (dc_entries c)\<rparr>"

definition cache_len :: "dns_cache \<Rightarrow> nat" where
  "cache_len c = length (dc_entries c)"

definition cache_insert :: "instant \<Rightarrow> cache_key \<Rightarrow> u8 list \<Rightarrow> u32 \<Rightarrow> dns_cache \<Rightarrow> dns_cache" where
  "cache_insert now key bytes ttl_secs c =
     (if ttl_secs = 0 then c
      else let c = (if cache_len c \<ge> dc_max_size c then evict_expired now c else c)
           in if cache_len c \<ge> dc_max_size c then c
              else c\<lparr>dc_entries := AList.update key
                       \<lparr>ce_bytes = bytes, ce_inserted_at = now, ce_ttl = seconds (uint ttl_secs)\<rparr> (dc_entries c)\<rparr>)"

definition cache_clear :: "dns_cache \<Rightarrow> dns_cache" where
  "cache_clear c = c\<lparr>dc_entries := [], dc_hit_count := 0, dc_miss_count := 0\<rparr>"

definition min_ttl_from_response :: "'n message \<Rightarrow> u32" where
  "min_ttl_from_response m = (case map rr_ttl (m_answers m) of [] \<Rightarrow> 0 | t # ts \<Rightarrow> foldl min t ts)"

section \<open>Forward zones\<close>

record forward_zone =
  fz_name :: string
  fz_servers :: "socket_addr list"

type_synonym forward_table = "forward_zone list"

definition server_addr :: "string \<Rightarrow> socket_addr option" where
  "server_addr a = (if contains_char CHR '':'' a then parse_socket a else parse_socket (a @ '':53''))"

definition forward_zone_of :: "string \<Rightarrow> string list \<Rightarrow> forward_zone option" where
  "forward_zone_of name addrs =
     (let servers = List.map_filter server_addr addrs
      in if servers = [] then None
         else Some \<lparr>fz_name = to_lowercase (trim_end_matches CHR ''.'' name), fz_servers = servers\<rparr>)"

text \<open>A stable sort, longest names first; the map of the configuration is given in the order it is iterated.\<close>

definition by_length :: "forward_zone list \<Rightarrow> forward_table" where
  "by_length zs = sort_key (\<lambda>z. - int (length (fz_name z))) zs"

definition from_config :: "(string \<times> string list) list \<Rightarrow> forward_table" where
  "from_config config = by_length (List.map_filter (\<lambda>(name, addrs). forward_zone_of name addrs) config)"

definition from_forwarders :: "dns_forwarder list \<Rightarrow> forward_table" where
  "from_forwarders fwds = by_length (List.map_filter (\<lambda>f. forward_zone_of (fw_zone f) (fw_servers f)) fwds)"

definition covers :: "string \<Rightarrow> forward_zone \<Rightarrow> bool" where
  "covers fqdn z \<longleftrightarrow> fqdn = fz_name z \<or> ends_with fqdn (''.'' @ fz_name z)"

definition table_lookup :: "forward_table \<Rightarrow> string \<Rightarrow> socket_addr list option" where
  "table_lookup t fqdn =
     (let fqdn = to_lowercase (trim_end_matches CHR ''.'' fqdn)
      in map_option fz_servers (List.find (covers fqdn) t))"

section \<open>What a cache promises\<close>

text \<open>
  The log of a cache: what was put in, when, and when it was cleared, latest first. A lookup in the
  log finds the last insertion of the key after the last clearing.
\<close>

datatype cache_event = Put instant cache_key "u8 list" u32 | Got instant cache_key | Cleared

fun cache_apply :: "cache_event \<Rightarrow> dns_cache \<Rightarrow> dns_cache" where
  "cache_apply (Put t k b ttl) c = cache_insert t k b ttl c"
| "cache_apply (Got t k) c = snd (cache_get t k c)"
| "cache_apply Cleared c = cache_clear c"

fun cache_run :: "cache_event list \<Rightarrow> nat \<Rightarrow> dns_cache" where
  "cache_run [] n = cache_new n"
| "cache_run (e # log) n = cache_apply e (cache_run log n)"

fun log_find :: "cache_event list \<Rightarrow> cache_key \<Rightarrow> (instant \<times> u8 list \<times> u32) option" where
  "log_find [] k = None"
| "log_find (Put t k' b ttl # log) k = (if k = k' \<and> ttl \<noteq> 0 then Some (t, b, ttl) else log_find log k)"
| "log_find (Got _ _ # log) k = log_find log k"
| "log_find (Cleared # log) k = None"

definition log_get :: "cache_event list \<Rightarrow> instant \<Rightarrow> cache_key \<Rightarrow> u8 list option" where
  "log_get log now k =
     (case log_find log k of
        Some (t, b, ttl) \<Rightarrow> if now - t < seconds (uint ttl) then Some b else None
      | None \<Rightarrow> None)"

fun log_times :: "cache_event list \<Rightarrow> instant list" where
  "log_times [] = []"
| "log_times (Put t _ _ _ # log) = t # log_times log"
| "log_times (Got t _ # log) = t # log_times log"
| "log_times (Cleared # log) = log_times log"

fun log_keys :: "cache_event list \<Rightarrow> cache_key set" where
  "log_keys [] = {}"
| "log_keys (Put _ k _ _ # log) = insert k (log_keys log)"
| "log_keys (_ # log) = log_keys log"

section \<open>Facts\<close>

subsection \<open>Entries\<close>

lemma is_expired_mono: "is_expired t e \<Longrightarrow> t \<le> now \<Longrightarrow> is_expired now e"
  by (auto simp: is_expired_def)

lemma seconds_pos: "ttl \<noteq> 0 \<Longrightarrow> 0 < seconds (uint ttl)" for ttl :: u32
  using unsigned_eq_0_iff [of ttl, where 'a = int] uint_ge_0 [of ttl] by (simp add: seconds_def order_le_less)

definition cache_inv :: "dns_cache \<Rightarrow> bool" where
  "cache_inv c \<longleftrightarrow> distinct (map fst (dc_entries c)) \<and> length (dc_entries c) \<le> dc_max_size c"

lemma update_length:
  "length (AList.update k v xs) = (if k \<in> fst ` set xs then length xs else Suc (length xs))"
  by (induction xs) auto

lemma delete_length: "length (AList.delete k xs) \<le> length xs"
  by (simp add: AList.delete_eq)

lemma cache_inv_ops:
  "cache_inv (cache_new n)" "cache_inv c \<Longrightarrow> cache_inv (snd (cache_get now k c))"
  "cache_inv c \<Longrightarrow> cache_inv (cache_insert now k b ttl c)" "cache_inv c \<Longrightarrow> cache_inv (cache_clear c)"
proof -
  have flt: "distinct (map fst (filter P xs))" if "distinct (map fst xs)" for P and xs :: "(cache_key \<times> cache_entry) list"
    using that by (simp add: distinct_map inj_on_def)
  show "cache_inv (cache_new n)" "cache_inv c \<Longrightarrow> cache_inv (cache_clear c)"
    by (simp_all add: cache_inv_def cache_new_def cache_clear_def)
  show "cache_inv c \<Longrightarrow> cache_inv (snd (cache_get now k c))"
    using delete_length [of k "dc_entries c"]
    by (cases "map_of (dc_entries c) k") (auto simp: cache_inv_def cache_get_def AList.distinct_delete)
  assume inv: "cache_inv c"
  then have ev: "cache_inv (evict_expired now c)"
    by (auto simp: cache_inv_def evict_expired_def flt intro: order_trans [OF length_filter_le])
  show "cache_inv (cache_insert now k b ttl c)"
    using inv ev
    by (auto simp: cache_insert_def cache_inv_def Let_def cache_len_def update_length AList.distinct_update evict_expired_def)
qed

lemma cache_run_inv: "cache_inv (cache_run log n) \<and> dc_max_size (cache_run log n) = n"
proof (induction log)
  case (Cons e log)
  have "dc_max_size (cache_apply e c) = dc_max_size c" for c
    by (cases e) (auto simp: cache_insert_def cache_get_def cache_clear_def evict_expired_def Let_def split: option.split)
  with Cons show ?case
    by (cases e) (simp_all add: cache_inv_ops)
qed (use cache_inv_ops(1) in \<open>simp add: cache_new_def\<close>)

subsection \<open>The cache and the log\<close>

lemma cache_apply_keys:
  "fst ` set (dc_entries (cache_apply e c)) \<subseteq> log_keys [e] \<union> fst ` set (dc_entries c)"
proof (cases e)
  case (Put t k b ttl)
  have "fst ` set (AList.update k v xs) = insert k (fst ` set xs)" for v and xs :: "(cache_key \<times> cache_entry) list"
    by (induction xs) auto
  then show ?thesis
    by (auto simp: Put cache_insert_def evict_expired_def Let_def)
qed (auto simp: cache_get_def cache_clear_def AList.delete_eq split: option.split)

lemma cache_run_keys: "fst ` set (dc_entries (cache_run log n)) \<subseteq> log_keys log"
proof (induction log)
  case (Cons e log)
  with cache_apply_keys [of e "cache_run log n"] show ?case
    by (cases e) auto
qed (simp add: cache_new_def)

lemma log_keys_finite: "finite (log_keys log)"
  by (induction log rule: log_keys.induct) simp_all

lemma cache_run_room:
  assumes "card (log_keys log) < n"
  shows "cache_len (cache_run log n) < n"
proof -
  let ?es = "dc_entries (cache_run log n)"
  have "length ?es = card (fst ` set ?es)"
    using cache_run_inv [of log n] distinct_card [of "map fst ?es"] by (simp add: cache_inv_def)
  also have "\<dots> \<le> card (log_keys log)"
    by (rule card_mono [OF log_keys_finite cache_run_keys])
  finally show ?thesis
    using assms by (simp add: cache_len_def)
qed

lemma fst_cache_get:
  "fst (cache_get now k c) =
    (case map_of (dc_entries c) k of Some e \<Rightarrow> if is_expired now e then None else Some (ce_bytes e) | None \<Rightarrow> None)"
  by (simp add: cache_get_def split: option.split)

lemma get_insert:
  assumes "cache_len c < dc_max_size c" "t \<le> now"
  shows "fst (cache_get now k (cache_insert t k' b ttl c)) =
    (if k = k' \<and> ttl \<noteq> 0 then if now - t < seconds (uint ttl) then Some b else None else fst (cache_get now k c))"
  using assms seconds_pos [of ttl]
  by (auto simp: cache_insert_def fst_cache_get AList.update_conv' is_expired_def split: option.split)

lemma get_get:
  assumes "t \<le> now"
  shows "fst (cache_get now k (snd (cache_get t k' c))) = fst (cache_get now k c)"
proof (cases "map_of (dc_entries c) k'")
  case None
  then show ?thesis
    by (simp add: fst_cache_get) (simp add: cache_get_def)
next
  case (Some e)
  then have "dc_entries (snd (cache_get t k' c)) = (if is_expired t e then AList.delete k' (dc_entries c) else dc_entries c)"
    by (simp add: cache_get_def)
  with Some is_expired_mono [OF _ assms, of e] show ?thesis
    by (auto simp: fst_cache_get AList.delete_conv')
qed

lemma cache_follows_log:
  assumes "card (log_keys log) < n" "sorted_wrt (\<ge>) (now # log_times log)"
  shows "fst (cache_get now k (cache_run log n)) = log_get log now k"
  using assms
proof (induction log arbitrary: now)
  case Nil
  then show ?case
    by (simp add: fst_cache_get cache_new_def log_get_def)
next
  case (Cons e log)
  have "log_keys log \<subseteq> log_keys (e # log)"
    by (cases e) auto
  then have "card (log_keys log) \<le> card (log_keys (e # log))"
    using log_keys_finite by (auto intro: card_mono)
  then have less: "card (log_keys log) < n" and room: "cache_len (cache_run log n) < dc_max_size (cache_run log n)"
    using Cons.prems(1) cache_run_room [of log n] cache_run_inv [of log n] by simp_all
  have "sorted_wrt (\<ge>) (now # log_times log)"
    using Cons.prems(2) by (cases e) auto
  note ih = Cons.IH [OF less this]
  show ?case
  proof (cases e)
    case (Put t k' b ttl)
    with ih Cons.prems(2) show ?thesis
      by (simp add: get_insert [OF room] log_get_def)
  next
    case (Got t k')
    with ih Cons.prems(2) show ?thesis
      by (simp add: get_get log_get_def)
  next
    case Cleared
    then show ?thesis
      by (simp add: fst_cache_get cache_clear_def log_get_def)
  qed
qed

subsection \<open>The forward table\<close>

lemma find_longest:
  assumes "List.find P (by_length zs) = Some z"
  shows "z \<in> set zs" "P z" "\<And>z'. z' \<in> set zs \<Longrightarrow> P z' \<Longrightarrow> length (fz_name z') \<le> length (fz_name z)"
proof -
  obtain i where i: "i < length (by_length zs)" "P (by_length zs ! i)" "by_length zs ! i = z"
    and first: "\<forall>j < i. \<not> P (by_length zs ! j)"
    using assms unfolding find_Some_iff by blast
  have set: "set (by_length zs) = set zs"
    by (simp add: by_length_def)
  show "z \<in> set zs" "P z"
    using i set nth_mem by metis+
  fix z'
  assume z': "z' \<in> set zs" "P z'"
  then obtain j where j: "j < length (by_length zs)" "by_length zs ! j = z'"
    using set by (metis in_set_conv_nth)
  then have "i \<le> j"
    using first z'(2) not_less by blast
  moreover have "sorted (map (\<lambda>z. - int (length (fz_name z))) (by_length zs))"
    by (simp add: by_length_def)
  ultimately have "- int (length (fz_name (by_length zs ! i))) \<le> - int (length (fz_name (by_length zs ! j)))"
    using sorted_nth_mono j(1) i(1) by (metis (no_types, lifting) length_map nth_map)
  with i(3) j(2) show "length (fz_name z') \<le> length (fz_name z)"
    by simp
qed

lemma find_none: "List.find P (by_length zs) = None \<longleftrightarrow> (\<forall>z \<in> set zs. \<not> P z)"
  by (auto simp: find_None_iff by_length_def)

abbreviation zone_of_forwarder :: "dns_forwarder \<Rightarrow> forward_zone" where
  "zone_of_forwarder f \<equiv> \<lparr>fz_name = forward_key (fw_zone f), fz_servers = List.map_filter server_addr (fw_servers f)\<rparr>"

lemma from_forwarders_valid:
  assumes "\<forall>f \<in> set fs. List.map_filter server_addr (fw_servers f) \<noteq> []"
  shows "from_forwarders fs = by_length (map zone_of_forwarder fs)"
proof -
  have "List.map_filter (\<lambda>f. forward_zone_of (fw_zone f) (fw_servers f)) fs = map zone_of_forwarder fs"
    using assms by (induction fs) (simp_all add: List.map_filter_simps forward_zone_of_def)
  then show ?thesis
    by (simp add: from_forwarders_def)
qed

section \<open>What the resolver relies on\<close>

text \<open>
  \<open>has\<close> says that a cache has an answer under a key, since when, and for how long it is good. Answers
  enter by \<open>put\<close> only, and \<open>get\<close> gives no answer whose time has passed.
\<close>

locale response_cache =
  fixes has :: "'c \<Rightarrow> cache_key \<Rightarrow> instant \<Rightarrow> u8 list \<Rightarrow> instant \<Rightarrow> bool"
    and get :: "instant \<Rightarrow> cache_key \<Rightarrow> 'c \<Rightarrow> u8 list option \<times> 'c"
    and put :: "instant \<Rightarrow> cache_key \<Rightarrow> u8 list \<Rightarrow> u32 \<Rightarrow> 'c \<Rightarrow> 'c"
  assumes get_live: "get now k c = (Some b, c') \<Longrightarrow> \<exists>t dur. has c k t b dur \<and> now - t < dur"
    and get_only: "has (snd (get now k c)) k' t b dur \<Longrightarrow> has c k' t b dur"
    and put_only: "has (put now k b ttl c) k' t b' dur \<Longrightarrow>
      has c k' t b' dur \<or> k' = k \<and> t = now \<and> b' = b \<and> dur = seconds (uint ttl)"
begin

definition traced :: "(cache_key \<Rightarrow> instant \<Rightarrow> u8 list \<Rightarrow> instant \<Rightarrow> bool) \<Rightarrow> 'c \<Rightarrow> bool" where
  "traced P c \<longleftrightarrow> (\<forall>k t b dur. has c k t b dur \<longrightarrow> P k t b dur)"

lemma traced_mono: "traced P c \<Longrightarrow> (\<And>k t b dur. P k t b dur \<Longrightarrow> Q k t b dur) \<Longrightarrow> traced Q c"
  unfolding traced_def by blast

lemma traced_get: "traced P c \<Longrightarrow> traced P (snd (get now k c))"
  unfolding traced_def using get_only by blast

lemma traced_hit: "traced P c \<Longrightarrow> get now k c = (Some b, c') \<Longrightarrow> \<exists>t dur. P k t b dur \<and> now - t < dur"
  unfolding traced_def using get_live by blast

lemma traced_put: "traced P c \<Longrightarrow> P k now b (seconds (uint ttl)) \<Longrightarrow> traced P (put now k b ttl c)"
  unfolding traced_def using put_only by blast

end

definition cache_has :: "dns_cache \<Rightarrow> cache_key \<Rightarrow> instant \<Rightarrow> u8 list \<Rightarrow> instant \<Rightarrow> bool" where
  "cache_has c k t b dur \<longleftrightarrow> (k, \<lparr>ce_bytes = b, ce_inserted_at = t, ce_ttl = dur\<rparr>) \<in> set (dc_entries c)"

interpretation dc: response_cache cache_has cache_get cache_insert
proof
  fix now k b c c'
  assume "cache_get now k c = (Some b, c')"
  then obtain e where e: "map_of (dc_entries c) k = Some e" "\<not> is_expired now e" "ce_bytes e = b"
    using fst_cache_get [of now k c] by (auto split: option.splits if_splits)
  then have "cache_has c k (ce_inserted_at e) b (ce_ttl e)"
    using map_of_SomeD [OF e(1)] e(3) by (cases e) (simp add: cache_has_def)
  with e(2) show "\<exists>t dur. cache_has c k t b dur \<and> now - t < dur"
    unfolding is_expired_def by (metis max.bounded_iff max.cobounded2 not_le order_trans)
next
  fix now k c k' t b dur
  assume "cache_has (snd (cache_get now k c)) k' t b dur"
  then show "cache_has c k' t b dur"
    by (auto simp: cache_has_def cache_get_def AList.delete_eq split: option.splits if_splits)
next
  fix now k b ttl c k' t b' dur
  have "set (AList.update x v xs) \<subseteq> insert (x, v) (set xs)" for x :: cache_key and v :: cache_entry and xs
    by (induction xs) auto
  moreover assume "cache_has (cache_insert now k b ttl c) k' t b' dur"
  ultimately show "cache_has c k' t b' dur \<or> k' = k \<and> t = now \<and> b' = b \<and> dur = seconds (uint ttl)"
    unfolding cache_has_def cache_insert_def evict_expired_def by (fastforce simp: Let_def split: if_splits)
qed

section \<open>Properties\<close>



text \<open>
  C38. The two ways to find the servers of a name agree: a lookup in the table that is sorted by length
  once gives what the scan of the stored forwarders gives, as addresses, when every forwarder has a
  server with a valid address.
\<close>

theorem forward_table_agrees:
  assumes "fwd_inv d" "\<forall>f \<in> set (list_dns_forwarders d). List.map_filter server_addr (fw_servers f) \<noteq> []"
  shows "table_lookup (from_forwarders (list_dns_forwarders d)) qname =
    map_option (List.map_filter server_addr) (find_forward_servers d qname)"
proof -
  let ?fs = "list_dns_forwarders d" and ?q = "forward_key qname"
  have cov: "covers q (zone_of_forwarder f) \<longleftrightarrow> forwards q f" for q f
    by (simp add: covers_def forwards_def)
  have lookup: "table_lookup (from_forwarders ?fs) qname =
      map_option fz_servers (List.find (covers ?q) (by_length (map zone_of_forwarder ?fs)))"
    by (simp add: table_lookup_def from_forwarders_valid [OF assms(2)])
  show ?thesis
  proof (cases "List.find (covers ?q) (by_length (map zone_of_forwarder ?fs))")
    case None
    then have "forward_loop ?q None ?fs = None"
      unfolding find_none forward_loop_None by (auto simp: cov)
    with None lookup show ?thesis
      by (simp add: find_forward_servers_def)
  next
    case (Some z)
    note z = find_longest [OF Some]
    obtain f where f: "f \<in> set ?fs" "z = zone_of_forwarder f"
      using z(1) by auto
    then have fwd: "forwards ?q f"
      using z(2) cov by simp
    then obtain t n where loop: "forward_loop ?q None ?fs = Some (t, n)"
      using forward_loop_None [of ?q None ?fs] f(1) by (cases "forward_loop ?q None ?fs") auto
    from forward_loop_Some [OF loop] obtain g where g: "g \<in> set ?fs" "forwards ?q g" "t = fw_servers g"
      "n = length (forward_key (fw_zone g))" "length (forward_key (fw_zone f)) \<le> n"
      using f fwd by auto
    moreover have "n \<le> length (forward_key (fw_zone f))"
      using z(3) [of "zone_of_forwarder g"] g f cov by simp
    ultimately have "forward_key (fw_zone f) = forward_key (fw_zone g)"
      by (intro forwards_unique [OF fwd]) auto
    with f(1) g(1) assms(1) have "f = g"
      by (auto simp: fwd_inv_def list_dns_forwarders_def tbl_values_iff)
    with Some lookup loop f(2) g(3) show ?thesis
      by (simp add: find_forward_servers_def)
  qed
qed

lemma ex_servers: "server_addr ''10.0.0.1'' = Some (SocketV4 0x0A000001 53)" "server_addr ''10.0.0.2'' = Some (SocketV4 0x0A000002 53)"
proof -
  have zero: "digit_char 0 = CHR ''0''"
    by code_simp
  show "server_addr ''10.0.0.1'' = Some (SocketV4 0x0A000001 53)" "server_addr ''10.0.0.2'' = Some (SocketV4 0x0A000002 53)"
    by (simp_all add: server_addr_def contains_char_def parse_socket_def whole_def or_else_def read_socket_v4_def
        read_ipv4_def read_sep_def read_octet_def parse_octet_def u32_from_be_def read_char_def read_port_def read_decimal_def
        is_digit_def digits_val_def zero)
qed

theorem forward_table_agrees_witness:
  "table_lookup (from_forwarders (list_dns_forwarders ex_fwd_db)) ''www.g10.lo.'' = Some [SocketV4 0x0A000002 53]"
proof -
  have inv: "fwd_inv ex_fwd_db"
    unfolding ex_fwd_db_def by (intro fwd_inv_ops)
  have "map fw_servers (list_dns_forwarders ex_fwd_db) = [[''10.0.0.2''], [''10.0.0.1'']]"
    by code_simp
  then have "list_all (\<lambda>s. List.map_filter server_addr s \<noteq> []) (map fw_servers (list_dns_forwarders ex_fwd_db))"
    by (simp add: List.map_filter_simps ex_servers)
  then have valid: "\<forall>f \<in> set (list_dns_forwarders ex_fwd_db). List.map_filter server_addr (fw_servers f) \<noteq> []"
    by (simp add: list_all_iff)
  have "find_forward_servers ex_fwd_db ''www.g10.lo.'' = Some [''10.0.0.2'']"
    by code_simp
  with forward_table_agrees [OF inv valid, of "''www.g10.lo.''"] show ?thesis
    by (simp add: List.map_filter_simps ex_servers)
qed

end
