(* ===== verification/Recursor.thy ===== *)
theory Recursor
  imports Recursor_Cache Auth_Server
begin

text \<open>
  The recursive resolver, \<^verbatim>\<open>crates/microdns-recursor/src/resolver.rs\<close>, with the handler of a TCP
  connection and the constructors of \<^verbatim>\<open>lib.rs\<close>. What a server answers to a datagram, if it answers
  in time, is a parameter.
\<close>

unbundle bit_operations_syntax

section \<open>State\<close>

type_synonym net = "socket_addr \<Rightarrow> u8 list \<Rightarrow> u8 list option"

record resolver =
  rs_cache :: dns_cache
  rs_forward_table :: forward_table
  rs_db :: "db option"
  rs_upstream :: "socket_addr list"

definition default_upstream :: "socket_addr list" where
  "default_upstream = [SocketV4 0x08080808 53, SocketV4 0x08080404 53, SocketV4 0x01010101 53]"

definition resolver_new :: "dns_cache \<Rightarrow> forward_table \<Rightarrow> db option \<Rightarrow> resolver" where
  "resolver_new c t d = \<lparr>rs_cache = c, rs_forward_table = t, rs_db = d, rs_upstream = default_upstream\<rparr>"

record recursor_server =
  rv_listen_addr :: socket_addr
  rv_resolver :: resolver

definition recursor_new :: "string \<Rightarrow> nat \<Rightarrow> (string \<times> string list) list \<Rightarrow> db option \<Rightarrow> recursor_server option" where
  "recursor_new listen cache_size forward_zones d =
     map_option (\<lambda>addr. \<lparr>rv_listen_addr = addr, rv_resolver = resolver_new (cache_new cache_size) (from_config forward_zones) d\<rparr>)
       (parse_socket listen)"

definition recursor_from_db :: "socket_addr \<Rightarrow> db \<Rightarrow> nat \<Rightarrow> recursor_server" where
  "recursor_from_db addr d cache_size =
     \<lparr>rv_listen_addr = addr, rv_resolver = resolver_new (cache_new cache_size) (from_config []) (Some d)\<rparr>"

section \<open>Helpers\<close>

definition resolver_forward_servers :: "resolver \<Rightarrow> string \<Rightarrow> socket_addr list option" where
  "resolver_forward_servers s qname =
     (case Option.bind (rs_db s) (\<lambda>d. find_forward_servers d qname) of
        Some servers \<Rightarrow>
          (let addrs = List.map_filter server_addr servers
           in if addrs \<noteq> [] then Some addrs else table_lookup (rs_forward_table s) qname)
      | None \<Rightarrow> table_lookup (rs_forward_table s) qname)"

definition rewrite_response_id :: "u8 list \<Rightarrow> u16 \<Rightarrow> u8 list" where
  "rewrite_response_id response new_id =
     (if length response < 2 then response
      else response[0 := u16_to_be new_id ! 0, 1 := u16_to_be new_id ! 1])"

definition make_error_response :: "'n hickory \<Rightarrow> 'n message \<Rightarrow> response_code \<Rightarrow> u8 list" where
  "make_error_response h request code =
     (case msg_to_bytes h (message_new\<lparr>m_id := m_id request, m_type := Msg_Response, m_op_code := Op_Query,
             m_recursion_desired := m_recursion_desired request, m_recursion_available := True,
             m_response_code := code, m_queries := m_queries request\<rparr>) of
        Some w \<Rightarrow> w
      | None \<Rightarrow> [])"

definition is_servfail :: "u8 list \<Rightarrow> bool" where
  "is_servfail response \<longleftrightarrow> length response \<ge> 4 \<and> response ! 3 AND 0x0F = 2"

fun proto_rdata :: "'n hickory \<Rightarrow> record_data \<Rightarrow> 'n rdata option" where
  "proto_rdata h (RD_A a) = Some (D_A a)"
| "proto_rdata h (RD_AAAA a) = Some (D_AAAA a)"
| "proto_rdata h (RD_CNAME n) = map_option D_CNAME (name_from_str h (ensure_fqdn n))"
| "proto_rdata h (RD_MX p x) = map_option (D_MX p) (name_from_str h (ensure_fqdn x))"
| "proto_rdata h (RD_NS n) = map_option D_NS (name_from_str h (ensure_fqdn n))"
| "proto_rdata h (RD_PTR n) = map_option D_PTR (name_from_str h (ensure_fqdn n))"
| "proto_rdata h (RD_SOA s) =
     Option.bind (name_from_str h (ensure_fqdn (mname s))) (\<lambda>m.
     Option.bind (name_from_str h (ensure_fqdn (rname s))) (\<lambda>r.
     Some (D_SOA m r (serial s) (refresh s) (retry s) (expire s) (minimum s))))"
| "proto_rdata h (RD_SRV s) =
     map_option (D_SRV (srv_priority s) (srv_weight s) (srv_port s)) (name_from_str h (ensure_fqdn (srv_target s)))"
| "proto_rdata h (RD_TXT t) = Some (D_TXT [as_bytes t])"
| "proto_rdata h (RD_CAA _) = None"

definition record_to_proto :: "'n hickory \<Rightarrow> db \<Rightarrow> dns_record \<Rightarrow> 'n dns_rr option" where
  "record_to_proto h d r =
     Option.bind
       (if r_name r = ''@'' then map_option (\<lambda>z. ensure_fqdn (z_name z)) (find_zone_for_fqdn d (r_name r))
        else map_option (\<lambda>z. r_name r @ ''.'' @ z_name z @ ''.'') (get_zone d (r_zone_id r))) (\<lambda>fqdn.
     Option.bind (name_from_str h fqdn) (\<lambda>n.
     map_option (rr_from_rdata n (r_ttl r)) (proto_rdata h (r_data r))))"

definition build_soa_record_proto :: "'n hickory \<Rightarrow> zone \<Rightarrow> 'n dns_rr option" where
  "build_soa_record_proto h z =
     Option.bind (name_from_str h (ensure_fqdn (z_name z))) (\<lambda>n.
     Option.bind (name_from_str h (ensure_fqdn (mname (z_soa z)))) (\<lambda>m.
     Option.bind (name_from_str h (ensure_fqdn (rname (z_soa z)))) (\<lambda>r.
     Some ((rr_from_rdata n (z_default_ttl z)
              (D_SOA m r (serial (z_soa z)) (refresh (z_soa z)) (retry (z_soa z)) (expire (z_soa z)) (minimum (z_soa z))))
            \<lparr>rr_type := W_SOA\<rparr>))))"

fun micro_rtype :: "wire_type \<Rightarrow> record_type option" where
  "micro_rtype W_A = Some RT_A"
| "micro_rtype W_AAAA = Some RT_AAAA"
| "micro_rtype W_CNAME = Some RT_CNAME"
| "micro_rtype W_MX = Some RT_MX"
| "micro_rtype W_NS = Some RT_NS"
| "micro_rtype W_PTR = Some RT_PTR"
| "micro_rtype W_SRV = Some RT_SRV"
| "micro_rtype W_TXT = Some RT_TXT"
| "micro_rtype W_CAA = Some RT_CAA"
| "micro_rtype _ = None"

section \<open>Resolution\<close>

definition local_response :: "'n hickory \<Rightarrow> db \<Rightarrow> 'n message \<Rightarrow> 'n \<Rightarrow> wire_type \<Rightarrow> bool \<Rightarrow> 'n message" where
  "local_response h d request qname qtype authoritative =
     (let response = message_new\<lparr>m_id := m_id request, m_type := Msg_Response, m_op_code := Op_Query,
             m_recursion_desired := m_recursion_desired request, m_recursion_available := True,
             m_authoritative := authoritative, m_queries := m_queries request\<rparr>;
          fqdn = query_fqdn_of h qname;
          soa = (case Option.bind (find_zone_for_fqdn d fqdn) (build_soa_record_proto h) of Some r \<Rightarrow> [r] | None \<Rightarrow> [])
      in if qtype = W_SOA then response\<lparr>m_answers := soa, m_response_code := NoError\<rparr>
         else case micro_rtype qtype of
                None \<Rightarrow> response\<lparr>m_response_code := NotImp\<rparr>
              | Some rtype \<Rightarrow>
                  (let rs = query_fqdn d fqdn rtype
                   in if rs = []
                      then response\<lparr>m_name_servers := soa,
                             m_response_code := (if fqdn_exists d fqdn then NoError else NXDomain)\<rparr>
                      else response\<lparr>m_answers := List.map_filter (record_to_proto h d) rs, m_response_code := NoError\<rparr>))"

definition resolve_from_local ::
  "'n hickory \<Rightarrow> db \<Rightarrow> 'n message \<Rightarrow> 'n \<Rightarrow> wire_type \<Rightarrow> bool \<Rightarrow> u8 list option" where
  "resolve_from_local h d request qname qtype authoritative =
     msg_to_bytes h (local_response h d request qname qtype authoritative)"

text \<open>The answer of the first server that answers, and the cache after it.\<close>

definition cache_response :: "'n hickory \<Rightarrow> instant \<Rightarrow> cache_key \<Rightarrow> u8 list \<Rightarrow> dns_cache \<Rightarrow> dns_cache" where
  "cache_response h now key bytes c =
     (case msg_from_bytes h bytes of
        None \<Rightarrow> c
      | Some resp \<Rightarrow>
          (let ttl = min_ttl_from_response resp
           in if ttl > 0 \<and> m_response_code resp = NoError then cache_insert now key bytes ttl c else c))"

fun forward_query ::
  "'n hickory \<Rightarrow> net \<Rightarrow> instant \<Rightarrow> u8 list \<Rightarrow> 'n message \<Rightarrow> cache_key \<Rightarrow> socket_addr list \<Rightarrow> dns_cache \<Rightarrow> u8 list \<times> dns_cache" where
  "forward_query h net now raw request key [] c = (make_error_response h request ServFail, c)"
| "forward_query h net now raw request key (server # servers) c =
     (case net server raw of
        Some bytes \<Rightarrow> (rewrite_response_id bytes (m_id request), cache_response h now key bytes c)
      | None \<Rightarrow> forward_query h net now raw request key servers c)"

definition qname_lower :: "'n hickory \<Rightarrow> 'n question \<Rightarrow> string" where
  "qname_lower h q = to_lowercase (trim_end_matches CHR ''.'' (name_to_string h (q_name q)))"

definition key_of_question :: "'n hickory \<Rightarrow> 'n question \<Rightarrow> cache_key" where
  "key_of_question h q = from_query (qname_lower h q) (type_to_u16 h (q_type q)) (q_class q)"

definition local_zone :: "resolver \<Rightarrow> string \<Rightarrow> db option" where
  "local_zone s name = Option.bind (rs_db s) (\<lambda>d. if find_zone_for_fqdn d name \<noteq> None then Some d else None)"

text \<open>\<open>now\<close> is when the query is looked up in the cache, \<open>after\<close> when a server has answered.\<close>

definition resolve :: "'n hickory \<Rightarrow> net \<Rightarrow> instant \<Rightarrow> instant \<Rightarrow> u8 list \<Rightarrow> resolver \<Rightarrow> u8 list option \<times> resolver" where
  "resolve h net now after data s =
     (case msg_from_bytes h data of
        None \<Rightarrow> (None, s)
      | Some request \<Rightarrow>
          if m_op_code request \<noteq> Op_Query then (Some (make_error_response h request NotImp), s)
          else case m_queries request of
                 [] \<Rightarrow> (Some (make_error_response h request FormErr), s)
               | query # _ \<Rightarrow>
                   (case local_zone s (qname_lower h query) of
                      Some d \<Rightarrow> (resolve_from_local h d request (lower_name h (q_name query)) (q_type query) True, s)
                    | None \<Rightarrow>
                        (let key = key_of_question h query;
                             (hit, c) = cache_get now key (rs_cache s);
                             s = s\<lparr>rs_cache := c\<rparr>
                         in case hit of
                              Some bytes \<Rightarrow> (Some (rewrite_response_id bytes (m_id request)), s)
                            | None \<Rightarrow>
                                (case resolver_forward_servers s (qname_lower h query) of
                                   Some servers \<Rightarrow>
                                     (let (result, c) = forward_query h net after data request key servers c;
                                          s = s\<lparr>rs_cache := c\<rparr>
                                      in case (if is_servfail result then local_zone s (qname_lower h query) else None) of
                                           Some d \<Rightarrow> (resolve_from_local h d request (lower_name h (q_name query)) (q_type query) False, s)
                                         | None \<Rightarrow> (Some result, s))
                                 | None \<Rightarrow>
                                     (let (result, c) = forward_query h net after data request key (rs_upstream s) c
                                      in (Some result, s\<lparr>rs_cache := c\<rparr>))))))"

definition handle_tcp_query :: "'n hickory \<Rightarrow> net \<Rightarrow> instant \<Rightarrow> instant \<Rightarrow> stream \<Rightarrow> resolver \<Rightarrow> (u8 list \<times> bool) \<times> resolver" where
  "handle_tcp_query h net now after inp s =
     (case read_u16 inp 0 of
        None \<Rightarrow> (([], False), s)
      | Some len \<Rightarrow>
          if len = 0 then (([], True), s)
          else case read_exact inp 2 (unat len) of
                 None \<Rightarrow> (([], False), s)
               | Some buf \<Rightarrow> (let (reply, s) = resolve h net now after buf s in (send_reply reply, s)))"

section \<open>Facts\<close>

subsection \<open>The remote branch\<close>

definition servers_for :: "resolver \<Rightarrow> string \<Rightarrow> socket_addr list" where
  "servers_for s name = (case resolver_forward_servers s name of Some servers \<Rightarrow> servers | None \<Rightarrow> rs_upstream s)"

lemma cache_irrelevant [simp]:
  "local_zone (s\<lparr>rs_cache := c\<rparr>) name = local_zone s name"
  "resolver_forward_servers (s\<lparr>rs_cache := c\<rparr>) name = resolver_forward_servers s name"
  "servers_for (s\<lparr>rs_cache := c\<rparr>) name = servers_for s name"
  by (simp_all add: local_zone_def resolver_forward_servers_def servers_for_def Let_def cong: option.case_cong if_cong)

text \<open>The fallback to local data after a failed forward is never taken: a local zone has answered before.\<close>

lemma resolve_remote:
  assumes "msg_from_bytes h data = Some request" "m_op_code request = Op_Query" "m_queries request = q # qs"
    and "local_zone s (qname_lower h q) = None"
  shows "resolve h net now after data s =
    (case cache_get now (key_of_question h q) (rs_cache s) of
       (Some bytes, c) \<Rightarrow> (Some (rewrite_response_id bytes (m_id request)), s\<lparr>rs_cache := c\<rparr>)
     | (None, c) \<Rightarrow>
         (let (result, c) = forward_query h net after data request (key_of_question h q) (servers_for s (qname_lower h q)) c
          in (Some result, s\<lparr>rs_cache := c\<rparr>)))"
  using assms
  by (cases "cache_get now (key_of_question h q) (rs_cache s)"; cases "resolver_forward_servers s (qname_lower h q)")
     (auto simp: resolve_def Let_def servers_for_def split: option.split prod.split)

lemma resolve_keeps_cache:
  assumes "\<nexists>request q qs. msg_from_bytes h data = Some request \<and> m_op_code request = Op_Query \<and>
    m_queries request = q # qs \<and> local_zone s (qname_lower h q) = None"
  shows "snd (resolve h net now after data s) = s"
  using assms by (auto simp: resolve_def split: option.split list.split)

subsection \<open>Where answers come from\<close>

text \<open>A query of the past: when it was answered, the servers as they were, and what was asked.\<close>

type_synonym past = "instant \<times> net \<times> u8 list"

definition asked :: "'n hickory \<Rightarrow> u8 list \<Rightarrow> cache_key \<Rightarrow> bool" where
  "asked h data k \<longleftrightarrow> (\<exists>request q qs. msg_from_bytes h data = Some request \<and> m_queries request = q # qs \<and> k = key_of_question h q)"

definition received :: "'n hickory \<Rightarrow> resolver \<Rightarrow> past set \<Rightarrow> cache_key \<Rightarrow> instant \<Rightarrow> u8 list \<Rightarrow> bool" where
  "received h s H k t b \<longleftrightarrow>
     (\<exists>net data. (t, net, data) \<in> H \<and> asked h data k \<and> (\<exists>srv \<in> set (servers_for s (ck_name k)). net srv data = Some b))"

definition good_for :: "'n hickory \<Rightarrow> u8 list \<Rightarrow> instant \<Rightarrow> bool" where
  "good_for h b dur \<longleftrightarrow> (\<exists>m. msg_from_bytes h b = Some m \<and> m_response_code m = NoError \<and> dur = seconds (uint (min_ttl_from_response m)))"

lemma key_name [simp]: "ck_name (key_of_question h q) = qname_lower h q"
  by (simp add: key_of_question_def from_query_def qname_lower_def)

lemma forward_query_result:
  assumes "forward_query h net after data request k servers c = (result, c')"
  shows "result = make_error_response h request ServFail \<and> c' = c \<or>
    (\<exists>srv \<in> set servers. \<exists>b. net srv data = Some b \<and> result = rewrite_response_id b (m_id request) \<and> c' = cache_response h after k b c)"
  using assms by (induction servers) (auto split: option.splits)

lemma cache_response_traced:
  assumes "dc.traced P c" "\<And>dur. good_for h b dur \<Longrightarrow> P k now b dur"
  shows "dc.traced P (cache_response h now k b c)"
  using assms(1) dc.traced_put [OF assms(1), of k now b] assms(2)
  by (auto simp: cache_response_def good_for_def Let_def split: option.split)

text \<open>Every cached answer is one that a server of its question has given, for as long as its records allow.\<close>

abbreviation honest :: "'n hickory \<Rightarrow> resolver \<Rightarrow> past set \<Rightarrow> dns_cache \<Rightarrow> bool" where
  "honest h s H \<equiv> dc.traced (\<lambda>k t b dur. received h s H k t b \<and> good_for h b dur)"

lemma received_mono: "received h s H k t b \<Longrightarrow> H \<subseteq> H' \<Longrightarrow> received h s H' k t b"
  unfolding received_def by blast

lemma resolve_step:
  assumes "honest h s H (rs_cache s)" "resolve h net now after data s = (reply, s')"
  shows "\<exists>c. s' = s\<lparr>rs_cache := c\<rparr> \<and> honest h s (insert (after, net, data) H) c"
proof -
  let ?H = "insert (after, net, data) H"
  have more: "honest h s ?H c" if "honest h s H c" for c
    by (rule dc.traced_mono [OF that]) (use received_mono [OF _ subset_insertI] in blast)
  show ?thesis
  proof (cases "\<exists>request q qs. msg_from_bytes h data = Some request \<and> m_op_code request = Op_Query \<and>
      m_queries request = q # qs \<and> local_zone s (qname_lower h q) = None")
    case False
    then have "s' = s"
      using resolve_keeps_cache [OF False, of net now after] assms(2) by simp
    with more [OF assms(1)] show ?thesis
      by (intro exI [of _ "rs_cache s"]) simp
  next
    case True
    then obtain request q qs where req: "msg_from_bytes h data = Some request" "m_op_code request = Op_Query"
      "m_queries request = q # qs" "local_zone s (qname_lower h q) = None"
      by blast
    obtain hit c where get: "cache_get now (key_of_question h q) (rs_cache s) = (hit, c)"
      by fastforce
    have c: "honest h s ?H c"
      using dc.traced_get [OF more [OF assms(1)], of now "key_of_question h q"] get by simp
    show ?thesis
    proof (cases hit)
      case (Some bytes)
      with assms(2) c get show ?thesis
        unfolding resolve_remote [OF req] by auto
    next
      case None
      obtain result c' where fq: "forward_query h net after data request (key_of_question h q) (servers_for s (qname_lower h q)) c = (result, c')"
        by fastforce
      have "honest h s ?H c'"
        using forward_query_result [OF fq]
      proof (elim disjE bexE exE conjE)
        fix srv b
        assume b: "srv \<in> set (servers_for s (qname_lower h q))" "net srv data = Some b" "c' = cache_response h after (key_of_question h q) b c"
        have "asked h data (key_of_question h q)"
          using req by (auto simp: asked_def)
        with b(1,2) have "received h s ?H (key_of_question h q) after b"
          by (auto simp: received_def)
        then show ?thesis
          unfolding b(3) by (intro cache_response_traced [OF c]) simp
      qed (use c in simp)
      with assms(2) get fq None show ?thesis
        unfolding resolve_remote [OF req] by auto
    qed
  qed
qed

fun resolver_run :: "'n hickory \<Rightarrow> (instant \<times> past) list \<Rightarrow> resolver \<Rightarrow> resolver" where
  "resolver_run h [] s = s"
| "resolver_run h ((now, after, net, data) # qs) s = resolver_run h qs (snd (resolve h net now after data s))"

lemma received_cache [simp]: "received h (s\<lparr>rs_cache := c\<rparr>) = received h s"
  by (intro ext) (simp add: received_def)

lemma resolver_run_honest:
  assumes "honest h s H (rs_cache s)"
  shows "\<exists>c. resolver_run h qs s = s\<lparr>rs_cache := c\<rparr> \<and> honest h s (H \<union> snd ` set qs) c"
  using assms
proof (induction qs arbitrary: s H)
  case Nil
  then show ?case
    by (intro exI [of _ "rs_cache s"]) simp
next
  case (Cons x qs)
  obtain now after net data where x: "x = (now, after, net, data)"
    by (cases x)
  obtain reply s1 where run: "resolve h net now after data s = (reply, s1)"
    by fastforce
  from resolve_step [OF Cons.prems this] obtain c where c: "s1 = s\<lparr>rs_cache := c\<rparr>"
    "honest h s (insert (after, net, data) H) c"
    by blast
  then have "honest h s1 (insert (after, net, data) H) (rs_cache s1)"
    by simp
  from Cons.IH [OF this] obtain c' where c': "resolver_run h qs s1 = s1\<lparr>rs_cache := c'\<rparr>"
    "honest h s (insert (after, net, data) H \<union> snd ` set qs) c'"
    using c(1) by auto
  then have "honest h s (H \<union> snd ` set (x # qs)) c'"
    using x by (simp add: insert_commute)
  with c' c(1) x run show ?case
    by (intro exI [of _ c']) simp
qed

section \<open>Properties\<close>


text \<open>A question that was answered once is asked again when no server can be reached.\<close>

definition ex_reply :: "string message" where
  "ex_reply = (ex_query ''example.com.'')\<lparr>m_type := Msg_Response, m_answers := [rr_from_rdata ''example.com.'' 300 (D_A 0x5DB8D822)]\<rparr>"

definition ex_remote :: "string hickory" where
  "ex_remote = ex_hickory [ex_query ''example.com.'', ex_reply]"

definition ex_resolver :: resolver where
  "ex_resolver = resolver_new (cache_new 2) [] None"


text \<open>
  C40. Records at the apex of a zone are not given out: for a zone of the database none of whose names is
  \<^verbatim>\<open>@\<close>, the resolver answers a question for the zone's own name without error and without any of
  the apex records that the database finds for it.
\<close>

theorem apex_not_answered:
  assumes "find_zone_for_fqdn d ''@'' = None" "qtype \<noteq> W_SOA" "micro_rtype qtype = Some rtype"
    and "query_fqdn d (query_fqdn_of h qname) rtype = rs" "rs \<noteq> []" "\<forall>r \<in> set rs. r_name r = ''@''"
  shows "m_answers (local_response h d request qname qtype auth) = [] \<and>
    m_response_code (local_response h d request qname qtype auth) = NoError"
proof -
  have "record_to_proto h d r = None" if "r_name r = ''@''" for r
    using that assms(1) by (simp add: record_to_proto_def)
  then have "List.map_filter (record_to_proto h d) rs = []"
    using assms(6) by (auto simp: List.map_filter_def filter_empty_conv)
  with assms(2-5) show ?thesis
    by (simp add: local_response_def Let_def message_new_def)
qed

definition ex_apex :: dns_record where
  "ex_apex = ex_www\<lparr>r_name := ''@''\<rparr>"

definition ex_apex_db :: db where
  "ex_apex_db = snd (create_record ex_apex ex_db1)"

theorem apex_not_answered_witness:
  "query_fqdn ex_apex_db ''g10.lo'' RT_A = [ex_apex] \<and>
   m_answers (local_response (ex_hickory []) ex_apex_db (ex_query ''g10.lo.'') ''g10.lo.'' W_A True) = []"
proof -
  have q: "query_fqdn ex_apex_db (query_fqdn_of (ex_hickory []) ''g10.lo.'') RT_A = [ex_apex]" "find_zone_for_fqdn ex_apex_db ''@'' = None"
    "query_fqdn ex_apex_db ''g10.lo'' RT_A = [ex_apex]"
    by code_simp+
  have "m_answers (local_response (ex_hickory []) ex_apex_db (ex_query ''g10.lo.'') ''g10.lo.'' W_A True) = [] \<and>
      m_response_code (local_response (ex_hickory []) ex_apex_db (ex_query ''g10.lo.'') ''g10.lo.'' W_A True) = NoError"
    by (rule apex_not_answered [OF q(2) _ _ q(1)]) (simp_all add: ex_apex_def)
  with q(3) show ?thesis
    by blast
qed

end
