(* ===== verification/Spec2Isabelle.thy ===== *)
theory Spec2Isabelle
  imports Db_Props Db_Config Dhcp_Server Lb_Monitor Zone_Transfer Transfer_Acl Query_Tracker Secondary Recursor
begin

text \<open>
  A verification library for microdns.
\<close>

end
